(* ===== verification/Mxd_Prelude.thy ===== *)
theory Mxd_Prelude
  imports Main "HOL-Library.Word"
begin

text \<open>
  Shared vocabulary of the development: the machine integers of the source as
  words, the two-armed \<^typ>\<open>'e + 'a\<close> reading of Rust's \<^verbatim>\<open>Result\<close> with its
  propagation operator, the big-endian conversions of the standard library,
  slices, and the generic lemmas on them that the component theories use.
\<close>

section \<open>Types\<close>

type_synonym byte = "8 word"
type_synonym bytes = "byte list"
type_synonym u16 = "16 word"
type_synonym u32 = "32 word"
type_synonym u64 = "64 word"
type_synonym ('e, 'a) result = "'e + 'a"

abbreviation u16_max :: nat where
  "u16_max \<equiv> 65535"

abbreviation u32_max :: nat where
  "u32_max \<equiv> 4294967295"

named_theorems codec_simps \<open>equations that run an encoder or decoder on concrete shapes\<close>
named_theorems wf_intros \<open>introduction rules for the well-formedness invariants\<close>

section \<open>Result propagation\<close>

text \<open>\<open>rbind r f\<close> is the \<^verbatim>\<open>?\<close> operator: an error leaves the function, a value goes on.\<close>

fun rbind :: "('e, 'a) result \<Rightarrow> ('a \<Rightarrow> ('e, 'b) result) \<Rightarrow> ('e, 'b) result" where
  "rbind (Inl e) f = Inl e"
| "rbind (Inr a) f = f a"

text \<open>\<open>guard_or b e\<close> is \<^verbatim>\<open>if !b { return Err(e) }\<close>.\<close>

definition guard_or :: "bool \<Rightarrow> 'e \<Rightarrow> ('e, unit) result" where
  "guard_or b e = (if b then Inr () else Inl e)"

fun map_err :: "('e \<Rightarrow> 'f) \<Rightarrow> ('e, 'a) result \<Rightarrow> ('f, 'a) result" where
  "map_err g (Inl e) = Inl (g e)"
| "map_err g (Inr a) = Inr a"

fun ok_or :: "'e \<Rightarrow> 'a option \<Rightarrow> ('e, 'a) result" where
  "ok_or e None = Inl e"
| "ok_or e (Some a) = Inr a"

fun is_ok :: "('e, 'a) result \<Rightarrow> bool" where
  "is_ok (Inl e) = False"
| "is_ok (Inr a) = True"

lemma rbind_eq_Inr [simp]:
  "rbind r f = Inr b \<longleftrightarrow> (\<exists>a. r = Inr a \<and> f a = Inr b)"
  by (cases r) auto

lemma rbind_eq_Inl [simp]:
  "rbind r f = Inl e \<longleftrightarrow> r = Inl e \<or> (\<exists>a. r = Inr a \<and> f a = Inl e)"
  by (cases r) auto

lemma rbind_assoc: "rbind (rbind r f) g = rbind r (\<lambda>x. rbind (f x) g)"
  by (cases r) auto

lemma rbind_split:
  "P (rbind r f) \<longleftrightarrow> (\<forall>e. r = Inl e \<longrightarrow> P (Inl e)) \<and> (\<forall>a. r = Inr a \<longrightarrow> P (f a))"
  by (cases r) auto

lemma rbind_cong [fundef_cong]:
  "r = r' \<Longrightarrow> (\<And>a. r' = Inr a \<Longrightarrow> f a = g a) \<Longrightarrow> rbind r f = rbind r' g"
  by (cases r') auto

lemma guard_or_simps [simp]:
  "guard_or True e = Inr ()"
  "guard_or False e = Inl e"
  by (simp_all add: guard_or_def)

lemma guard_or_eq_Inr [simp]: "guard_or b e = Inr u \<longleftrightarrow> b"
  by (simp add: guard_or_def)

lemma guard_or_eq_Inl [simp]: "guard_or b e = Inl e' \<longleftrightarrow> \<not> b \<and> e' = e"
  by (auto simp: guard_or_def)

lemma map_err_eq_Inr [simp]: "map_err g r = Inr a \<longleftrightarrow> r = Inr a"
  by (cases r) auto

lemma ok_or_eq_Inr [simp]: "ok_or e x = Inr a \<longleftrightarrow> x = Some a"
  by (cases x) auto

lemma is_ok_iff: "is_ok r \<longleftrightarrow> (\<exists>a. r = Inr a)"
  by (cases r) auto

section \<open>Big-endian integers\<close>

definition to_be_bytes_u16 :: "u16 \<Rightarrow> bytes" where
  "to_be_bytes_u16 v = [ucast (drop_bit 8 v), ucast v]"

definition from_be_bytes_u16 :: "byte \<Rightarrow> byte \<Rightarrow> u16" where
  "from_be_bytes_u16 a b = or (push_bit 8 (ucast a)) (ucast b)"

definition to_be_bytes_u32 :: "u32 \<Rightarrow> bytes" where
  "to_be_bytes_u32 v =
     [ucast (drop_bit 24 v), ucast (drop_bit 16 v), ucast (drop_bit 8 v), ucast v]"

definition from_be_bytes_u32 :: "byte \<Rightarrow> byte \<Rightarrow> byte \<Rightarrow> byte \<Rightarrow> u32" where
  "from_be_bytes_u32 a b c d =
     or (push_bit 24 (ucast a)) (or (push_bit 16 (ucast b)) (or (push_bit 8 (ucast c)) (ucast d)))"

lemma length_to_be_bytes [simp]:
  "length (to_be_bytes_u16 v) = 2"
  "length (to_be_bytes_u32 w) = 4"
  by (simp_all add: to_be_bytes_u16_def to_be_bytes_u32_def)

lemma from_to_be_u16 [simp]: "from_be_bytes_u16 (ucast (drop_bit 8 v)) (ucast v) = v"
  unfolding from_be_bytes_u16_def
  by (rule bit_word_eqI) (auto simp: bit_simps)

lemma to_from_be_u16 [simp]:
  "ucast (drop_bit 8 (from_be_bytes_u16 a b)) = a"
  "ucast (from_be_bytes_u16 a b) = b"
  unfolding from_be_bytes_u16_def
  by (rule bit_word_eqI; auto simp: bit_simps dest: bit_imp_le_length)+

lemma bit_sub_add: "k \<le> n \<Longrightarrow> bit w (k + (n - k)) = bit w n"
  by simp

lemma from_to_be_u32 [simp]:
  "from_be_bytes_u32 (ucast (drop_bit 24 v)) (ucast (drop_bit 16 v)) (ucast (drop_bit 8 v)) (ucast v) = v"
proof (rule bit_word_eqI)
  fix n
  assume n: "n < LENGTH(32)"
  consider "n < 8" | "8 \<le> n" "n < 16" | "16 \<le> n" "n < 24" | "24 \<le> n" by linarith
  then show "bit (from_be_bytes_u32 (ucast (drop_bit 24 v)) (ucast (drop_bit 16 v))
      (ucast (drop_bit 8 v)) (ucast v)) n = bit v n"
    using n by cases (auto simp: from_be_bytes_u32_def bit_simps bit_sub_add)
qed

lemma to_from_be_u32 [simp]:
  "ucast (drop_bit 24 (from_be_bytes_u32 a b c d)) = a"
  "ucast (drop_bit 16 (from_be_bytes_u32 a b c d)) = b"
  "ucast (drop_bit 8 (from_be_bytes_u32 a b c d)) = c"
  "ucast (from_be_bytes_u32 a b c d) = d"
  unfolding from_be_bytes_u32_def
  by (rule bit_word_eqI; auto simp: bit_simps dest: bit_imp_le_length)+

lemma to_be_bytes_from [simp]:
  "to_be_bytes_u16 (from_be_bytes_u16 a b) = [a, b]"
  "to_be_bytes_u32 (from_be_bytes_u32 a b c d) = [a, b, c, d]"
  by (simp_all add: to_be_bytes_u16_def to_be_bytes_u32_def)

section \<open>Decimal rendering\<close>

text \<open>The rendering of an unsigned integer by \<^verbatim>\<open>{v}\<close> in a format string.\<close>

definition digit_char :: "nat \<Rightarrow> char" where
  "digit_char d = char_of (48 + d)"

fun show_nat :: "nat \<Rightarrow> string" where
  "show_nat n = (if n < 10 then [digit_char n] else show_nat (n div 10) @ [digit_char (n mod 10)])"

declare show_nat.simps [simp del]

lemma digit_char_inject: "d < 10 \<Longrightarrow> e < 10 \<Longrightarrow> digit_char d = digit_char e \<Longrightarrow> d = e"
  by (auto simp: digit_char_def dest: arg_cong [where f = "of_char :: char \<Rightarrow> nat"])

lemma show_nat_nonempty [simp]: "show_nat n \<noteq> []" "[] \<noteq> show_nat n"
  by (subst show_nat.simps, simp)+

lemma show_nat_inject [simp]: "show_nat m = show_nat n \<longleftrightarrow> m = n"
proof
  show "show_nat m = show_nat n \<Longrightarrow> m = n"
  proof (induction m arbitrary: n rule: show_nat.induct)
    case (1 m)
    show ?case
    proof (cases "m < 10 \<or> n < 10")
      case True
      with "1.prems" show ?thesis
        by (subst (asm) show_nat.simps, subst (asm) (2) show_nat.simps)
          (auto split: if_splits intro: digit_char_inject)
    next
      case False
      with "1.prems" have "show_nat (m div 10) = show_nat (n div 10)"
        and "digit_char (m mod 10) = digit_char (n mod 10)"
        by (subst (asm) show_nat.simps, subst (asm) (2) show_nat.simps, simp)+
      with "1.IH" False have "m div 10 = n div 10" "m mod 10 = n mod 10"
        by (auto intro: digit_char_inject)
      then show ?thesis by (metis div_mult_mod_eq)
    qed
  qed
qed simp

section \<open>Slices\<close>

text \<open>\<open>slice i j xs\<close> is \<^verbatim>\<open>xs[i..j]\<close>; the source takes it only inside the bounds.\<close>

definition slice :: "nat \<Rightarrow> nat \<Rightarrow> 'a list \<Rightarrow> 'a list" where
  "slice i j xs = take (j - i) (drop i xs)"

lemma length_slice [simp]: "j \<le> length xs \<Longrightarrow> length (slice i j xs) = j - i"
  by (simp add: slice_def)

lemma slice_append_mid: "slice (length xs) (length xs + length ys) (xs @ ys @ zs) = ys"
  by (simp add: slice_def)

lemma nth_slice [simp]: "i + k < j \<Longrightarrow> j \<le> length xs \<Longrightarrow> slice i j xs ! k = xs ! (i + k)"
  by (simp add: slice_def)

section \<open>Fixed-width codecs\<close>

text \<open>
  A value of fixed wire width: the encoder emits exactly \<open>width\<close> bytes, the decoder
  reads only those bytes, and the two are inverse on either side.
\<close>

locale fixed_width =
  fixes width :: nat
    and enc :: "'a \<Rightarrow> bytes"
    and dec :: "bytes \<Rightarrow> 'a"
  assumes enc_length: "length (enc a) = width"
    and dec_enc: "dec (enc a @ rest) = a"
    and enc_dec: "width \<le> length bs \<Longrightarrow> enc (dec bs) = take width bs"
begin

lemma dec_enc_exact: "dec (enc a) = a"
  using dec_enc [of a "[]"] by simp

lemma enc_inject: "enc a = enc b \<longleftrightarrow> a = b"
  by (metis dec_enc_exact)

lemma enc_append_inject: "enc a @ xs = enc b @ ys \<longleftrightarrow> a = b \<and> xs = ys"
  by (metis append_eq_append_conv dec_enc enc_length)

lemma dec_take: "width \<le> length bs \<Longrightarrow> dec (take width bs) = dec bs"
  by (metis append_take_drop_id dec_enc enc_dec dec_enc_exact)

lemma enc_dec_drop: "width \<le> length bs \<Longrightarrow> enc (dec bs) @ drop width bs = bs"
  by (simp add: enc_dec)

lemma enc_surj: "length bs = width \<Longrightarrow> \<exists>a. bs = enc a"
  by (metis enc_dec order_refl take_all_iff)

end

definition dec_u16 :: "bytes \<Rightarrow> u16" where
  "dec_u16 bs = from_be_bytes_u16 (bs ! 0) (bs ! 1)"

definition dec_u32 :: "bytes \<Rightarrow> u32" where
  "dec_u32 bs = from_be_bytes_u32 (bs ! 0) (bs ! 1) (bs ! 2) (bs ! 3)"

lemma take_2_nth: "2 \<le> length bs \<Longrightarrow> take 2 bs = [bs ! 0, bs ! 1]"
  by (cases bs; cases "tl bs") (auto simp: numeral_2_eq_2)

lemma take_4_nth: "4 \<le> length bs \<Longrightarrow> take 4 bs = [bs ! 0, bs ! 1, bs ! 2, bs ! 3]"
  by (rule nth_equalityI) (auto simp: less_Suc_eq numeral_eq_Suc)

interpretation u16c: fixed_width 2 to_be_bytes_u16 dec_u16
  by unfold_locales (simp_all add: dec_u16_def to_be_bytes_u16_def take_2_nth)

interpretation u32c: fixed_width 4 to_be_bytes_u32 dec_u32
  by unfold_locales (simp_all add: dec_u32_def to_be_bytes_u32_def take_4_nth)

text \<open>A 64-bit integer is its two halves, the high one first.\<close>

definition to_be_bytes_u64 :: "u64 \<Rightarrow> bytes" where
  "to_be_bytes_u64 v = to_be_bytes_u32 (ucast (drop_bit 32 v)) @ to_be_bytes_u32 (ucast v)"

definition dec_u64 :: "bytes \<Rightarrow> u64" where
  "dec_u64 bs = or (push_bit 32 (ucast (dec_u32 bs))) (ucast (dec_u32 (drop 4 bs)))"

lemma join_u64: "or (push_bit 32 (ucast (ucast (drop_bit 32 v) :: u32))) (ucast (ucast v :: u32)) = (v :: u64)"
  by (rule bit_word_eqI) (auto simp: bit_simps not_less bit_sub_add)

lemma split_u64:
  "ucast (drop_bit 32 (or (push_bit 32 (ucast (a :: u32))) (ucast (b :: u32))) :: u64) = a"
  "ucast (or (push_bit 32 (ucast (a :: u32))) (ucast (b :: u32)) :: u64) = b"
  by (rule bit_word_eqI; auto simp: bit_simps dest: bit_imp_le_length)+

interpretation u64c: fixed_width 8 to_be_bytes_u64 dec_u64
proof
  fix v rest and bs :: bytes
  show "length (to_be_bytes_u64 v) = 8" by (simp add: to_be_bytes_u64_def)
  show "dec_u64 (to_be_bytes_u64 v @ rest) = v"
    by (simp add: dec_u64_def to_be_bytes_u64_def u32c.dec_enc join_u64)
  assume "8 \<le> length bs"
  then show "to_be_bytes_u64 (dec_u64 bs) = take 8 bs"
    unfolding dec_u64_def to_be_bytes_u64_def split_u64
    using take_add [of 4 4 bs] by (simp add: u32c.enc_dec)
qed

lemma length_to_be_bytes_u64 [simp]: "length (to_be_bytes_u64 v) = 8"
  by (rule u64c.enc_length)

lemmas be_codec_simps [codec_simps] =
  u16c.dec_enc u16c.dec_enc_exact u32c.dec_enc u32c.dec_enc_exact

section \<open>Unsigned bounds\<close>

lemma unat_of_nat_u16 [simp]: "n \<le> u16_max \<Longrightarrow> unat (of_nat n :: u16) = n"
  by (simp add: unsigned_of_nat take_bit_nat_eq_self)

lemma unat_of_nat_u32 [simp]: "n \<le> u32_max \<Longrightarrow> unat (of_nat n :: u32) = n"
  by (simp add: unsigned_of_nat take_bit_nat_eq_self)

lemma unat_u16_le [simp]: "unat (w :: u16) \<le> u16_max"
  using unsigned_less [of w, where ?'a = nat] by simp

lemma unat_u32_le [simp]: "unat (w :: u32) \<le> u32_max"
  using unsigned_less [of w, where ?'a = nat] by simp

lemma unat_add_u32: "unat a + n \<le> u32_max \<Longrightarrow> unat (a + of_nat n :: u32) = unat a + n"
proof -
  assume "unat a + n \<le> u32_max"
  then have "unat (of_nat (unat a + n) :: u32) = unat a + n" by (rule unat_of_nat_u32)
  then show ?thesis by simp
qed

text \<open>\<^verbatim>\<open>u16::try_from\<close> and \<^verbatim>\<open>u32::try_from\<close> on a length.\<close>

definition u16_try_from :: "nat \<Rightarrow> u16 option" where
  "u16_try_from n = (if n \<le> u16_max then Some (of_nat n) else None)"

definition u32_try_from :: "nat \<Rightarrow> u32 option" where
  "u32_try_from n = (if n \<le> u32_max then Some (of_nat n) else None)"

lemma u16_try_from_Some [simp]:
  "u16_try_from n = Some w \<longleftrightarrow> n \<le> u16_max \<and> w = of_nat n"
  by (auto simp: u16_try_from_def)

lemma u32_try_from_Some [simp]:
  "u32_try_from n = Some w \<longleftrightarrow> n \<le> u32_max \<and> w = of_nat n"
  by (auto simp: u32_try_from_def)

section \<open>Fallible state\<close>

text \<open>
  Code that changes a state and may return early: the state reached is kept on both
  arms, so what happened before an error stays visible.
\<close>

type_synonym ('s, 'e, 'a) st = "'s \<Rightarrow> ('e, 'a) result \<times> 's"

definition st_return :: "'a \<Rightarrow> ('s, 'e, 'a) st" where
  "st_return a s = (Inr a, s)"

definition st_fail :: "'e \<Rightarrow> ('s, 'e, 'a) st" where
  "st_fail e s = (Inl e, s)"

definition st_bind :: "('s, 'e, 'a) st \<Rightarrow> ('a \<Rightarrow> ('s, 'e, 'b) st) \<Rightarrow> ('s, 'e, 'b) st" where
  "st_bind m k s = (case m s of (Inl e, s') \<Rightarrow> (Inl e, s') | (Inr a, s') \<Rightarrow> k a s')"

definition st_map_err :: "('e \<Rightarrow> 'f) \<Rightarrow> ('s, 'e, 'a) st \<Rightarrow> ('s, 'f, 'a) st" where
  "st_map_err g m s = (case m s of (r, s') \<Rightarrow> (map_err g r, s'))"

definition st_lift :: "('e, 'a) result \<Rightarrow> ('s, 'e, 'a) st" where
  "st_lift r s = (r, s)"

definition st_gets :: "('s \<Rightarrow> 'a) \<Rightarrow> ('s, 'e, 'a) st" where
  "st_gets f s = (Inr (f s), s)"

definition st_modify :: "('s \<Rightarrow> 's) \<Rightarrow> ('s, 'e, unit) st" where
  "st_modify f s = (Inr (), f s)"

text \<open>\<open>zoom get put m\<close> runs \<open>m\<close> on a part of the state.\<close>

definition zoom :: "('s \<Rightarrow> 't) \<Rightarrow> ('t \<Rightarrow> 's \<Rightarrow> 's) \<Rightarrow> ('t, 'e, 'a) st \<Rightarrow> ('s, 'e, 'a) st" where
  "zoom get put m s = (case m (get s) of (r, t) \<Rightarrow> (r, put t s))"

lemma st_bind_simps [simp]:
  "st_bind (st_return a) k c = k a c"
  "st_bind (st_fail e) k c = (Inl e, c)"
  "st_bind (st_lift (Inr a)) k c = k a c"
  "st_bind (st_lift (Inl e)) k c = (Inl e, c)"
  by (simp_all add: st_bind_def st_return_def st_fail_def st_lift_def)

lemma st_bind_Inr:
  "st_bind m k c = (Inr b, c'') \<longleftrightarrow> (\<exists>a c'. m c = (Inr a, c') \<and> k a c' = (Inr b, c''))"
  by (auto simp: st_bind_def split: prod.splits sum.splits)

lemma st_map_err_Inr: "st_map_err g m c = (Inr a, c') \<longleftrightarrow> m c = (Inr a, c')"
  by (auto simp: st_map_err_def split: prod.splits)

lemma st_lift_Inr: "st_lift r c = (Inr a, c') \<longleftrightarrow> r = Inr a \<and> c' = c"
  by (auto simp: st_lift_def)

lemma st_return_Inr: "st_return a c = (Inr b, c') \<longleftrightarrow> b = a \<and> c' = c"
  by (auto simp: st_return_def)

lemma zoom_Inr: "zoom get put m s = (Inr a, s') \<longleftrightarrow> (\<exists>t. m (get s) = (Inr a, t) \<and> s' = put t s)"
  by (auto simp: zoom_def split: prod.splits)

text \<open>
  What a computation guarantees from a state: \<open>Q\<close> of the value and the state reached
  when it succeeds, \<open>E\<close> of the error and the state reached when it does not.  The
  equations push the two conditions backwards through a program.
\<close>

definition wp :: "('s, 'e, 'a) st \<Rightarrow> ('a \<Rightarrow> 's \<Rightarrow> bool) \<Rightarrow> ('e \<Rightarrow> 's \<Rightarrow> bool) \<Rightarrow> 's \<Rightarrow> bool" where
  "wp m Q E s = (case m s of (Inr a, s') \<Rightarrow> Q a s' | (Inl e, s') \<Rightarrow> E e s')"

named_theorems wp_simps \<open>equations that compute weakest preconditions\<close>

lemma wp_primitive [wp_simps]:
  "wp (st_return a) Q E s = Q a s"
  "wp (st_fail e) Q E s = E e s"
  "wp (st_lift r) Q E s = (case r of Inr a \<Rightarrow> Q a s | Inl e \<Rightarrow> E e s)"
  "wp (st_gets f) Q E s = Q (f s) s"
  by (simp_all add: wp_def st_return_def st_fail_def st_lift_def st_gets_def split: sum.split)

lemma wp_modify [wp_simps]: "wp (st_modify g) Q E s = Q () (g s)"
  by (simp add: wp_def st_modify_def)

lemma wp_bind [wp_simps]: "wp (st_bind m k) Q E s = wp m (\<lambda>a. wp (k a) Q E) E s"
  by (auto simp: wp_def st_bind_def split: prod.split sum.split)

lemma wp_map_err [wp_simps]: "wp (st_map_err g m) Q E s = wp m Q (\<lambda>e. E (g e)) s"
  by (auto simp: wp_def st_map_err_def split: prod.split sum.split)

lemma wp_zoom [wp_simps]:
  "wp (zoom get put m) Q E s = wp m (\<lambda>a t. Q a (put t s)) (\<lambda>e t. E e (put t s)) (get s)"
  by (auto simp: wp_def zoom_def split: prod.split sum.split)

lemma wp_split [wp_simps]:
  "wp (case opt of None \<Rightarrow> m | Some x \<Rightarrow> k x) Q E s = (case opt of None \<Rightarrow> wp m Q E s | Some x \<Rightarrow> wp (k x) Q E s)"
  "wp (case r of Inl e \<Rightarrow> h e | Inr a \<Rightarrow> l a) Q E s = (case r of Inl e \<Rightarrow> wp (h e) Q E s | Inr a \<Rightarrow> wp (l a) Q E s)"
  "wp (if b then m else n) Q E s = (if b then wp m Q E s else wp n Q E s)"
  "wp (case p of (x, y) \<Rightarrow> f x y) Q E s = (case p of (x, y) \<Rightarrow> wp (f x y) Q E s)"
  by (simp_all split: option.split sum.split prod.split)

lemma wp_mono:
  assumes "wp m Q E s" "\<And>a s'. Q a s' \<Longrightarrow> Q' a s'" "\<And>e s'. E e s' \<Longrightarrow> E' e s'"
  shows "wp m Q' E' s"
  using assms by (auto simp: wp_def split: prod.splits sum.splits)

lemma wp_conj:
  "wp m Q E s \<Longrightarrow> wp m Q' E' s \<Longrightarrow> wp m (\<lambda>a s'. Q a s' \<and> Q' a s') (\<lambda>e s'. E e s' \<and> E' e s') s"
  by (auto simp: wp_def split: prod.splits sum.splits)

lemma wp_run:
  assumes "wp m Q E s" "m s = (r, s')"
  shows "case r of Inr a \<Rightarrow> Q a s' | Inl e \<Rightarrow> E e s'"
  using assms by (simp add: wp_def split: sum.splits)

text \<open>A computation that moves every state along a preorder, whatever its outcome.\<close>

definition steps :: "('s \<Rightarrow> 's \<Rightarrow> bool) \<Rightarrow> ('s, 'e, 'a) st \<Rightarrow> bool" where
  "steps R m \<longleftrightarrow> (\<forall>s. wp m (\<lambda>_. R s) (\<lambda>_. R s) s)"

named_theorems steps_intros \<open>introduction rules that walk a program for a preorder\<close>

lemma steps_primitive [steps_intros]:
  assumes "reflp R"
  shows "steps R (st_return a)" "steps R (st_fail e)" "steps R (st_lift r)" "steps R (st_gets f)"
  using assms by (auto simp: steps_def wp_simps reflp_def split: sum.split)

lemma steps_map_err [steps_intros]: "steps R m \<Longrightarrow> steps R (st_map_err g m)"
  by (simp add: steps_def wp_simps)

lemma steps_bind [steps_intros]:
  assumes "transp R" "steps R m" "\<And>a. steps R (k a)"
  shows "steps R (st_bind m k)"
  unfolding steps_def wp_bind
proof
  fix s
  have "wp (k a) (\<lambda>_. R s) (\<lambda>_. R s) s'" if "R s s'" for a s'
    using assms(3) [of a] that transpD [OF assms(1)]
    by (auto simp: steps_def intro: wp_mono)
  then show "wp m (\<lambda>a. wp (k a) (\<lambda>_. R s) (\<lambda>_. R s)) (\<lambda>_. R s) s"
    using assms(2) by (auto simp: steps_def intro: wp_mono)
qed

lemma steps_cases [steps_intros]:
  "steps R m \<Longrightarrow> (\<And>x. steps R (k x)) \<Longrightarrow> steps R (case opt of None \<Rightarrow> m | Some x \<Rightarrow> k x)"
  "steps R m \<Longrightarrow> steps R n \<Longrightarrow> steps R (if b then m else n)"
  "(\<And>x y. steps R (f x y)) \<Longrightarrow> steps R (case p of (x, y) \<Rightarrow> f x y)"
  by (simp_all split: option.split prod.split)

lemma steps_run: "steps R m \<Longrightarrow> m s = (r, s') \<Longrightarrow> R s s'"
  by (auto simp: steps_def wp_def dest!: spec [of _ s] split: sum.splits)

lemma wp_steps:
  assumes "steps R m" "\<And>a s'. R s s' \<Longrightarrow> Q a s'" "\<And>e s'. R s s' \<Longrightarrow> E e s'"
  shows "wp m Q E s"
  using assms by (auto simp: steps_def intro: wp_mono)

lemma steps_mono:
  assumes "steps R m" "\<And>s t. R s t \<Longrightarrow> R' s t" shows "steps R' m"
  unfolding steps_def
proof
  fix s show "wp m (\<lambda>_. R' s) (\<lambda>_. R' s) s"
    using assms(1) by (auto simp: steps_def intro: wp_mono [of m "\<lambda>_. R s" "\<lambda>_. R s"] assms(2))
qed

lemma steps_sum [steps_intros]:
  "(\<And>e. steps R (f e)) \<Longrightarrow> (\<And>a. steps R (g a)) \<Longrightarrow> steps R (case r of Inl e \<Rightarrow> f e | Inr a \<Rightarrow> g a)"
  by (simp split: sum.split)

lemma steps_zoom:
  "steps R' m \<Longrightarrow> (\<And>s t. R' (get s) t \<Longrightarrow> R s (put t s)) \<Longrightarrow> steps R (zoom get put m)"
  by (auto simp: steps_def wp_simps intro: wp_mono)

lemma wp_trivial: "(\<And>a s'. Q a s') \<Longrightarrow> (\<And>e s'. E e s') \<Longrightarrow> wp m Q E s"
  by (simp add: wp_def split: prod.split sum.split)

end
