(* ===== verification/Rust_Text.thy ===== *)
theory Rust_Text
  imports Mxd_Prelude
begin

text \<open>
  The parts of Rust's text handling the server relies on.  A \<^verbatim>\<open>String\<close> is its
  UTF-8 byte sequence; \<open>utf8_valid\<close> is the check of \<^verbatim>\<open>std::str::from_utf8\<close>, by the
  table of well-formed byte sequences of RFC 3629.
\<close>

type_synonym rstring = bytes

definition in_range :: "byte \<Rightarrow> byte \<Rightarrow> byte \<Rightarrow> bool" where
  "in_range lo hi b \<longleftrightarrow> lo \<le> b \<and> b \<le> hi"

abbreviation utf8_cont :: "byte \<Rightarrow> bool" where
  "utf8_cont b \<equiv> in_range 0x80 0xBF b"

fun utf8_valid :: "bytes \<Rightarrow> bool" where
  "utf8_valid [] = True"
| "utf8_valid (b0 # bs) =
    (if b0 < 0x80 then utf8_valid bs
     else if in_range 0xC2 0xDF b0 then
       (case bs of b1 # bs' \<Rightarrow> utf8_cont b1 \<and> utf8_valid bs' | _ \<Rightarrow> False)
     else if in_range 0xE0 0xEF b0 then
       (case bs of b1 # b2 # bs' \<Rightarrow>
          (if b0 = 0xE0 then in_range 0xA0 0xBF b1
           else if b0 = 0xED then in_range 0x80 0x9F b1 else utf8_cont b1)
          \<and> utf8_cont b2 \<and> utf8_valid bs' | _ \<Rightarrow> False)
     else if in_range 0xF0 0xF4 b0 then
       (case bs of b1 # b2 # b3 # bs' \<Rightarrow>
          (if b0 = 0xF0 then in_range 0x90 0xBF b1
           else if b0 = 0xF4 then in_range 0x80 0x8F b1 else utf8_cont b1)
          \<and> utf8_cont b2 \<and> utf8_cont b3 \<and> utf8_valid bs' | _ \<Rightarrow> False)
     else False)"

definition from_utf8 :: "bytes \<Rightarrow> rstring option" where
  "from_utf8 bs = (if utf8_valid bs then Some bs else None)"

lemma from_utf8_Some [simp]: "from_utf8 bs = Some s \<longleftrightarrow> utf8_valid bs \<and> s = bs"
  by (auto simp: from_utf8_def)

lemma from_utf8_None [simp]: "from_utf8 bs = None \<longleftrightarrow> \<not> utf8_valid bs"
  by (auto simp: from_utf8_def)

lemma utf8_valid_ascii: "(\<forall>b\<in>set bs. b < 0x80) \<Longrightarrow> utf8_valid bs"
  by (induction bs) auto

lemma utf8_valid_append: "utf8_valid xs \<Longrightarrow> utf8_valid (xs @ ys) = utf8_valid ys"
  by (induction xs rule: utf8_valid.induct) (auto split: if_splits list.splits)

text \<open>ASCII literals of the source as bytes.\<close>

definition ascii :: "string \<Rightarrow> bytes" where
  "ascii s = map (\<lambda>c. of_nat (of_char c)) s"

lemma length_ascii [simp]: "length (ascii s) = length s"
  by (simp add: ascii_def)

end
