(* ===== verification/Wire_Ids.thy ===== *)
theory Wire_Ids
  imports Mxd_Prelude
begin

text \<open>
  The two tagged \<^verbatim>\<open>u16\<close> identifiers of the protocol: \<^verbatim>\<open>FieldId\<close>
  (src/src/field_id.rs) and \<^verbatim>\<open>TransactionType\<close> (src/src/transaction_type.rs),
  with their conversions to and from the wire code, their \<^verbatim>\<open>Display\<close> labels and
  the payload policy of the transaction types.  The locale \<open>wire_code\<close> is the
  contract both enumerations meet, and is interpreted on each of them.
\<close>

section \<open>Transaction identifiers used as constants\<close>

definition FILE_NAME_LIST_ID :: u16 where [simp]: "FILE_NAME_LIST_ID = 200"
definition DOWNLOAD_BANNER_ID :: u16 where [simp]: "DOWNLOAD_BANNER_ID = 212"
definition USER_NAME_LIST_ID :: u16 where [simp]: "USER_NAME_LIST_ID = 300"
definition NOTIFY_CHANGE_USER_ID :: u16 where [simp]: "NOTIFY_CHANGE_USER_ID = 301"
definition NOTIFY_DELETE_USER_ID :: u16 where [simp]: "NOTIFY_DELETE_USER_ID = 302"
definition GET_CLIENT_INFO_TEXT_ID :: u16 where [simp]: "GET_CLIENT_INFO_TEXT_ID = 303"
definition SET_CLIENT_USER_INFO_ID :: u16 where [simp]: "SET_CLIENT_USER_INFO_ID = 304"

section \<open>Field identifiers\<close>

datatype FieldId =
    F_Name
  | F_Login
  | F_Password
  | F_UserId
  | F_IconId
  | F_UserAccess
  | F_UserFlags
  | F_Options
  | F_ChatSubject
  | F_Version
  | F_BannerId
  | F_ServerName
  | F_Data
  | F_NewsCategory
  | F_NewsArticle
  | F_NewsArticleId
  | F_NewsDataFlavor
  | F_NewsTitle
  | F_NewsPoster
  | F_NewsDate
  | F_NewsPrevId
  | F_NewsNextId
  | F_NewsArticleData
  | F_NewsArticleFlags
  | F_NewsParentId
  | F_NewsFirstChildId
  | F_NewsPath
  | F_FileName
  | F_UserNameWithInfo
  | F_AutoResponse
  | F_Other u16

definition field_id_from_u16 :: "u16 \<Rightarrow> FieldId" where
  "field_id_from_u16 v =
     (if v = 101 then F_Data
     else if v = 102 then F_Name
     else if v = 103 then F_UserId
     else if v = 104 then F_IconId
     else if v = 105 then F_Login
     else if v = 106 then F_Password
     else if v = 110 then F_UserAccess
     else if v = 112 then F_UserFlags
     else if v = 113 then F_Options
     else if v = 115 then F_ChatSubject
     else if v = 160 then F_Version
     else if v = 161 then F_BannerId
     else if v = 162 then F_ServerName
     else if v = 215 then F_AutoResponse
     else if v = 323 then F_NewsCategory
     else if v = 321 then F_NewsArticle
     else if v = 326 then F_NewsArticleId
     else if v = 327 then F_NewsDataFlavor
     else if v = 328 then F_NewsTitle
     else if v = 329 then F_NewsPoster
     else if v = 330 then F_NewsDate
     else if v = 331 then F_NewsPrevId
     else if v = 332 then F_NewsNextId
     else if v = 333 then F_NewsArticleData
     else if v = 334 then F_NewsArticleFlags
     else if v = 335 then F_NewsParentId
     else if v = 336 then F_NewsFirstChildId
     else if v = 325 then F_NewsPath
     else if v = FILE_NAME_LIST_ID then F_FileName
     else if v = USER_NAME_LIST_ID then F_UserNameWithInfo
     else F_Other v)"

fun field_id_to_u16 :: "FieldId \<Rightarrow> u16" where
  "field_id_to_u16 F_Name = 102"
| "field_id_to_u16 F_Login = 105"
| "field_id_to_u16 F_Password = 106"
| "field_id_to_u16 F_UserId = 103"
| "field_id_to_u16 F_IconId = 104"
| "field_id_to_u16 F_UserAccess = 110"
| "field_id_to_u16 F_UserFlags = 112"
| "field_id_to_u16 F_Options = 113"
| "field_id_to_u16 F_ChatSubject = 115"
| "field_id_to_u16 F_Version = 160"
| "field_id_to_u16 F_BannerId = 161"
| "field_id_to_u16 F_ServerName = 162"
| "field_id_to_u16 F_Data = 101"
| "field_id_to_u16 F_AutoResponse = 215"
| "field_id_to_u16 F_NewsCategory = 323"
| "field_id_to_u16 F_NewsArticle = 321"
| "field_id_to_u16 F_NewsArticleId = 326"
| "field_id_to_u16 F_NewsDataFlavor = 327"
| "field_id_to_u16 F_NewsTitle = 328"
| "field_id_to_u16 F_NewsPoster = 329"
| "field_id_to_u16 F_NewsDate = 330"
| "field_id_to_u16 F_NewsPrevId = 331"
| "field_id_to_u16 F_NewsNextId = 332"
| "field_id_to_u16 F_NewsArticleData = 333"
| "field_id_to_u16 F_NewsArticleFlags = 334"
| "field_id_to_u16 F_NewsParentId = 335"
| "field_id_to_u16 F_NewsFirstChildId = 336"
| "field_id_to_u16 F_NewsPath = 325"
| "field_id_to_u16 F_FileName = FILE_NAME_LIST_ID"
| "field_id_to_u16 F_UserNameWithInfo = USER_NAME_LIST_ID"
| "field_id_to_u16 (F_Other v) = v"

fun field_id_display :: "FieldId \<Rightarrow> string" where
  "field_id_display F_Name = ''Name''"
| "field_id_display F_Login = ''Login''"
| "field_id_display F_Password = ''Password''"
| "field_id_display F_UserId = ''UserId''"
| "field_id_display F_IconId = ''IconId''"
| "field_id_display F_UserAccess = ''UserAccess''"
| "field_id_display F_UserFlags = ''UserFlags''"
| "field_id_display F_Options = ''Options''"
| "field_id_display F_ChatSubject = ''ChatSubject''"
| "field_id_display F_Version = ''Version''"
| "field_id_display F_BannerId = ''BannerId''"
| "field_id_display F_ServerName = ''ServerName''"
| "field_id_display F_Data = ''Data''"
| "field_id_display F_AutoResponse = ''AutoResponse''"
| "field_id_display F_NewsCategory = ''NewsCategory''"
| "field_id_display F_NewsArticle = ''NewsArticle''"
| "field_id_display F_NewsArticleId = ''NewsArticleId''"
| "field_id_display F_NewsDataFlavor = ''NewsDataFlavor''"
| "field_id_display F_NewsTitle = ''NewsTitle''"
| "field_id_display F_NewsPoster = ''NewsPoster''"
| "field_id_display F_NewsDate = ''NewsDate''"
| "field_id_display F_NewsPrevId = ''NewsPrevId''"
| "field_id_display F_NewsNextId = ''NewsNextId''"
| "field_id_display F_NewsArticleData = ''NewsArticleData''"
| "field_id_display F_NewsArticleFlags = ''NewsArticleFlags''"
| "field_id_display F_NewsParentId = ''NewsParentId''"
| "field_id_display F_NewsFirstChildId = ''NewsFirstChildId''"
| "field_id_display F_NewsPath = ''NewsPath''"
| "field_id_display F_FileName = ''FileName''"
| "field_id_display F_UserNameWithInfo = ''UserNameWithInfo''"
| "field_id_display (F_Other v) = ''Other('' @ show_nat (unat v) @ '')''"

section \<open>Transaction types\<close>

datatype TransactionType =
    T_Error
  | T_Login
  | T_Agreement
  | T_Agreed
  | T_GetFileNameList
  | T_DownloadBanner
  | T_GetUserNameList
  | T_NotifyChangeUser
  | T_NotifyDeleteUser
  | T_GetClientInfoText
  | T_SetClientUserInfo
  | T_UserAccess
  | T_NewsCategoryNameList
  | T_NewsArticleNameList
  | T_NewsArticleData
  | T_PostNewsArticle
  | T_Other u16

definition transaction_type_from_u16 :: "u16 \<Rightarrow> TransactionType" where
  "transaction_type_from_u16 v =
     (if v = 100 then T_Error
     else if v = 107 then T_Login
     else if v = 109 then T_Agreement
     else if v = 121 then T_Agreed
     else if v = FILE_NAME_LIST_ID then T_GetFileNameList
     else if v = DOWNLOAD_BANNER_ID then T_DownloadBanner
     else if v = USER_NAME_LIST_ID then T_GetUserNameList
     else if v = NOTIFY_CHANGE_USER_ID then T_NotifyChangeUser
     else if v = NOTIFY_DELETE_USER_ID then T_NotifyDeleteUser
     else if v = GET_CLIENT_INFO_TEXT_ID then T_GetClientInfoText
     else if v = SET_CLIENT_USER_INFO_ID then T_SetClientUserInfo
     else if v = 354 then T_UserAccess
     else if v = 370 then T_NewsCategoryNameList
     else if v = 371 then T_NewsArticleNameList
     else if v = 400 then T_NewsArticleData
     else if v = 410 then T_PostNewsArticle
     else T_Other v)"

fun transaction_type_to_u16 :: "TransactionType \<Rightarrow> u16" where
  "transaction_type_to_u16 T_Error = 100"
| "transaction_type_to_u16 T_Login = 107"
| "transaction_type_to_u16 T_Agreement = 109"
| "transaction_type_to_u16 T_Agreed = 121"
| "transaction_type_to_u16 T_GetFileNameList = FILE_NAME_LIST_ID"
| "transaction_type_to_u16 T_DownloadBanner = DOWNLOAD_BANNER_ID"
| "transaction_type_to_u16 T_GetUserNameList = USER_NAME_LIST_ID"
| "transaction_type_to_u16 T_NotifyChangeUser = NOTIFY_CHANGE_USER_ID"
| "transaction_type_to_u16 T_NotifyDeleteUser = NOTIFY_DELETE_USER_ID"
| "transaction_type_to_u16 T_GetClientInfoText = GET_CLIENT_INFO_TEXT_ID"
| "transaction_type_to_u16 T_SetClientUserInfo = SET_CLIENT_USER_INFO_ID"
| "transaction_type_to_u16 T_UserAccess = 354"
| "transaction_type_to_u16 T_NewsCategoryNameList = 370"
| "transaction_type_to_u16 T_NewsArticleNameList = 371"
| "transaction_type_to_u16 T_NewsArticleData = 400"
| "transaction_type_to_u16 T_PostNewsArticle = 410"
| "transaction_type_to_u16 (T_Other v) = v"

fun transaction_type_display :: "TransactionType \<Rightarrow> string" where
  "transaction_type_display T_Error = ''Error''"
| "transaction_type_display T_Login = ''Login''"
| "transaction_type_display T_Agreement = ''Agreement''"
| "transaction_type_display T_Agreed = ''Agreed''"
| "transaction_type_display T_GetFileNameList = ''GetFileNameList''"
| "transaction_type_display T_DownloadBanner = ''DownloadBanner''"
| "transaction_type_display T_GetUserNameList = ''GetUserNameList''"
| "transaction_type_display T_NotifyChangeUser = ''NotifyChangeUser''"
| "transaction_type_display T_NotifyDeleteUser = ''NotifyDeleteUser''"
| "transaction_type_display T_GetClientInfoText = ''GetClientInfoText''"
| "transaction_type_display T_SetClientUserInfo = ''SetClientUserInfo''"
| "transaction_type_display T_UserAccess = ''UserAccess''"
| "transaction_type_display T_NewsCategoryNameList = ''NewsCategoryNameList''"
| "transaction_type_display T_NewsArticleNameList = ''NewsArticleNameList''"
| "transaction_type_display T_NewsArticleData = ''NewsArticleData''"
| "transaction_type_display T_PostNewsArticle = ''PostNewsArticle''"
| "transaction_type_display (T_Other v) = ''Other('' @ show_nat (unat v) @ '')''"

fun allows_payload :: "TransactionType \<Rightarrow> bool" where
  "allows_payload T_GetFileNameList = False"
| "allows_payload T_DownloadBanner = False"
| "allows_payload T_GetUserNameList = False"
| "allows_payload _ = True"

definition rejects_payload :: "TransactionType \<Rightarrow> bool \<Rightarrow> bool" where
  "rejects_payload t payload_is_empty =
     (if payload_is_empty then False
      else (case t of T_GetFileNameList \<Rightarrow> False | _ \<Rightarrow> \<not> allows_payload t))"

definition bypass_payload_decode :: "TransactionType \<Rightarrow> bool" where
  "bypass_payload_decode t \<longleftrightarrow> t = T_GetFileNameList \<or> \<not> allows_payload t"

section \<open>The contract of a wire code\<close>

text \<open>
  An enumeration with a catch-all variant: reading a code and writing it back is
  lossless, so the catch-all never hides a code.  The converse holds only for the
  canonical values, those that reading can produce.
\<close>

locale wire_code =
  fixes from_code :: "u16 \<Rightarrow> 'a"
    and to_code :: "'a \<Rightarrow> u16"
  assumes to_from: "to_code (from_code v) = v"
begin

lemma from_code_inject: "from_code v = from_code w \<longleftrightarrow> v = w"
  by (metis to_from)

lemma canonical_from: "from_code (to_code (from_code v)) = from_code v"
  by (simp add: to_from)

lemma canonical_iff: "from_code (to_code a) = a \<longleftrightarrow> a \<in> range from_code"
  by (metis canonical_from imageE rangeI)

lemma to_code_inject_canonical:
  "from_code (to_code a) = a \<Longrightarrow> from_code (to_code b) = b \<Longrightarrow> to_code a = to_code b \<longleftrightarrow> a = b"
  by metis

lemma to_code_surj: "surj to_code"
  by (metis surjI to_from)

end

interpretation fic: wire_code field_id_from_u16 field_id_to_u16
  by unfold_locales (simp add: field_id_from_u16_def)

interpretation tyc: wire_code transaction_type_from_u16 transaction_type_to_u16
  by unfold_locales (simp add: transaction_type_from_u16_def)

lemmas wire_id_simps [simp] = fic.to_from tyc.to_from fic.from_code_inject tyc.from_code_inject

text \<open>The codes that a named variant of each enumeration carries.\<close>

definition canonical_field :: "FieldId \<Rightarrow> bool" where
  "canonical_field f \<longleftrightarrow> field_id_from_u16 (field_id_to_u16 f) = f"

lemma canonical_field_from [simp]: "canonical_field (field_id_from_u16 v)"
  by (simp add: canonical_field_def)

lemma canonical_field_named: "(\<forall>v. f \<noteq> F_Other v) \<Longrightarrow> canonical_field f"
  by (cases f) (simp_all add: canonical_field_def field_id_from_u16_def)

lemma field_id_roundtrip [simp]:
  "canonical_field f \<Longrightarrow> field_id_from_u16 (field_id_to_u16 f) = f"
  by (simp add: canonical_field_def)

text \<open>The variants that carry no code of their own.\<close>

definition named_fields :: "FieldId list" where
  "named_fields =
    [F_Name, F_Login, F_Password, F_UserId, F_IconId, F_UserAccess, F_UserFlags, F_Options,
     F_ChatSubject, F_Version, F_BannerId, F_ServerName, F_Data, F_NewsCategory,
     F_NewsArticle, F_NewsArticleId, F_NewsDataFlavor, F_NewsTitle, F_NewsPoster, F_NewsDate,
     F_NewsPrevId, F_NewsNextId, F_NewsArticleData, F_NewsArticleFlags, F_NewsParentId,
     F_NewsFirstChildId, F_NewsPath, F_FileName, F_UserNameWithInfo, F_AutoResponse]"

lemma named_fields_cases: "f \<in> set named_fields \<or> (\<exists>v. f = F_Other v)"
  by (cases f) (simp_all add: named_fields_def)

lemma named_fields_labels: "distinct (map field_id_display named_fields)"
  by code_simp

lemma named_fields_no_paren: "f \<in> set named_fields \<Longrightarrow> CHR ''('' \<notin> set (field_id_display f)"
proof -
  have "list_all (\<lambda>f. CHR ''('' \<notin> set (field_id_display f)) named_fields" by code_simp
  then show "f \<in> set named_fields \<Longrightarrow> CHR ''('' \<notin> set (field_id_display f)"
    by (auto simp: list_all_iff)
qed

lemma field_id_display_inj: "inj field_id_display"
proof (rule injI)
  fix a b
  assume eq: "field_id_display a = field_id_display b"
  have paren: "CHR ''('' \<in> set (field_id_display (F_Other v))" for v by simp
  from named_fields_cases [of a] named_fields_cases [of b] eq paren named_fields_no_paren
  consider "a \<in> set named_fields" "b \<in> set named_fields"
    | v w where "a = F_Other v" "b = F_Other w"
    by metis
  then show "a = b"
  proof cases
    case 1
    with named_fields_labels eq show ?thesis by (metis distinct_map inj_on_eq_iff)
  next
    case 2
    with eq show ?thesis by (simp add: word_unat_eq_iff)
  qed
qed

text \<open>
  Every transaction code and every field code survives the enumeration, and
  the \<^verbatim>\<open>Display\<close> label tells any two field ids apart.
\<close>

lemma wire_codes_lossless:
  "transaction_type_to_u16 (transaction_type_from_u16 t) = t
   \<and> field_id_to_u16 (field_id_from_u16 f) = f
   \<and> inj field_id_display"
  by (simp add: field_id_display_inj)

end
