(* ===== verification/Sessions.thy ===== *)
theory Sessions
  imports Rust_Text Wire_Ids
begin

text \<open>
  Per-connection session state: the privilege bits of
  \<^verbatim>\<open>src/src/privileges.rs\<close>, the preference flags of
  \<^verbatim>\<open>src/src/connection_flags.rs\<close>, the session phases and presence snapshots of
  \<^verbatim>\<open>src/src/presence.rs\<close> and the \<^verbatim>\<open>Session\<close> operations of
  \<^verbatim>\<open>src/src/handler.rs\<close>.  A \<^verbatim>\<open>bitflags\<close> value is its bit pattern; an
  \<^verbatim>\<open>i32\<close> is an integer.
\<close>

unbundle bit_operations_syntax

section \<open>Privileges\<close>

type_synonym Privileges = u64

definition DELETE_FILE :: Privileges where "DELETE_FILE = push_bit 0 1"
definition UPLOAD_FILE :: Privileges where "UPLOAD_FILE = push_bit 1 1"
definition DOWNLOAD_FILE :: Privileges where "DOWNLOAD_FILE = push_bit 2 1"
definition RENAME_FILE :: Privileges where "RENAME_FILE = push_bit 3 1"
definition MOVE_FILE :: Privileges where "MOVE_FILE = push_bit 4 1"
definition CREATE_FOLDER :: Privileges where "CREATE_FOLDER = push_bit 5 1"
definition DELETE_FOLDER :: Privileges where "DELETE_FOLDER = push_bit 6 1"
definition RENAME_FOLDER :: Privileges where "RENAME_FOLDER = push_bit 7 1"
definition MOVE_FOLDER :: Privileges where "MOVE_FOLDER = push_bit 8 1"
definition READ_CHAT :: Privileges where "READ_CHAT = push_bit 9 1"
definition SEND_CHAT :: Privileges where "SEND_CHAT = push_bit 10 1"
definition OPEN_CHAT :: Privileges where "OPEN_CHAT = push_bit 11 1"
definition CLOSE_CHAT :: Privileges where "CLOSE_CHAT = push_bit 12 1"
definition SHOW_IN_LIST :: Privileges where "SHOW_IN_LIST = push_bit 13 1"
definition CREATE_USER :: Privileges where "CREATE_USER = push_bit 14 1"
definition DELETE_USER :: Privileges where "DELETE_USER = push_bit 15 1"
definition OPEN_USER :: Privileges where "OPEN_USER = push_bit 16 1"
definition MODIFY_USER :: Privileges where "MODIFY_USER = push_bit 17 1"
definition CHANGE_OWN_PASSWORD :: Privileges where "CHANGE_OWN_PASSWORD = push_bit 18 1"
definition SEND_PRIVATE_MESSAGE :: Privileges where "SEND_PRIVATE_MESSAGE = push_bit 19 1"
definition NEWS_READ_ARTICLE :: Privileges where "NEWS_READ_ARTICLE = push_bit 20 1"
definition NEWS_POST_ARTICLE :: Privileges where "NEWS_POST_ARTICLE = push_bit 21 1"
definition DISCONNECT_USER :: Privileges where "DISCONNECT_USER = push_bit 22 1"
definition CANNOT_BE_DISCONNECTED :: Privileges where "CANNOT_BE_DISCONNECTED = push_bit 23 1"
definition GET_CLIENT_INFO :: Privileges where "GET_CLIENT_INFO = push_bit 24 1"
definition UPLOAD_ANYWHERE :: Privileges where "UPLOAD_ANYWHERE = push_bit 25 1"
definition ANY_NAME :: Privileges where "ANY_NAME = push_bit 26 1"
definition NO_AGREEMENT :: Privileges where "NO_AGREEMENT = push_bit 27 1"
definition SET_FILE_COMMENT :: Privileges where "SET_FILE_COMMENT = push_bit 28 1"
definition SET_FOLDER_COMMENT :: Privileges where "SET_FOLDER_COMMENT = push_bit 29 1"
definition VIEW_DROP_BOXES :: Privileges where "VIEW_DROP_BOXES = push_bit 30 1"
definition MAKE_ALIAS :: Privileges where "MAKE_ALIAS = push_bit 31 1"
definition BROADCAST :: Privileges where "BROADCAST = push_bit 32 1"
definition NEWS_DELETE_ARTICLE :: Privileges where "NEWS_DELETE_ARTICLE = push_bit 33 1"
definition NEWS_CREATE_CATEGORY :: Privileges where "NEWS_CREATE_CATEGORY = push_bit 34 1"
definition NEWS_DELETE_CATEGORY :: Privileges where "NEWS_DELETE_CATEGORY = push_bit 35 1"
definition NEWS_CREATE_FOLDER :: Privileges where "NEWS_CREATE_FOLDER = push_bit 36 1"
definition NEWS_DELETE_FOLDER :: Privileges where "NEWS_DELETE_FOLDER = push_bit 37 1"

definition privilege_flags :: "Privileges list" where
  "privilege_flags = [
     DELETE_FILE, UPLOAD_FILE, DOWNLOAD_FILE, RENAME_FILE, MOVE_FILE, CREATE_FOLDER,
     DELETE_FOLDER, RENAME_FOLDER, MOVE_FOLDER, READ_CHAT, SEND_CHAT, OPEN_CHAT, CLOSE_CHAT,
     SHOW_IN_LIST, CREATE_USER, DELETE_USER, OPEN_USER, MODIFY_USER, CHANGE_OWN_PASSWORD,
     SEND_PRIVATE_MESSAGE, NEWS_READ_ARTICLE, NEWS_POST_ARTICLE, DISCONNECT_USER,
     CANNOT_BE_DISCONNECTED, GET_CLIENT_INFO, UPLOAD_ANYWHERE, ANY_NAME, NO_AGREEMENT,
     SET_FILE_COMMENT, SET_FOLDER_COMMENT, VIEW_DROP_BOXES, MAKE_ALIAS, BROADCAST,
     NEWS_DELETE_ARTICLE, NEWS_CREATE_CATEGORY, NEWS_DELETE_CATEGORY, NEWS_CREATE_FOLDER,
     NEWS_DELETE_FOLDER]"

definition privileges_all :: Privileges where
  "privileges_all = foldr (OR) privilege_flags 0"

definition from_bits_truncate :: "u64 \<Rightarrow> Privileges" where
  "from_bits_truncate bits = bits AND privileges_all"

definition contains :: "'a :: semiring_bit_operations \<Rightarrow> 'a \<Rightarrow> bool" where
  "contains flags required \<longleftrightarrow> flags AND required = required"

definition intersects :: "'a :: semiring_bit_operations \<Rightarrow> 'a \<Rightarrow> bool" where
  "intersects flags others \<longleftrightarrow> flags AND others \<noteq> 0"

definition default_user :: Privileges where
  "default_user = from_bits_truncate
     (DOWNLOAD_FILE OR READ_CHAT OR SEND_CHAT OR SHOW_IN_LIST OR SEND_PRIVATE_MESSAGE
      OR NEWS_READ_ARTICLE OR NEWS_POST_ARTICLE OR GET_CLIENT_INFO OR CHANGE_OWN_PASSWORD)"

definition admin :: Privileges where
  "admin = privileges_all"

section \<open>Connection flags\<close>

type_synonym ConnectionFlags = byte

definition REFUSE_PRIVATE_MESSAGES :: ConnectionFlags where "REFUSE_PRIVATE_MESSAGES = push_bit 0 1"
definition REFUSE_CHAT_INVITES :: ConnectionFlags where "REFUSE_CHAT_INVITES = push_bit 1 1"
definition AUTOMATIC_RESPONSE :: ConnectionFlags where "AUTOMATIC_RESPONSE = push_bit 2 1"

definition connection_flags_truncate :: "byte \<Rightarrow> ConnectionFlags" where
  "connection_flags_truncate bits =
     bits AND (REFUSE_PRIVATE_MESSAGES OR REFUSE_CHAT_INVITES OR AUTOMATIC_RESPONSE)"

definition refuses_messages :: "ConnectionFlags \<Rightarrow> bool" where
  "refuses_messages flags = contains flags REFUSE_PRIVATE_MESSAGES"

definition refuses_chat :: "ConnectionFlags \<Rightarrow> bool" where
  "refuses_chat flags = contains flags REFUSE_CHAT_INVITES"

definition has_auto_response :: "ConnectionFlags \<Rightarrow> bool" where
  "has_auto_response flags = contains flags AUTOMATIC_RESPONSE"

section \<open>Sessions\<close>

type_synonym i32 = int
type_synonym OutboundConnectionId = u64

datatype SessionPhase = Unauthenticated | PendingAgreement | Online

record PresenceSnapshot =
  ps_connection_id :: OutboundConnectionId
  ps_user_id :: i32
  ps_display_name :: rstring
  ps_icon_id :: u16
  ps_status_flags :: u16

record Session =
  se_user_id :: "i32 option"
  se_privileges :: Privileges
  se_phase :: SessionPhase
  se_display_name :: rstring
  se_icon_id :: u16
  se_connection_flags :: ConnectionFlags
  se_auto_response :: "rstring option"

definition session_default :: Session where
  "session_default = \<lparr> se_user_id = None, se_privileges = 0, se_phase = Unauthenticated,
     se_display_name = [], se_icon_id = 0, se_connection_flags = 0, se_auto_response = None \<rparr>"

datatype PrivilegeError = NotAuthenticated | InsufficientPrivileges Privileges

definition is_authenticated :: "Session \<Rightarrow> bool" where
  "is_authenticated s \<longleftrightarrow> se_user_id s \<noteq> None"

definition is_online :: "Session \<Rightarrow> bool" where
  "is_online s \<longleftrightarrow> se_phase s = Online"

definition has_privilege :: "Session \<Rightarrow> Privileges \<Rightarrow> bool" where
  "has_privilege s priv_required \<longleftrightarrow>
     se_user_id s \<noteq> None \<and> contains (se_privileges s) priv_required"

definition require_privilege :: "Session \<Rightarrow> Privileges \<Rightarrow> (PrivilegeError, unit) result" where
  "require_privilege s priv_required =
     (case (se_user_id s \<noteq> None, contains (se_privileges s) priv_required) of
        (False, _) \<Rightarrow> Inl NotAuthenticated
      | (True, False) \<Rightarrow> Inl (InsufficientPrivileges priv_required)
      | (True, True) \<Rightarrow> Inr ())"

definition require_authenticated :: "Session \<Rightarrow> (PrivilegeError, unit) result" where
  "require_authenticated s =
     (case se_user_id s of Some _ \<Rightarrow> Inr () | None \<Rightarrow> Inl NotAuthenticated)"

definition requires_agreement :: "Session \<Rightarrow> bool" where
  "requires_agreement s \<longleftrightarrow> \<not> contains (se_privileges s) NO_AGREEMENT"

definition apply_login :: "Session \<Rightarrow> i32 \<Rightarrow> rstring \<Rightarrow> Privileges \<Rightarrow> Session" where
  "apply_login s user_id username privileges =
     (let s1 = s\<lparr> se_user_id := Some user_id, se_privileges := privileges,
                 se_display_name := username, se_icon_id := 0, se_auto_response := None,
                 se_connection_flags := 0 \<rparr>
      in s1\<lparr> se_phase := (if requires_agreement s1 then PendingAgreement else Online) \<rparr>)"

definition shows_in_user_list :: "Session \<Rightarrow> bool" where
  "shows_in_user_list s \<longleftrightarrow> is_online s \<and> contains (se_privileges s) SHOW_IN_LIST"

definition is_presence_admin :: "Session \<Rightarrow> bool" where
  "is_presence_admin s = intersects (se_privileges s)
     (CREATE_USER OR DELETE_USER OR OPEN_USER OR MODIFY_USER OR DISCONNECT_USER OR BROADCAST)"

definition presence_flags :: "Session \<Rightarrow> u16" where
  "presence_flags s = (if is_presence_admin s then 2 else 0)"

definition presence_snapshot :: "Session \<Rightarrow> OutboundConnectionId \<Rightarrow> PresenceSnapshot option" where
  "presence_snapshot s connection_id =
     (case se_user_id s of
        None \<Rightarrow> None
      | Some user_id \<Rightarrow>
          if \<not> shows_in_user_list s then None
          else Some \<lparr> ps_connection_id = connection_id, ps_user_id = user_id,
                      ps_display_name = se_display_name s, ps_icon_id = se_icon_id s,
                      ps_status_flags = presence_flags s \<rparr>)"

section \<open>Privilege bits\<close>

lemmas privilege_defs =
  DELETE_FILE_def UPLOAD_FILE_def DOWNLOAD_FILE_def RENAME_FILE_def MOVE_FILE_def
  CREATE_FOLDER_def DELETE_FOLDER_def RENAME_FOLDER_def MOVE_FOLDER_def READ_CHAT_def
  SEND_CHAT_def OPEN_CHAT_def CLOSE_CHAT_def SHOW_IN_LIST_def CREATE_USER_def DELETE_USER_def
  OPEN_USER_def MODIFY_USER_def CHANGE_OWN_PASSWORD_def SEND_PRIVATE_MESSAGE_def
  NEWS_READ_ARTICLE_def NEWS_POST_ARTICLE_def DISCONNECT_USER_def CANNOT_BE_DISCONNECTED_def
  GET_CLIENT_INFO_def UPLOAD_ANYWHERE_def ANY_NAME_def NO_AGREEMENT_def SET_FILE_COMMENT_def
  SET_FOLDER_COMMENT_def VIEW_DROP_BOXES_def MAKE_ALIAS_def BROADCAST_def NEWS_DELETE_ARTICLE_def
  NEWS_CREATE_CATEGORY_def NEWS_DELETE_CATEGORY_def NEWS_CREATE_FOLDER_def NEWS_DELETE_FOLDER_def

lemma contains_iff: "contains w v \<longleftrightarrow> (\<forall>n. bit v n \<longrightarrow> bit (w :: 'a :: len word) n)"
  unfolding contains_def by (auto simp: bit_eq_iff [of "w AND v"] bit_simps dest: bit_imp_le_length)

lemma contains_single:
  "i < LENGTH('a) \<Longrightarrow> contains (w :: 'a :: len word) (2 ^ i) \<longleftrightarrow> bit w i"
  by (auto simp: contains_iff bit_simps)

lemma privilege_flags_eq: "privilege_flags = map (\<lambda>i. push_bit i 1) [0..<38]"
  by (simp add: privilege_flags_def privilege_defs upt_rec)

lemma privileges_all_eq: "privileges_all = mask 38"
  unfolding privileges_all_def privilege_flags_def privilege_defs by (simp add: mask_eq_exp_minus_1)

lemma contains_zero [simp]: "contains w 0"
  by (simp add: contains_def)

lemma contains_or: "contains w (a OR b) \<longleftrightarrow> contains w a \<and> contains (w :: 'a :: len word) b"
  by (auto simp: contains_iff bit_simps)

lemma privileges_all_contains: "f \<in> set privilege_flags \<Longrightarrow> contains privileges_all f"
  by (auto simp: privilege_flags_eq privileges_all_eq contains_single bit_simps)

text \<open>
  The privileges a login grants are exactly the nine of the default set; in
  particular none of the account administration, broadcast or deletion bits is
  among them, while the administrator set holds every named bit.
\<close>

lemma default_user_grants:
  "filter (contains default_user) privilege_flags =
     [DOWNLOAD_FILE, READ_CHAT, SEND_CHAT, SHOW_IN_LIST, CHANGE_OWN_PASSWORD,
      SEND_PRIVATE_MESSAGE, NEWS_READ_ARTICLE, NEWS_POST_ARTICLE, GET_CLIENT_INFO]
   \<and> filter (contains admin) privilege_flags = privilege_flags
   \<and> distinct privilege_flags"
proof -
  have "filter (contains default_user) privilege_flags =
     [DOWNLOAD_FILE, READ_CHAT, SEND_CHAT, SHOW_IN_LIST, CHANGE_OWN_PASSWORD,
      SEND_PRIVATE_MESSAGE, NEWS_READ_ARTICLE, NEWS_POST_ARTICLE, GET_CLIENT_INFO]"
    unfolding default_user_def from_bits_truncate_def privileges_all_eq privilege_flags_def
      privilege_defs contains_def
    by (simp add: mask_eq_exp_minus_1)
  moreover have "filter (contains admin) privilege_flags = privilege_flags"
    using privileges_all_contains by (simp add: admin_def filter_id_conv)
  moreover have "distinct privilege_flags"
    unfolding privilege_flags_def privilege_defs by simp
  ultimately show ?thesis by blast
qed

section \<open>Session invariant\<close>

text \<open>
  A session is unauthenticated exactly while it has no account, has no privileges
  until then, is online exactly when its account needs no agreement, and keeps an
  automatic response only while the flag for it is set.
\<close>

definition session_wf :: "Session \<Rightarrow> bool" where
  "session_wf s \<longleftrightarrow>
     (se_phase s = Unauthenticated \<longleftrightarrow> se_user_id s = None)
     \<and> (se_user_id s = None \<longrightarrow> se_privileges s = 0)
     \<and> (se_phase s = Online \<longleftrightarrow> se_user_id s \<noteq> None \<and> \<not> requires_agreement s)
     \<and> (se_auto_response s \<noteq> None \<longrightarrow> has_auto_response (se_connection_flags s))"

lemma session_default_wf [wf_intros]: "session_wf session_default"
  by (simp add: session_wf_def session_default_def)

lemma apply_login_wf [wf_intros]: "session_wf (apply_login s uid name p)"
  by (simp add: session_wf_def apply_login_def Let_def requires_agreement_def)

lemma require_privilege_iff [simp]: "require_privilege s p = Inr () \<longleftrightarrow> has_privilege s p"
  by (simp add: require_privilege_def has_privilege_def split: bool.split)

lemma require_privilege_cases:
  obtains "require_privilege s p = Inr ()" "has_privilege s p"
  | "require_privilege s p = Inl NotAuthenticated" "\<not> is_authenticated s"
  | "require_privilege s p = Inl (InsufficientPrivileges p)" "is_authenticated s" "\<not> has_privilege s p"
  by (cases "se_user_id s"; cases "contains (se_privileges s) p")
    (auto simp: require_privilege_def has_privilege_def is_authenticated_def)

lemma require_authenticated_iff [simp]: "require_authenticated s = Inr () \<longleftrightarrow> is_authenticated s"
  by (simp add: require_authenticated_def is_authenticated_def split: option.split)

lemma presence_snapshot_some:
  "presence_snapshot s cid = Some p \<Longrightarrow>
     is_authenticated s \<and> is_online s \<and> contains (se_privileges s) SHOW_IN_LIST
     \<and> ps_connection_id p = cid \<and> ps_display_name p = se_display_name s"
  by (auto simp: presence_snapshot_def shows_in_user_list_def is_authenticated_def
      split: option.splits if_splits)

end
