(* ===== verification/Frame.thy ===== *)
theory Frame
  imports Wire_Ids
begin

text \<open>
  The 20-byte frame header of src/src/transaction/frame.rs with its two parsers
  and its serialiser, the error type of src/src/transaction/errors.rs, the size
  limits of src/src/transaction/mod.rs and the reply header of
  src/src/header_util.rs.
\<close>

section \<open>Limits and errors\<close>

definition HEADER_LEN :: nat where [simp]: "HEADER_LEN = 20"
definition MAX_PAYLOAD_SIZE :: nat where [simp]: "MAX_PAYLOAD_SIZE = 1024 * 1024"
definition MAX_FRAME_DATA :: nat where [simp]: "MAX_FRAME_DATA = 32 * 1024"

text \<open>The I/O error kinds the transaction code tells apart.\<close>

datatype io_kind = UnexpectedEof | WriteZero | OtherIo

datatype TransactionError =
    InvalidFlags
  | PayloadTooLarge
  | SizeMismatch
  | HeaderMismatch
  | DuplicateField u16
  | ShortBuffer
  | MissingField FieldId
  | InvalidParamValue FieldId
  | Io io_kind
  | Timeout

type_synonym 'a tx_result = "(TransactionError, 'a) result"

section \<open>Integer reads and writes\<close>

definition read_u32 :: "bytes \<Rightarrow> u32 tx_result" where
  "read_u32 buf =
     (if length buf < 4 then Inl ShortBuffer
      else Inr (from_be_bytes_u32 (buf ! 0) (buf ! 1) (buf ! 2) (buf ! 3)))"

definition read_u16 :: "bytes \<Rightarrow> u16 tx_result" where
  "read_u16 buf =
     (if length buf < 2 then Inl ShortBuffer
      else Inr (from_be_bytes_u16 (buf ! 0) (buf ! 1)))"

definition write_u16 :: "u16 \<Rightarrow> bytes" where
  "write_u16 val = to_be_bytes_u16 val"

definition write_u32 :: "u32 \<Rightarrow> bytes" where
  "write_u32 val = to_be_bytes_u32 val"

section \<open>Header\<close>

record FrameHeader =
  fh_flags :: byte
  fh_is_reply :: byte
  fh_ty :: u16
  fh_id :: u32
  fh_error :: u32
  fh_total_size :: u32
  fh_data_size :: u32

definition from_bytes :: "bytes \<Rightarrow> FrameHeader" where
  "from_bytes buf =
     \<lparr> fh_flags = buf ! 0,
       fh_is_reply = buf ! 1,
       fh_ty = from_be_bytes_u16 (buf ! 2) (buf ! 3),
       fh_id = from_be_bytes_u32 (buf ! 4) (buf ! 5) (buf ! 6) (buf ! 7),
       fh_error = from_be_bytes_u32 (buf ! 8) (buf ! 9) (buf ! 10) (buf ! 11),
       fh_total_size = from_be_bytes_u32 (buf ! 12) (buf ! 13) (buf ! 14) (buf ! 15),
       fh_data_size = from_be_bytes_u32 (buf ! 16) (buf ! 17) (buf ! 18) (buf ! 19) \<rparr>"

definition write_bytes :: "FrameHeader \<Rightarrow> bytes" where
  "write_bytes h =
     [fh_flags h, fh_is_reply h] @ to_be_bytes_u16 (fh_ty h) @ to_be_bytes_u32 (fh_id h)
     @ to_be_bytes_u32 (fh_error h) @ to_be_bytes_u32 (fh_total_size h)
     @ to_be_bytes_u32 (fh_data_size h)"

definition header_new :: "bytes \<Rightarrow> FrameHeader tx_result" where
  "header_new buf =
     (if length buf < HEADER_LEN then Inl ShortBuffer
      else
        rbind (read_u16 (slice 2 4 buf)) (\<lambda>ty.
        rbind (read_u32 (slice 4 8 buf)) (\<lambda>id'.
        rbind (read_u32 (slice 8 12 buf)) (\<lambda>error'.
        rbind (read_u32 (slice 12 16 buf)) (\<lambda>total_size.
        rbind (read_u32 (slice 16 20 buf)) (\<lambda>data_size.
          Inr \<lparr> fh_flags = buf ! 0, fh_is_reply = buf ! 1, fh_ty = ty, fh_id = id',
                fh_error = error', fh_total_size = total_size, fh_data_size = data_size \<rparr>))))))"

text \<open>\<open>None\<close> is the panic of \<^verbatim>\<open>payload_len_overflow\<close>.\<close>

definition reply_header :: "FrameHeader \<Rightarrow> u32 \<Rightarrow> nat \<Rightarrow> FrameHeader option" where
  "reply_header req payload_error payload_len =
     (case u32_try_from payload_len of
        None \<Rightarrow> None
      | Some payload_len_u32 \<Rightarrow>
          Some \<lparr> fh_flags = 0, fh_is_reply = 1, fh_ty = fh_ty req, fh_id = fh_id req,
                 fh_error = payload_error, fh_total_size = payload_len_u32,
                 fh_data_size = payload_len_u32 \<rparr>)"

section \<open>The header codec\<close>

lemma take_20_nth:
  "20 \<le> length bs \<Longrightarrow> take 20 bs =
     [bs!0, bs!1, bs!2, bs!3, bs!4, bs!5, bs!6, bs!7, bs!8, bs!9,
      bs!10, bs!11, bs!12, bs!13, bs!14, bs!15, bs!16, bs!17, bs!18, bs!19]"
  by (rule nth_equalityI) (auto simp: less_Suc_eq numeral_eq_Suc)

interpretation hdr: fixed_width HEADER_LEN write_bytes from_bytes
proof
  fix h rest and bs :: bytes
  show "length (write_bytes h) = HEADER_LEN"
    by (simp add: write_bytes_def)
  show "from_bytes (write_bytes h @ rest) = h"
    by (simp add: from_bytes_def write_bytes_def to_be_bytes_u16_def to_be_bytes_u32_def)
  assume "HEADER_LEN \<le> length bs"
  then show "write_bytes (from_bytes bs) = take HEADER_LEN bs"
    by (simp add: from_bytes_def write_bytes_def take_20_nth)
qed

lemma length_write_bytes [simp]: "length (write_bytes h) = 20"
  using hdr.enc_length by simp

lemma from_write_bytes [simp]:
  "from_bytes (write_bytes h @ rest) = h" "from_bytes (write_bytes h) = h"
  by (rule hdr.dec_enc, rule hdr.dec_enc_exact)

lemma write_from_bytes [simp]: "20 \<le> length bs \<Longrightarrow> write_bytes (from_bytes bs) = take 20 bs"
  using hdr.enc_dec [of bs] by simp

lemma header_new_eq:
  "header_new buf = (if length buf < 20 then Inl ShortBuffer else Inr (from_bytes buf))"
  by (auto simp: header_new_def from_bytes_def read_u16_def read_u32_def)

text \<open>
  The header serialiser and both parsers agree: twenty bytes out, every header
  comes back from whatever follows it, and the slice parser is the array parser on
  any buffer that is long enough.
\<close>

lemma header_roundtrip:
  "length (write_bytes h) = HEADER_LEN
   \<and> from_bytes (write_bytes h @ rest) = h
   \<and> header_new (write_bytes h @ rest) = Inr h
   \<and> (length buf < HEADER_LEN \<longleftrightarrow> header_new buf = Inl ShortBuffer)"
  by (simp add: header_new_eq)

end
