(* ===== verification/Params.thy ===== *)
theory Params
  imports Frame Rust_Text
begin

text \<open>
  The parameter block of src/src/transaction/params.rs: the bounds-checked
  iterator with its duplicate rule, the validator, decoder and encoder built on
  it, and the typed getters.  \<open>decode_entries\<close> is a reference decoder by recursion
  on the declared count; the iterator is shown to compute it, and the round trips
  are proved on it.
\<close>

section \<open>Duplicate policy\<close>

record DuplicateContext =
  allows_repeated_user_name_with_info :: bool

fun duplicate_allowed :: "FieldId \<Rightarrow> DuplicateContext \<Rightarrow> bool" where
  "duplicate_allowed F_UserNameWithInfo ctx = allows_repeated_user_name_with_info ctx"
| "duplicate_allowed F_NewsCategory ctx = True"
| "duplicate_allowed F_NewsArticle ctx = True"
| "duplicate_allowed F_FileName ctx = True"
| "duplicate_allowed _ ctx = False"

definition DECODE_ONLY :: DuplicateContext where
  "DECODE_ONLY = \<lparr> allows_repeated_user_name_with_info = True \<rparr>"

definition context_from_header :: "FrameHeader \<Rightarrow> DuplicateContext" where
  "context_from_header h =
     \<lparr> allows_repeated_user_name_with_info = (fh_is_reply h \<noteq> 0 \<and> fh_ty h = USER_NAME_LIST_ID) \<rparr>"

definition check_duplicate ::
  "FieldId \<Rightarrow> u16 set \<Rightarrow> DuplicateContext \<Rightarrow> unit tx_result \<times> u16 set" where
  "check_duplicate fid seen ctx =
     (let raw = field_id_to_u16 fid in
      if duplicate_allowed fid ctx then (Inr (), seen)
      else if raw \<in> seen then (Inl (DuplicateField raw), seen)
      else (Inr (), insert raw seen))"

section \<open>The iterator\<close>

record ParamIter =
  pi_buf :: bytes
  pi_offset :: nat
  pi_remaining :: nat
  pi_seen :: "u16 set"
  pi_error :: "TransactionError option"
  pi_context :: DuplicateContext

definition iter_params :: "bytes \<Rightarrow> DuplicateContext \<Rightarrow> ParamIter tx_result" where
  "iter_params buf ctx =
     (if buf = [] then
        Inr \<lparr> pi_buf = buf, pi_offset = 0, pi_remaining = 0, pi_seen = {}, pi_error = None,
              pi_context = ctx \<rparr>
      else if length buf < 2 then Inl SizeMismatch
      else rbind (read_u16 (slice 0 2 buf)) (\<lambda>param_count.
        Inr \<lparr> pi_buf = buf, pi_offset = 2, pi_remaining = unat param_count, pi_seen = {},
              pi_error = None, pi_context = ctx \<rparr>))"

definition param_next :: "ParamIter \<Rightarrow> (FieldId \<times> nat \<times> nat) option \<times> ParamIter" where
  "param_next it =
    (if pi_remaining it = 0 \<or> pi_error it \<noteq> None then (None, it)
     else if pi_offset it + 4 > length (pi_buf it) then
       (None, it\<lparr> pi_error := Some SizeMismatch \<rparr>)
     else (case read_u16 (slice (pi_offset it) (pi_offset it + 2) (pi_buf it)) of
       Inl e \<Rightarrow> (None, it\<lparr> pi_error := Some e \<rparr>)
     | Inr field_id \<Rightarrow> (case read_u16 (slice (pi_offset it + 2) (pi_offset it + 4) (pi_buf it)) of
         Inl e \<Rightarrow> (None, it\<lparr> pi_error := Some e \<rparr>)
       | Inr len \<Rightarrow>
           (let field_len = unat len; start = pi_offset it + 4; it1 = it\<lparr> pi_offset := start \<rparr> in
            if start + field_len > length (pi_buf it) then
              (None, it1\<lparr> pi_error := Some SizeMismatch \<rparr>)
            else
              (let fid = field_id_from_u16 field_id in
               case check_duplicate fid (pi_seen it1) (pi_context it1) of
                 (Inl e, seen) \<Rightarrow> (None, it1\<lparr> pi_seen := seen, pi_error := Some e \<rparr>)
               | (Inr _, seen) \<Rightarrow>
                   (Some (fid, start, field_len),
                    it1\<lparr> pi_seen := seen, pi_offset := start + field_len,
                         pi_remaining := pi_remaining it - 1 \<rparr>))))))"

definition param_finish :: "ParamIter \<Rightarrow> nat \<Rightarrow> unit tx_result" where
  "param_finish it buf_len =
     (case pi_error it of
        Some e \<Rightarrow> Inl e
      | None \<Rightarrow> if pi_offset it \<noteq> buf_len then Inl SizeMismatch else Inr ())"

lemma param_next_remaining:
  "param_next it = (Some x, it') \<Longrightarrow> pi_remaining it' < pi_remaining it"
  by (auto simp: param_next_def Let_def split: if_splits sum.splits prod.splits)

text \<open>The \<^verbatim>\<open>for\<close> loop over the iterator: the items it yields and the iterator it leaves.\<close>

function param_drain :: "ParamIter \<Rightarrow> (FieldId \<times> nat \<times> nat) list \<times> ParamIter" where
  "param_drain it =
     (case param_next it of
        (None, it') \<Rightarrow> ([], it')
      | (Some x, it') \<Rightarrow> (let (xs, it'') = param_drain it' in (x # xs, it'')))"
  by pat_completeness auto
termination
  by (relation "measure pi_remaining") (auto dest: param_next_remaining [OF sym])

declare param_drain.simps [simp del]

section \<open>Validator, decoder and encoder\<close>

definition validate_payload_parts :: "FrameHeader \<Rightarrow> bytes \<Rightarrow> unit tx_result" where
  "validate_payload_parts header payload =
     (if unat (fh_total_size header) \<noteq> length payload then Inl SizeMismatch
      else if payload = [] then Inr ()
      else if fh_is_reply header = 0
              \<and> bypass_payload_decode (transaction_type_from_u16 (fh_ty header)) then Inr ()
      else rbind (iter_params payload (context_from_header header)) (\<lambda>it.
             param_finish (snd (param_drain it)) (length payload)))"

definition decode_params :: "bytes \<Rightarrow> (FieldId \<times> bytes) list tx_result" where
  "decode_params buf =
     (if buf = [] then Inr []
      else rbind (iter_params buf DECODE_ONLY) (\<lambda>it.
        let (items, it') = param_drain it in
        rbind (param_finish it' (length buf)) (\<lambda>_.
          Inr (map (\<lambda>(fid, start, len). (fid, slice start (start + len) buf)) items))))"

type_synonym param_map = "FieldId \<Rightarrow> bytes list option"

definition push_param :: "param_map \<Rightarrow> FieldId \<times> bytes \<Rightarrow> param_map" where
  "push_param m p =
     m(fst p := Some ((case m (fst p) of None \<Rightarrow> [] | Some vs \<Rightarrow> vs) @ [snd p]))"

definition params_to_map :: "(FieldId \<times> bytes) list \<Rightarrow> param_map" where
  "params_to_map ps = foldl push_param Map.empty ps"

definition decode_params_map :: "bytes \<Rightarrow> param_map tx_result" where
  "decode_params_map buf = rbind (decode_params buf) (\<lambda>params. Inr (params_to_map params))"

fun encode_params_loop :: "bytes \<Rightarrow> (FieldId \<times> bytes) list \<Rightarrow> bytes tx_result" where
  "encode_params_loop buf [] = Inr buf"
| "encode_params_loop buf ((fid, data) # params) =
     rbind (ok_or PayloadTooLarge (u16_try_from (length data))) (\<lambda>len.
       encode_params_loop
         (buf @ to_be_bytes_u16 (field_id_to_u16 fid) @ to_be_bytes_u16 len @ data) params)"

definition encode_params :: "(FieldId \<times> bytes) list \<Rightarrow> bytes tx_result" where
  "encode_params params =
     rbind (ok_or PayloadTooLarge (u16_try_from (length params))) (\<lambda>n.
       encode_params_loop (to_be_bytes_u16 n) params)"

section \<open>Typed getters\<close>

definition first_value :: "param_map \<Rightarrow> FieldId \<Rightarrow> bytes option" where
  "first_value m field = Option.bind (m field) (\<lambda>v. case v of [] \<Rightarrow> None | x # _ \<Rightarrow> Some x)"

definition first_param_string :: "param_map \<Rightarrow> FieldId \<Rightarrow> rstring option tx_result" where
  "first_param_string m field =
     (case first_value m field of
        Some bs \<Rightarrow> (case from_utf8 bs of
            None \<Rightarrow> Inl (InvalidParamValue field) | Some s \<Rightarrow> Inr (Some s))
      | None \<Rightarrow> Inr None)"

definition required_param_string :: "param_map \<Rightarrow> FieldId \<Rightarrow> rstring tx_result" where
  "required_param_string m field =
     rbind (first_param_string m field) (\<lambda>v. ok_or (MissingField field) v)"

text \<open>A big-endian \<^verbatim>\<open>i32\<close> is the 32-bit word of the bytes, read by \<^const>\<open>sint\<close>.\<close>

definition required_param_i32 :: "param_map \<Rightarrow> FieldId \<Rightarrow> int tx_result" where
  "required_param_i32 m field =
     rbind (ok_or (MissingField field) (first_value m field)) (\<lambda>bs.
       if length bs \<noteq> 4 then Inl (InvalidParamValue field)
       else Inr (sint (from_be_bytes_u32 (bs ! 0) (bs ! 1) (bs ! 2) (bs ! 3))))"

definition first_param_i32 :: "param_map \<Rightarrow> FieldId \<Rightarrow> int option tx_result" where
  "first_param_i32 m field =
     (case first_value m field of
        Some bs \<Rightarrow>
          if length bs \<noteq> 4 then Inl (InvalidParamValue field)
          else Inr (Some (sint (from_be_bytes_u32 (bs ! 0) (bs ! 1) (bs ! 2) (bs ! 3))))
      | None \<Rightarrow> Inr None)"

definition parse_protocol_u16 :: "bytes \<Rightarrow> FieldId \<Rightarrow> u16 tx_result" where
  "parse_protocol_u16 bs field =
     (if length bs \<noteq> 2 then Inl (InvalidParamValue field)
      else Inr (from_be_bytes_u16 (bs ! 0) (bs ! 1)))"

definition parse_protocol_u32_exact :: "bytes \<Rightarrow> FieldId \<Rightarrow> u32 tx_result" where
  "parse_protocol_u32_exact bs field =
     (if length bs \<noteq> 4 then Inl (InvalidParamValue field)
      else Inr (from_be_bytes_u32 (bs ! 0) (bs ! 1) (bs ! 2) (bs ! 3)))"

definition parse_protocol_u32 :: "bytes \<Rightarrow> FieldId \<Rightarrow> u32 tx_result" where
  "parse_protocol_u32 bs field =
     (if length bs = 2 then rbind (parse_protocol_u16 bs field) (\<lambda>v. Inr (ucast v))
      else if length bs = 4 then parse_protocol_u32_exact bs field
      else Inl (InvalidParamValue field))"

definition first_param_u32 :: "param_map \<Rightarrow> FieldId \<Rightarrow> u32 option tx_result" where
  "first_param_u32 m field =
     (case first_value m field of
        Some bs \<Rightarrow> rbind (parse_protocol_u32 bs field) (\<lambda>v. Inr (Some v))
      | None \<Rightarrow> Inr None)"

definition required_param_u32 :: "param_map \<Rightarrow> FieldId \<Rightarrow> u32 tx_result" where
  "required_param_u32 m field =
     rbind (first_param_u32 m field) (\<lambda>v. ok_or (MissingField field) v)"

section \<open>The iterator computes the reference decoder\<close>

fun decode_entries ::
  "DuplicateContext \<Rightarrow> u16 set \<Rightarrow> nat \<Rightarrow> bytes \<Rightarrow> (FieldId \<times> bytes) list tx_result" where
  "decode_entries ctx seen 0 bs = (if bs = [] then Inr [] else Inl SizeMismatch)"
| "decode_entries ctx seen (Suc n) bs =
    (if length bs < 4 then Inl SizeMismatch
     else
       (let fid = field_id_from_u16 (dec_u16 bs); len = unat (dec_u16 (drop 2 bs)) in
        if length bs < 4 + len then Inl SizeMismatch
        else (case check_duplicate fid seen ctx of
            (Inl e, _) \<Rightarrow> Inl e
          | (Inr _, seen') \<Rightarrow>
              rbind (decode_entries ctx seen' n (drop (4 + len) bs)) (\<lambda>ps.
                Inr ((fid, take len (drop 4 bs)) # ps)))))"

definition param_collect :: "ParamIter \<Rightarrow> (FieldId \<times> bytes) list tx_result" where
  "param_collect it =
     (let (items, it') = param_drain it in
      rbind (param_finish it' (length (pi_buf it))) (\<lambda>_.
        Inr (map (\<lambda>(fid, start, len). (fid, slice start (start + len) (pi_buf it))) items)))"

lemma param_next_buf: "param_next it = (x, it') \<Longrightarrow> pi_buf it' = pi_buf it"
  by (auto simp: param_next_def Let_def split: if_splits sum.splits prod.splits)

lemma read_u16_slice:
  "j = i + 2 \<Longrightarrow> j \<le> length buf \<Longrightarrow> read_u16 (slice i j buf) = Inr (dec_u16 (drop i buf))"
  by (simp add: read_u16_def dec_u16_def)

lemma param_collect_step:
  "param_collect it =
     (case param_next it of
        (None, it') \<Rightarrow> rbind (param_finish it' (length (pi_buf it))) (\<lambda>_. Inr [])
      | (Some (f, s, l), it') \<Rightarrow>
          rbind (param_collect it') (\<lambda>ps. Inr ((f, slice s (s + l) (pi_buf it)) # ps)))"
proof (cases "param_next it")
  case (Pair x it')
  then have "pi_buf it' = pi_buf it" by (rule param_next_buf)
  with Pair show ?thesis
    by (cases x) (simp_all add: param_collect_def param_drain.simps [of it] rbind_assoc
        split: prod.splits)
qed

lemma decode_entries_step:
  assumes "fid = field_id_from_u16 (dec_u16 bs)" "len = unat (dec_u16 (drop 2 bs))"
    and "4 + len \<le> length bs"
  shows "decode_entries ctx seen (Suc n) bs =
    (case check_duplicate fid seen ctx of
       (Inl e, _) \<Rightarrow> Inl e
     | (Inr _, seen') \<Rightarrow>
         rbind (decode_entries ctx seen' n (drop (4 + len) bs)) (\<lambda>ps.
           Inr ((fid, take len (drop 4 bs)) # ps)))"
  unfolding assms(1,2) using assms(3) [unfolded assms(2)] by (simp add: Let_def)

lemma param_collect_eq:
  assumes "pi_error it = None" "pi_offset it \<le> length (pi_buf it)"
  shows "param_collect it =
    decode_entries (pi_context it) (pi_seen it) (pi_remaining it) (drop (pi_offset it) (pi_buf it))"
  using assms
proof (induction "pi_remaining it" arbitrary: it)
  case 0
  then show ?case
    by (simp add: param_collect_step param_next_def param_finish_def)
next
  case (Suc n)
  let ?o = "pi_offset it" and ?b = "pi_buf it"
  show ?case
  proof (cases "?o + 4 \<le> length ?b")
    case False
    with Suc.hyps(2)[symmetric] Suc.prems show ?thesis
      by (simp add: param_collect_step param_next_def param_finish_def)
  next
    case True
    define fid where "fid = field_id_from_u16 (dec_u16 (drop ?o ?b))"
    define len where "len = unat (dec_u16 (drop (?o + 2) ?b))"
    have r1: "read_u16 (slice ?o (?o + 2) ?b) = Inr (dec_u16 (drop ?o ?b))"
      using True by (intro read_u16_slice) simp_all
    have r2: "read_u16 (slice (?o + 2) (?o + 4) ?b) = Inr (dec_u16 (drop (?o + 2) ?b))"
      using True by (intro read_u16_slice) simp_all
    show ?thesis
    proof (cases "?o + 4 + len \<le> length ?b")
      case False
      with True Suc.hyps(2)[symmetric] Suc.prems r1 r2 show ?thesis
        by (simp add: param_collect_step param_next_def param_finish_def Let_def len_def add.commute)
    next
      case ok: True
      obtain r seen where chk: "check_duplicate fid (pi_seen it) (pi_context it) = (r, seen)"
        by fastforce
      let ?it' = "it\<lparr>pi_offset := ?o + 4 + len, pi_remaining := n, pi_seen := seen\<rparr>"
      have nxt: "param_next it = (case r of
            Inl e \<Rightarrow> (None, it\<lparr>pi_offset := ?o + 4, pi_seen := seen, pi_error := Some e\<rparr>)
          | Inr _ \<Rightarrow> (Some (fid, ?o + 4, len), ?it'))"
        using True ok Suc.hyps(2)[symmetric] Suc.prems r1 r2 chk
        by (cases r) (simp_all add: param_next_def Let_def fid_def len_def)
      have IH: "param_collect ?it' = decode_entries (pi_context it) seen n
          (drop (4 + len) (drop ?o ?b))"
        using Suc.hyps(1) [of ?it'] ok Suc.prems by (simp add: ac_simps)
      have ent: "decode_entries (pi_context it) (pi_seen it) (Suc n) (drop ?o ?b) =
          (case r of Inl e \<Rightarrow> Inl e
           | Inr _ \<Rightarrow> rbind (decode_entries (pi_context it) seen n (drop (4 + len) (drop ?o ?b)))
               (\<lambda>ps. Inr ((fid, take len (drop 4 (drop ?o ?b))) # ps)))"
        using ok chk by (subst decode_entries_step [of fid _ len])
          (simp_all add: fid_def len_def add.commute split: sum.splits)
      show ?thesis
        unfolding Suc.hyps(2) [symmetric] ent using IH
        by (cases r) (simp_all add: param_collect_step [of it] nxt param_finish_def slice_def
            add.commute)
    qed
  qed
qed

section \<open>Wire form of a parameter list\<close>

definition field_entry :: "FieldId \<times> bytes \<Rightarrow> bytes" where
  "field_entry p = to_be_bytes_u16 (field_id_to_u16 (fst p))
     @ to_be_bytes_u16 (of_nat (length (snd p))) @ snd p"

definition wire_params :: "(FieldId \<times> bytes) list \<Rightarrow> bytes" where
  "wire_params ps = to_be_bytes_u16 (of_nat (length ps)) @ concat (map field_entry ps)"

text \<open>The field ids that the context does not let repeat are pairwise distinct on the wire.\<close>

definition no_repeats :: "DuplicateContext \<Rightarrow> FieldId list \<Rightarrow> bool" where
  "no_repeats ctx fs \<longleftrightarrow>
     distinct (map field_id_to_u16 (filter (\<lambda>f. \<not> duplicate_allowed f ctx) fs))"

definition params_wf :: "DuplicateContext \<Rightarrow> (FieldId \<times> bytes) list \<Rightarrow> bool" where
  "params_wf ctx ps \<longleftrightarrow>
     length ps \<le> u16_max
     \<and> (\<forall>p\<in>set ps. canonical_field (fst p) \<and> length (snd p) \<le> u16_max)
     \<and> no_repeats ctx (map fst ps)"

lemma field_entry_Pair:
  "field_entry (f, d) =
     to_be_bytes_u16 (field_id_to_u16 f) @ to_be_bytes_u16 (of_nat (length d)) @ d"
  by (simp add: field_entry_def)

lemma encode_params_loop_eq:
  "encode_params_loop buf ps =
     (if \<forall>p\<in>set ps. length (snd p) \<le> u16_max then Inr (buf @ concat (map field_entry ps))
      else Inl PayloadTooLarge)"
  by (induction buf ps rule: encode_params_loop.induct)
    (auto simp: field_entry_Pair u16_try_from_def)

lemma encode_params_eq:
  "encode_params ps =
     (if length ps \<le> u16_max \<and> (\<forall>p\<in>set ps. length (snd p) \<le> u16_max)
      then Inr (wire_params ps) else Inl PayloadTooLarge)"
  by (simp add: encode_params_def encode_params_loop_eq wire_params_def u16_try_from_def)

fun fresh_ids :: "DuplicateContext \<Rightarrow> u16 set \<Rightarrow> FieldId list \<Rightarrow> bool" where
  "fresh_ids ctx seen [] \<longleftrightarrow> True"
| "fresh_ids ctx seen (f # fs) \<longleftrightarrow>
     (if duplicate_allowed f ctx then fresh_ids ctx seen fs
      else field_id_to_u16 f \<notin> seen \<and> fresh_ids ctx (insert (field_id_to_u16 f) seen) fs)"

lemma fresh_ids_iff:
  "fresh_ids ctx seen fs \<longleftrightarrow>
     no_repeats ctx fs
     \<and> (\<forall>f\<in>set fs. \<not> duplicate_allowed f ctx \<longrightarrow> field_id_to_u16 f \<notin> seen)"
  by (induction ctx seen fs rule: fresh_ids.induct) (auto simp: no_repeats_def image_iff)

abbreviation entries_wf :: "(FieldId \<times> bytes) list \<Rightarrow> bool" where
  "entries_wf ps \<equiv> \<forall>p\<in>set ps. canonical_field (fst p) \<and> length (snd p) \<le> u16_max"

lemma dec_u16_field_entry:
  "dec_u16 (field_entry p @ rest) = field_id_to_u16 (fst p)"
  "length (snd p) \<le> u16_max \<Longrightarrow> unat (dec_u16 (drop 2 (field_entry p @ rest))) = length (snd p)"
  by (simp_all add: field_entry_def u16c.dec_enc)

lemma field_entry_parts:
  "length (field_entry p) = 4 + length (snd p)"
  "drop 4 (field_entry p @ rest) = snd p @ rest"
  by (simp_all add: field_entry_def)

lemma check_duplicate_cases:
  "check_duplicate f seen ctx =
     (if duplicate_allowed f ctx then (Inr (), seen)
      else if field_id_to_u16 f \<in> seen then (Inl (DuplicateField (field_id_to_u16 f)), seen)
      else (Inr (), insert (field_id_to_u16 f) seen))"
  by (simp add: check_duplicate_def Let_def)

lemma decode_entries_Cons:
  assumes "canonical_field (fst p)" "length (snd p) \<le> u16_max"
  shows "decode_entries ctx seen (Suc n) (field_entry p @ rest) =
    (case check_duplicate (fst p) seen ctx of
       (Inl e, _) \<Rightarrow> Inl e
     | (Inr _, seen') \<Rightarrow> rbind (decode_entries ctx seen' n rest) (\<lambda>qs. Inr (p # qs)))"
proof -
  let ?bs = "field_entry p @ rest"
  have a: "fst p = field_id_from_u16 (dec_u16 ?bs)"
    and b: "length (snd p) = unat (dec_u16 (drop 2 ?bs))"
    using assms by (simp_all add: dec_u16_field_entry del: drop_append)
  have c: "4 + length (snd p) \<le> length ?bs" by (simp add: field_entry_parts)
  have d: "drop (4 + length (snd p)) ?bs = rest"
    by (simp add: field_entry_parts(1))
  have e: "take (length (snd p)) (drop 4 ?bs) = snd p"
    by (simp add: field_entry_parts(2) del: drop_append)
  show ?thesis
    unfolding decode_entries_step [OF a b c] d e prod.collapse by (rule refl)
qed

lemma decode_entries_encode:
  "entries_wf ps \<Longrightarrow> fresh_ids ctx seen (map fst ps)
   \<Longrightarrow> decode_entries ctx seen (length ps) (concat (map field_entry ps)) = Inr ps"
proof (induction ps arbitrary: seen)
  case (Cons p ps)
  then have wf: "canonical_field (fst p)" "length (snd p) \<le> u16_max" by auto
  from Cons show ?case
    by (auto simp: decode_entries_Cons [OF wf] check_duplicate_cases
        simp del: decode_entries.simps(2) split: if_splits)
qed simp

lemma decode_entries_inv:
  "decode_entries ctx seen n bs = Inr ps \<Longrightarrow>
     n = length ps \<and> bs = concat (map field_entry ps) \<and> entries_wf ps
     \<and> fresh_ids ctx seen (map fst ps)"
proof (induction n arbitrary: seen bs ps)
  case 0
  then show ?case by (simp split: if_splits)
next
  case (Suc n)
  define fid where "fid = field_id_from_u16 (dec_u16 bs)"
  define len where "len = unat (dec_u16 (drop 2 bs))"
  from Suc.prems have bound: "4 + len \<le> length bs"
    by (auto simp: Let_def len_def split: if_splits)
  note step = decode_entries_step [OF fid_def len_def bound]
  from Suc.prems obtain seen' qs where
    chk: "check_duplicate fid seen ctx = (Inr (), seen')"
    and rec: "decode_entries ctx seen' n (drop (4 + len) bs) = Inr qs"
    and ps: "ps = (fid, take len (drop 4 bs)) # qs"
    unfolding step by (auto split: prod.splits sum.splits)
  have "to_be_bytes_u16 (dec_u16 bs) = take 2 bs"
    using bound by (intro u16c.enc_dec) simp
  moreover have "to_be_bytes_u16 (of_nat len) = take 2 (drop 2 bs)"
    using bound by (subst u16c.enc_dec [symmetric]) (simp_all add: len_def)
  ultimately have fe: "field_entry (fid, take len (drop 4 bs)) = take (4 + len) bs"
    using bound take_add [of 2 2 bs] by (simp add: field_entry_def fid_def take_add [of 4])
  note IH = Suc.IH [OF rec]
  have "bs = field_entry (fid, take len (drop 4 bs)) @ concat (map field_entry qs)"
    using fe IH by (metis append_take_drop_id)
  moreover have "fresh_ids ctx seen (fid # map fst qs)"
    using chk IH by (auto simp: check_duplicate_cases split: if_splits)
  moreover have "len \<le> u16_max" by (simp add: len_def)
  ultimately show ?case
    using IH bound by (simp add: ps fid_def)
qed

lemma decode_entries_iff:
  "decode_entries ctx seen n bs = Inr ps \<longleftrightarrow>
     n = length ps \<and> bs = concat (map field_entry ps) \<and> entries_wf ps
     \<and> fresh_ids ctx seen (map fst ps)"
  by (rule iffI, erule decode_entries_inv) (elim conjE, simp add: decode_entries_encode)

section \<open>What the decoder and the validator accept\<close>

lemma iter_params_nonempty:
  "2 \<le> length buf \<Longrightarrow> iter_params buf ctx =
     Inr \<lparr> pi_buf = buf, pi_offset = 2, pi_remaining = unat (dec_u16 buf), pi_seen = {},
           pi_error = None, pi_context = ctx \<rparr>"
  by (auto simp: iter_params_def read_u16_slice)

definition collect_params :: "bytes \<Rightarrow> DuplicateContext \<Rightarrow> (FieldId \<times> bytes) list tx_result" where
  "collect_params buf ctx = rbind (iter_params buf ctx) param_collect"

lemma iter_params_buf: "iter_params buf ctx = Inr it \<Longrightarrow> pi_buf it = buf"
  by (auto simp: iter_params_def split: if_splits)

lemma collect_params_eq:
  "buf \<noteq> [] \<Longrightarrow> collect_params buf ctx =
     (if length buf < 2 then Inl SizeMismatch
      else decode_entries ctx {} (unat (dec_u16 buf)) (drop 2 buf))"
  unfolding collect_params_def
  by (auto simp: iter_params_nonempty param_collect_eq not_less) (simp add: iter_params_def)

lemma decode_params_collect:
  "decode_params buf = (if buf = [] then Inr [] else collect_params buf DECODE_ONLY)"
  by (auto simp: decode_params_def collect_params_def param_collect_def
      split: rbind_split prod.splits dest: iter_params_buf)

lemma wire_params_split:
  "length ps \<le> u16_max \<Longrightarrow>
     buf = wire_params ps \<longleftrightarrow>
     2 \<le> length buf \<and> unat (dec_u16 buf) = length ps \<and> drop 2 buf = concat (map field_entry ps)"
proof safe
  assume len: "2 \<le> length buf" and eq: "unat (dec_u16 buf) = length ps"
    and rest: "drop 2 buf = concat (map field_entry ps)"
  have "to_be_bytes_u16 (of_nat (length ps)) = take 2 buf"
    unfolding eq [symmetric] using len by (simp add: u16c.enc_dec)
  with rest show "buf = wire_params ps"
    by (metis append_take_drop_id wire_params_def)
qed (simp_all add: wire_params_def u16c.dec_enc)

lemma collect_params_iff:
  assumes "buf \<noteq> []"
  shows "collect_params buf ctx = Inr ps \<longleftrightarrow> buf = wire_params ps \<and> params_wf ctx ps"
proof -
  have len: "length ps \<le> u16_max" if "unat (dec_u16 buf) = length ps"
    by (metis that unat_u16_le)
  show ?thesis
    unfolding collect_params_eq [OF assms]
    using len wire_params_split [of ps buf]
    by (auto simp: decode_entries_iff params_wf_def fresh_ids_iff not_less)
qed

lemma wire_params_nonempty [simp]: "wire_params ps \<noteq> []" "[] \<noteq> wire_params ps"
  by (simp_all add: wire_params_def to_be_bytes_u16_def)

lemma decode_params_iff:
  "decode_params buf = Inr ps \<longleftrightarrow>
     buf = [] \<and> ps = [] \<or> buf = wire_params ps \<and> params_wf DECODE_ONLY ps"
  by (cases "buf = []") (auto simp: decode_params_collect collect_params_iff)

lemma validate_finish_collect:
  "rbind (iter_params buf ctx) (\<lambda>it. param_finish (snd (param_drain it)) (length buf)) =
     rbind (collect_params buf ctx) (\<lambda>_. Inr ())"
proof (cases "iter_params buf ctx")
  case (Inr it)
  then show ?thesis
    by (cases "param_drain it"; cases "param_finish (snd (param_drain it)) (length buf)")
      (simp_all add: collect_params_def param_collect_def iter_params_buf)
qed (simp add: collect_params_def)

lemma validate_payload_parts_eq:
  "validate_payload_parts h payload =
     (if unat (fh_total_size h) \<noteq> length payload then Inl SizeMismatch
      else if payload = [] \<or> fh_is_reply h = 0
           \<and> bypass_payload_decode (transaction_type_from_u16 (fh_ty h)) then Inr ()
      else rbind (collect_params payload (context_from_header h)) (\<lambda>_. Inr ()))"
  by (auto simp: validate_payload_parts_def validate_finish_collect)

lemma validate_payload_parts_iff:
  "validate_payload_parts h payload = Inr () \<longleftrightarrow>
     unat (fh_total_size h) = length payload
     \<and> (payload = []
        \<or> fh_is_reply h = 0 \<and> bypass_payload_decode (transaction_type_from_u16 (fh_ty h))
        \<or> (\<exists>ps. payload = wire_params ps \<and> params_wf (context_from_header h) ps))"
  by (cases "payload = []") (auto simp: validate_payload_parts_eq collect_params_iff)

lemma no_repeats_decode_only: "no_repeats ctx fs \<Longrightarrow> no_repeats DECODE_ONLY fs"
proof -
  have eq: "filter (\<lambda>f. \<not> duplicate_allowed f DECODE_ONLY) fs =
      filter (\<lambda>f. f \<noteq> F_UserNameWithInfo) (filter (\<lambda>f. \<not> duplicate_allowed f ctx) fs)"
    by (induction fs) (auto simp: DECODE_ONLY_def elim!: duplicate_allowed.elims)
  show "no_repeats ctx fs \<Longrightarrow> no_repeats DECODE_ONLY fs"
    unfolding no_repeats_def eq by (rule distinct_map_filter)
qed

lemma params_wf_decode_only: "params_wf ctx ps \<Longrightarrow> params_wf DECODE_ONLY ps"
  by (auto simp: params_wf_def no_repeats_decode_only)

section \<open>Properties\<close>

lemma encode_params_wire:
  "params_wf ctx ps \<Longrightarrow> encode_params ps = Inr (wire_params ps)"
  by (simp add: params_wf_def encode_params_eq)

lemma decode_entries_repeat:
  "entries_wf ps \<Longrightarrow> \<not> fresh_ids ctx seen (map fst ps)
   \<Longrightarrow> \<exists>f\<in>set (map fst ps). \<not> duplicate_allowed f ctx
        \<and> decode_entries ctx seen (length ps) (concat (map field_entry ps)) =
            Inl (DuplicateField (field_id_to_u16 f))"
proof (induction ps arbitrary: seen)
  case (Cons p ps)
  then have wf: "canonical_field (fst p)" "length (snd p) \<le> u16_max" by auto
  from Cons show ?case
    by (auto simp: decode_entries_Cons [OF wf] check_duplicate_cases
        simp del: decode_entries.simps(2) split: if_splits)
qed simp

text \<open>
  C4: the decoder accepts exactly what the encoder emits.  A buffer decodes to a
  parameter list if and only if it is empty and the list is, or the encoder maps
  the list to that very buffer and the list is well formed (canonical ids, 16-bit
  lengths, no forbidden repetition).
\<close>

theorem decode_params_exact:
  "decode_params buf = Inr ps \<longleftrightarrow>
     (buf = [] \<and> ps = []) \<or> (encode_params ps = Inr buf \<and> params_wf DECODE_ONLY ps)"
  by (auto simp: decode_params_iff encode_params_wire encode_params_eq params_wf_def)

text \<open>
  A payload that passes validation and is not exempt from decoding is decoded
  without an error by every later reader, and re-encoding the result restores it.
\<close>

lemma validated_payload_decodes:
  assumes "validate_payload_parts h payload = Inr ()"
    and "\<not> (fh_is_reply h = 0 \<and> bypass_payload_decode (transaction_type_from_u16 (fh_ty h)))"
    and "payload \<noteq> []"
  shows "\<exists>ps. decode_params payload = Inr ps \<and> encode_params ps = Inr payload"
  using assms
  by (auto simp: validate_payload_parts_iff decode_params_iff params_wf_decode_only
      encode_params_wire)

lemma validated_payload_decodes_sample:
  "\<exists>ps. decode_params [0, 1, 0, 105, 0, 1, 97] = Inr ps
     \<and> encode_params ps = Inr [0, 1, 0, 105, 0, 1, 97]"
proof -
  let ?h = "\<lparr> fh_flags = 0, fh_is_reply = 0, fh_ty = 107, fh_id = 1, fh_error = 0,
    fh_total_size = 7, fh_data_size = 7 \<rparr>"
  have "validate_payload_parts ?h [0, 1, 0, 105, 0, 1, 97] = Inr ()"
    by code_simp
  then show ?thesis
    by (rule validated_payload_decodes) (simp_all add: bypass_payload_decode_def
        transaction_type_from_u16_def)
qed

text \<open>
  Repeating a field that may not repeat is reported as such, with the wire code
  of a field that does occur in the block; nothing of the block is returned.
\<close>

lemma repeated_field_reported:
  assumes "encode_params ps = Inr buf"
    and "\<forall>p\<in>set ps. canonical_field (fst p)"
    and "\<not> no_repeats DECODE_ONLY (map fst ps)"
  shows "\<exists>f\<in>set (map fst ps). \<not> duplicate_allowed f DECODE_ONLY
           \<and> decode_params buf = Inl (DuplicateField (field_id_to_u16 f))"
proof -
  from assms(1) have len: "length ps \<le> u16_max" and wf: "\<forall>p\<in>set ps. length (snd p) \<le> u16_max"
    and buf: "buf = wire_params ps"
    by (auto simp: encode_params_eq split: if_splits)
  have "decode_params buf =
      decode_entries DECODE_ONLY {} (length ps) (concat (map field_entry ps))"
    using wire_params_split [OF len, of buf]
    by (simp add: buf decode_params_collect collect_params_eq)
  with decode_entries_repeat [of ps DECODE_ONLY "{}"] wf assms(2,3) show ?thesis
    by (auto simp: fresh_ids_iff)
qed

lemma repeated_field_reported_sample:
  "\<exists>f\<in>set [F_Login, F_Data, F_Login]. \<not> duplicate_allowed f DECODE_ONLY
     \<and> decode_params [0, 3, 0, 105, 0, 1, 97, 0, 101, 0, 0, 0, 105, 0, 0] =
         Inl (DuplicateField (field_id_to_u16 f))"
  using repeated_field_reported [of "[(F_Login, [97]), (F_Data, []), (F_Login, [])]"
      "[0, 3, 0, 105, 0, 1, 97, 0, 101, 0, 0, 0, 105, 0, 0]"]
  by (simp add: encode_params_def u16_try_from_def to_be_bytes_u16_def no_repeats_def
      canonical_field_def field_id_from_u16_def)

lemma params_to_map_snoc: "params_to_map (ps @ [p]) = push_param (params_to_map ps) p"
  by (simp add: params_to_map_def)

lemma params_to_map_eq:
  "params_to_map ps f =
     (case map snd (filter (\<lambda>p. fst p = f) ps) of [] \<Rightarrow> None | v # vs \<Rightarrow> Some (v # vs))"
  by (induction ps rule: rev_induct)
    (auto simp: params_to_map_snoc push_param_def params_to_map_def [of "[]"] split: list.splits)

lemma first_value_map_of: "first_value (params_to_map ps) f = map_of ps f"
  by (induction ps) (auto simp: first_value_def params_to_map_eq split: list.splits)

lemma ucast_u16_u32: "v \<le> 0xFFFF \<Longrightarrow> ucast (ucast v :: u16) = (v :: u32)"
  by (simp add: word_unat_eq_iff unsigned_ucast_eq unsigned_take_bit_eq take_bit_nat_eq_self
      word_le_nat_alt)

text \<open>
  A numeric parameter is read back at either width the protocol uses: whatever
  two-byte or four-byte value was first stored under a field is what
  \<^verbatim>\<open>required_param_u32\<close> returns after encoding and decoding.
\<close>

lemma numeric_param_roundtrip:
  assumes "encode_params ps = Inr buf" and "params_wf DECODE_ONLY ps"
    and "map_of ps f = Some (if wide then to_be_bytes_u32 v else to_be_bytes_u16 (ucast v))"
    and "wide \<or> v \<le> 0xFFFF"
  shows "rbind (decode_params_map buf) (\<lambda>m. required_param_u32 m f) = Inr v"
proof -
  have "decode_params buf = Inr ps"
    using assms by (auto simp: decode_params_iff encode_params_eq split: if_splits)
  moreover have "parse_protocol_u32
      (if wide then to_be_bytes_u32 v else to_be_bytes_u16 (ucast v)) f = Inr v"
    using assms(4) by (auto simp: parse_protocol_u32_def parse_protocol_u32_exact_def
        parse_protocol_u16_def to_be_bytes_u32_def to_be_bytes_u16_def ucast_u16_u32)
  ultimately show ?thesis
    using assms(3) by (simp add: decode_params_map_def required_param_u32_def first_param_u32_def
        first_value_map_of)
qed

lemma numeric_param_roundtrip_sample:
  "rbind (decode_params_map [0, 1, 0, 103, 0, 2, 1, 2]) (\<lambda>m. required_param_u32 m F_UserId) = Inr 258"
  using numeric_param_roundtrip [of "[(F_UserId, [1, 2])]" "[0, 1, 0, 103, 0, 2, 1, 2]" F_UserId False 258]
  by (simp add: encode_params_def u16_try_from_def to_be_bytes_u16_def params_wf_def no_repeats_def
      canonical_field_def field_id_from_u16_def)

end
