(* ===== verification/Transactions.thy ===== *)
theory Transactions
  imports Params
begin

text \<open>
  The complete transaction of src/src/transaction/frame.rs: header and payload,
  the single-frame parser and serialiser, and the payload validation entry point
  of src/src/transaction/params.rs.
\<close>

record Transaction =
  tx_header :: FrameHeader
  tx_payload :: bytes

definition validate_payload :: "Transaction \<Rightarrow> unit tx_result" where
  "validate_payload tx = validate_payload_parts (tx_header tx) (tx_payload tx)"

definition parse_transaction :: "bytes \<Rightarrow> Transaction tx_result" where
  "parse_transaction buf =
     (if length buf < HEADER_LEN then Inl SizeMismatch
      else
        (let header = from_bytes (slice 0 HEADER_LEN buf) in
         if unat (fh_total_size header) > MAX_PAYLOAD_SIZE then Inl PayloadTooLarge
         else if length buf \<noteq> HEADER_LEN + unat (fh_total_size header) then Inl SizeMismatch
         else
           (let tx = \<lparr> tx_header = header, tx_payload = drop HEADER_LEN buf \<rparr> in
            rbind (validate_payload tx) (\<lambda>_. Inr tx))))"

definition to_bytes :: "Transaction \<Rightarrow> bytes" where
  "to_bytes tx = write_bytes (tx_header tx) @ tx_payload tx"

text \<open>The transactions the parser can return.\<close>

definition transaction_wf :: "Transaction \<Rightarrow> bool" where
  "transaction_wf tx \<longleftrightarrow>
     validate_payload tx = Inr () \<and> unat (fh_total_size (tx_header tx)) \<le> MAX_PAYLOAD_SIZE"

lemma validate_payload_length:
  "validate_payload tx = Inr () \<Longrightarrow> unat (fh_total_size (tx_header tx)) = length (tx_payload tx)"
  by (simp add: validate_payload_def validate_payload_parts_iff)

lemma slice_header: "20 \<le> length buf \<Longrightarrow> from_bytes (slice 0 20 buf) = from_bytes buf"
  using hdr.dec_take [of buf] by (simp add: slice_def)

lemma parse_transaction_iff:
  "parse_transaction buf = Inr tx \<longleftrightarrow> buf = to_bytes tx \<and> transaction_wf tx"
proof
  assume p: "parse_transaction buf = Inr tx"
  then have len: "20 \<le> length buf"
    by (auto simp: parse_transaction_def split: if_splits)
  with p show "buf = to_bytes tx \<and> transaction_wf tx"
    by (auto simp: parse_transaction_def Let_def slice_header to_bytes_def transaction_wf_def
        split: if_splits)
next
  assume "buf = to_bytes tx \<and> transaction_wf tx"
  then show "parse_transaction buf = Inr tx"
    using validate_payload_length [of tx]
    by (cases tx) (auto simp: parse_transaction_def Let_def slice_header to_bytes_def
        transaction_wf_def)
qed

text \<open>
  C3: parsing and serialising are inverse.  The parser succeeds on a buffer with a
  transaction if and only if the buffer is that transaction's serialisation and
  the transaction is well formed: its payload validates against its header and is
  at most one mebibyte.
\<close>

theorem parse_transaction_exact:
  "parse_transaction buf = Inr tx \<longleftrightarrow>
     to_bytes tx = buf \<and> validate_payload tx = Inr ()
     \<and> length (tx_payload tx) \<le> MAX_PAYLOAD_SIZE"
  using validate_payload_length [of tx]
  by (auto simp: parse_transaction_iff transaction_wf_def)

end
