(* ===== verification/Presence.thy ===== *)
theory Presence
  imports Sessions Transactions "HOL-Library.AList" "HOL-Library.Product_Lexorder"
begin

text \<open>
  The presence registry and the transactions built from it,
  \<^verbatim>\<open>src/src/presence.rs\<close>.  The hash map from connections to snapshots is an
  association list with one entry per connection; every list the registry hands
  out is sorted, so nothing depends on the order of the association list.
\<close>

section \<open>Payloads\<close>

definition invalid_field_300 :: TransactionError where
  "invalid_field_300 = InvalidParamValue F_UserNameWithInfo"

definition field_300_user_id :: "i32 \<Rightarrow> u16 tx_result" where
  "field_300_user_id value =
     (if 0 \<le> value \<and> value \<le> int u16_max then Inr (of_int value) else Inl invalid_field_300)"

definition field_300_name_len :: "nat \<Rightarrow> u16 tx_result" where
  "field_300_name_len value = ok_or invalid_field_300 (u16_try_from value)"

definition encode_user_name_with_info :: "PresenceSnapshot \<Rightarrow> bytes tx_result" where
  "encode_user_name_with_info p =
     rbind (field_300_user_id (ps_user_id p)) (\<lambda>uid.
     rbind (field_300_name_len (length (ps_display_name p))) (\<lambda>len.
       Inr (to_be_bytes_u16 uid @ to_be_bytes_u16 (ps_icon_id p)
         @ to_be_bytes_u16 (ps_status_flags p) @ to_be_bytes_u16 len @ ps_display_name p)))"

definition i32_to_be_bytes :: "i32 \<Rightarrow> bytes" where
  "i32_to_be_bytes v = to_be_bytes_u32 (of_int v)"

definition notify_change_fields :: "PresenceSnapshot \<Rightarrow> (FieldId \<times> bytes) list" where
  "notify_change_fields p =
     [(F_UserId, i32_to_be_bytes (ps_user_id p)),
      (F_IconId, to_be_bytes_u16 (ps_icon_id p)),
      (F_UserFlags, to_be_bytes_u16 (ps_status_flags p)),
      (F_Name, ps_display_name p)]"

fun collect_results :: "('e, 'a) result list \<Rightarrow> ('e, 'a list) result" where
  "collect_results [] = Inr []"
| "collect_results (r # rs) = rbind r (\<lambda>a. rbind (collect_results rs) (\<lambda>as. Inr (a # as)))"

text \<open>
  What a builder can end with besides a value: an error of the source, or the panic
  of \<^verbatim>\<open>reply_header\<close> on a payload that does not fit 32 bits.
\<close>

datatype fault = Fault TransactionError | Panic

definition reply_with :: "FrameHeader \<Rightarrow> u32 \<Rightarrow> bytes \<Rightarrow> (fault, Transaction) result" where
  "reply_with req error payload =
     rbind (ok_or Panic (reply_header req error (length payload))) (\<lambda>h.
       Inr \<lparr> tx_header = h, tx_payload = payload \<rparr>)"

definition build_user_name_list_reply ::
  "FrameHeader \<Rightarrow> PresenceSnapshot list \<Rightarrow> (fault, Transaction) result" where
  "build_user_name_list_reply header snapshots =
     rbind (map_err Fault (collect_results
       (map (\<lambda>snapshot. rbind (encode_user_name_with_info snapshot)
               (\<lambda>payload. Inr (F_UserNameWithInfo, payload))) snapshots))) (\<lambda>params.
     rbind (map_err Fault (encode_params params)) (\<lambda>payload.
       reply_with header 0 payload))"

definition server_notification :: "TransactionType \<Rightarrow> bytes \<Rightarrow> Transaction" where
  "server_notification transaction_type payload =
     (let payload_len = (case u32_try_from (length payload) of Some n \<Rightarrow> n | None \<Rightarrow> - 1) in
      \<lparr> tx_header = \<lparr> fh_flags = 0, fh_is_reply = 0, fh_ty = transaction_type_to_u16 transaction_type,
          fh_id = 0, fh_error = 0, fh_total_size = payload_len, fh_data_size = payload_len \<rparr>,
        tx_payload = payload \<rparr>)"

definition build_notify_change_user :: "PresenceSnapshot \<Rightarrow> Transaction tx_result" where
  "build_notify_change_user snapshot =
     rbind (encode_params (notify_change_fields snapshot)) (\<lambda>payload.
       Inr (server_notification T_NotifyChangeUser payload))"

definition build_notify_delete_user :: "i32 \<Rightarrow> Transaction tx_result" where
  "build_notify_delete_user user_id =
     rbind (encode_params [(F_UserId, i32_to_be_bytes user_id)]) (\<lambda>payload.
       Inr (server_notification T_NotifyDeleteUser payload))"

definition build_client_info_text_reply ::
  "FrameHeader \<Rightarrow> rstring \<Rightarrow> rstring \<Rightarrow> (fault, Transaction) result" where
  "build_client_info_text_reply header display_name info_text =
     rbind (map_err Fault (encode_params [(F_Name, display_name), (F_Data, info_text)])) (\<lambda>payload.
       reply_with header 0 payload)"

section \<open>The registry\<close>

record PresenceState =
  pr_snapshots :: "(OutboundConnectionId \<times> PresenceSnapshot) list"
  pr_next_presence_id :: u16

definition presence_default :: PresenceState where
  "presence_default = \<lparr> pr_snapshots = [], pr_next_presence_id = 0 \<rparr>"

record PresenceRemoval =
  rm_departed :: PresenceSnapshot
  rm_remaining_peer_ids :: "OutboundConnectionId list"

record PresenceUpsert =
  up_snapshot :: PresenceSnapshot
  up_peer_ids :: "OutboundConnectionId list"

definition sorted_snapshots :: "PresenceSnapshot list \<Rightarrow> PresenceSnapshot list" where
  "sorted_snapshots snapshots = sort_key (\<lambda>p. (ps_user_id p, ps_connection_id p)) snapshots"

definition peer_ids_from_guard ::
  "(OutboundConnectionId \<times> PresenceSnapshot) list \<Rightarrow> OutboundConnectionId option
     \<Rightarrow> OutboundConnectionId list" where
  "peer_ids_from_guard guard excluded_id =
     sort_key (\<lambda>c. c) (List.map_filter
       (\<lambda>p. if excluded_id = Some (ps_connection_id p) then None else Some (ps_connection_id p))
       (map snd guard))"

text \<open>The \<^verbatim>\<open>u16\<close> values among the assigned identifiers.\<close>

definition active_presence_ids :: "PresenceState \<Rightarrow> u16 list" where
  "active_presence_ids st = List.map_filter
     (\<lambda>p. if 0 \<le> ps_user_id p \<and> ps_user_id p \<le> int u16_max then Some (of_int (ps_user_id p)) else None)
     (map snd (pr_snapshots st))"

fun presence_id_search :: "nat \<Rightarrow> u16 list \<Rightarrow> u16 \<Rightarrow> u16 option \<times> u16" where
  "presence_id_search 0 active_ids next_id = (None, next_id)"
| "presence_id_search (Suc k) active_ids next_id =
     (let next_id' = max (next_id + 1) 1 in
      if next_id' \<notin> set active_ids then (Some next_id', next_id')
      else presence_id_search k active_ids next_id')"

definition next_available_presence_id :: "PresenceState \<Rightarrow> u16 option \<times> PresenceState" where
  "next_available_presence_id st =
     (case presence_id_search u16_max (active_presence_ids st) (pr_next_presence_id st) of
        (r, next_id) \<Rightarrow> (r, st\<lparr> pr_next_presence_id := next_id \<rparr>))"

definition assigned_presence_id ::
  "PresenceState \<Rightarrow> OutboundConnectionId \<Rightarrow> i32 tx_result \<times> PresenceState" where
  "assigned_presence_id st connection_id =
     (case map_of (pr_snapshots st) connection_id of
        Some snapshot \<Rightarrow> (Inr (ps_user_id snapshot), st)
      | None \<Rightarrow>
          (case next_available_presence_id st of
             (None, st') \<Rightarrow> (Inl invalid_field_300, st')
           | (Some n, st') \<Rightarrow> (Inr (uint n), st')))"

definition upsert :: "PresenceState \<Rightarrow> PresenceSnapshot \<Rightarrow> PresenceUpsert tx_result \<times> PresenceState" where
  "upsert st snapshot =
     (case assigned_presence_id st (ps_connection_id snapshot) of
        (Inl e, st') \<Rightarrow> (Inl e, st')
      | (Inr uid, st') \<Rightarrow>
          (let snapshot' = snapshot\<lparr> ps_user_id := uid \<rparr>;
               snapshots' = AList.update (ps_connection_id snapshot) snapshot' (pr_snapshots st');
               st'' = st'\<lparr> pr_snapshots := snapshots' \<rparr> in
           (Inr \<lparr> up_snapshot = snapshot',
                  up_peer_ids = peer_ids_from_guard snapshots' (Some (ps_connection_id snapshot)) \<rparr>,
            st'')))"

definition presence_remove ::
  "PresenceState \<Rightarrow> OutboundConnectionId \<Rightarrow> PresenceRemoval option \<times> PresenceState" where
  "presence_remove st connection_id =
     (case map_of (pr_snapshots st) connection_id of
        None \<Rightarrow> (None, st)
      | Some departed \<Rightarrow>
          (let snapshots' = AList.delete connection_id (pr_snapshots st) in
           (Some \<lparr> rm_departed = departed,
                   rm_remaining_peer_ids = peer_ids_from_guard snapshots' None \<rparr>,
            st\<lparr> pr_snapshots := snapshots' \<rparr>)))"

definition online_snapshots :: "PresenceState \<Rightarrow> PresenceSnapshot list" where
  "online_snapshots st = sorted_snapshots (map snd (pr_snapshots st))"

fun min_by_key :: "('a \<Rightarrow> 'k :: linorder) \<Rightarrow> 'a list \<Rightarrow> 'a option" where
  "min_by_key f [] = None"
| "min_by_key f (x # xs) =
     (case min_by_key f xs of
        None \<Rightarrow> Some x
      | Some y \<Rightarrow> Some (if f x \<le> f y then x else y))"

definition snapshot_for_user_id :: "PresenceState \<Rightarrow> i32 \<Rightarrow> PresenceSnapshot option" where
  "snapshot_for_user_id st user_id =
     min_by_key ps_connection_id (filter (\<lambda>p. ps_user_id p = user_id) (map snd (pr_snapshots st)))"

section \<open>Identifier search\<close>

definition succ_id :: "u16 \<Rightarrow> u16" where
  "succ_id n = max (n + 1) 1"

lemma unat_succ_id: "unat (succ_id n) = (if unat n = u16_max then 1 else unat n + 1)"
proof (cases "n = - 1")
  case True
  then show ?thesis by (simp add: succ_id_def unsigned_minus_1_eq_mask mask_eq_exp_minus_1)
next
  case False
  then have "unat n \<noteq> u16_max"
    by (auto simp: word_unat_eq_iff unsigned_minus_1_eq_mask mask_eq_exp_minus_1)
  moreover have "unat n \<le> u16_max" by simp
  ultimately have "unat n + 1 < 65536" by (simp del: unat_u16_le)
  then have "unat (n + 1) = unat n + 1" by (simp add: unat_word_ariths)
  then show ?thesis
    using \<open>unat n \<noteq> u16_max\<close> by (simp add: succ_id_def max_def word_le_nat_alt)
qed

lemma unat_succ_id_iter:
  "i \<le> u16_max \<Longrightarrow> unat ((succ_id ^^ i) n) =
     (if unat n + i \<le> u16_max then unat n + i else unat n + i - u16_max)"
proof (induction i)
  case (Suc i)
  have "unat n \<le> u16_max" by simp
  with Suc show ?case by (auto simp: unat_succ_id simp del: unat_u16_le)
qed simp

lemma succ_id_reaches:
  assumes "t \<noteq> 0"
  shows "\<exists>i. 0 < i \<and> i \<le> u16_max \<and> (succ_id ^^ i) n = t"
proof -
  let ?i = "if unat n < unat t then unat t - unat n else unat t + u16_max - unat n"
  have "0 < unat t" using assms by (simp add: unat_gt_0)
  moreover have "unat t \<le> u16_max" "unat n \<le> u16_max" by simp_all
  ultimately have "0 < ?i" "?i \<le> u16_max" "unat ((succ_id ^^ ?i) n) = unat t"
    by (auto simp: unat_succ_id_iter simp del: unat_u16_le)
  then show ?thesis by (metis word_unat_eq_iff)
qed

lemma presence_id_search_some:
  "presence_id_search k ids n = (Some x, m) \<Longrightarrow> x \<notin> set ids \<and> x \<noteq> 0 \<and> m = x"
proof (induction k ids n rule: presence_id_search.induct)
  case (2 k ids n)
  have "max (n + 1) 1 \<noteq> (0 :: u16)" by (auto simp: max_def)
  with 2 show ?case by (auto simp: Let_def split: if_splits)
qed simp

lemma presence_id_search_none:
  "presence_id_search k ids n = (None, m) \<Longrightarrow> 0 < i \<Longrightarrow> i \<le> k \<Longrightarrow> (succ_id ^^ i) n \<in> set ids"
proof (induction k ids n arbitrary: i rule: presence_id_search.induct)
  case (2 k ids n)
  then have *: "succ_id n \<in> set ids" "presence_id_search k ids (succ_id n) = (None, m)"
    by (auto simp: Let_def succ_id_def split: if_splits)
  show ?case
  proof (cases "i = 1")
    case False
    then obtain j where "i = Suc j" "0 < j" "j \<le> k" using 2 by (cases i) auto
    moreover have "(succ_id ^^ j) (succ_id n) \<in> set ids"
      using 2(1) [OF succ_id_def] * calculation by simp
    ultimately show ?thesis by (simp add: funpow_swap1)
  qed (use * in simp)
qed simp

lemma presence_id_search_exhausted:
  assumes "presence_id_search u16_max ids n = (None, m)"
  shows "\<forall>t. t \<noteq> 0 \<longrightarrow> t \<in> set ids"
  using succ_id_reaches [of _ n] presence_id_search_none [OF assms] by metis

section \<open>Registry invariant\<close>

definition presence_at :: "PresenceState \<Rightarrow> OutboundConnectionId \<Rightarrow> PresenceSnapshot option" where
  "presence_at st = map_of (pr_snapshots st)"

definition presence_wf :: "PresenceState \<Rightarrow> bool" where
  "presence_wf st \<longleftrightarrow>
     distinct (map fst (pr_snapshots st))
     \<and> (\<forall>c p. presence_at st c = Some p \<longrightarrow>
          ps_connection_id p = c \<and> 1 \<le> ps_user_id p \<and> ps_user_id p \<le> int u16_max)
     \<and> (\<forall>c p c' p'. presence_at st c = Some p \<and> presence_at st c' = Some p'
          \<and> ps_user_id p = ps_user_id p' \<longrightarrow> c = c')"

lemma presence_at_mem:
  "presence_wf st \<Longrightarrow> (c, p) \<in> set (pr_snapshots st) \<longleftrightarrow> presence_at st c = Some p"
  by (auto simp: presence_wf_def presence_at_def)

lemma presence_wf_entry:
  "presence_wf st \<Longrightarrow> (c, p) \<in> set (pr_snapshots st) \<Longrightarrow>
     ps_connection_id p = c \<and> 1 \<le> ps_user_id p \<and> ps_user_id p \<le> int u16_max"
  by (metis presence_at_mem presence_wf_def)

lemma i32_u16_eq: "0 \<le> i \<Longrightarrow> i \<le> int u16_max \<Longrightarrow> n = (of_int i :: u16) \<longleftrightarrow> i = uint n"
  by (auto simp: unsigned_of_int take_bit_int_eq_self)

lemma active_ids_mem:
  assumes "presence_wf st"
  shows "n \<in> set (active_presence_ids st) \<longleftrightarrow> (\<exists>c p. presence_at st c = Some p \<and> ps_user_id p = uint n)"
proof -
  have "n \<in> set (active_presence_ids st) \<longleftrightarrow>
      (\<exists>c p. (c, p) \<in> set (pr_snapshots st) \<and> 0 \<le> ps_user_id p \<and> ps_user_id p \<le> int u16_max
         \<and> n = of_int (ps_user_id p))"
    by (force simp: active_presence_ids_def List.map_filter_def)
  also have "\<dots> \<longleftrightarrow> (\<exists>c p. (c, p) \<in> set (pr_snapshots st) \<and> ps_user_id p = uint n)"
  proof -
    have "0 \<le> ps_user_id p \<and> ps_user_id p \<le> int u16_max" if "(c, p) \<in> set (pr_snapshots st)" for c p
      using presence_wf_entry [OF assms that] by simp
    then show ?thesis using i32_u16_eq by blast
  qed
  finally show ?thesis by (simp add: presence_at_mem [OF assms])
qed

lemma assigned_presence_id_spec:
  assumes "presence_wf st" "assigned_presence_id st c = (r, st')"
  shows "pr_snapshots st' = pr_snapshots st"
    and "r = Inl e \<Longrightarrow> e = invalid_field_300 \<and> presence_at st c = None
      \<and> (\<forall>i. 1 \<le> i \<and> i \<le> int u16_max \<longrightarrow> (\<exists>c' p. presence_at st c' = Some p \<and> ps_user_id p = i))"
    and "r = Inr i \<Longrightarrow> presence_at st c = Some p \<Longrightarrow> i = ps_user_id p"
    and "r = Inr i \<Longrightarrow> presence_at st c = None \<Longrightarrow> 1 \<le> i \<and> i \<le> int u16_max
      \<and> (\<forall>c' p. presence_at st c' = Some p \<longrightarrow> ps_user_id p \<noteq> i)"
proof -
  obtain f n where f: "presence_id_search u16_max (active_presence_ids st) (pr_next_presence_id st) = (f, n)"
    by fastforce
  note d = assms(2) [unfolded assigned_presence_id_def next_available_presence_id_def f prod.case,
      folded presence_at_def]
  show "pr_snapshots st' = pr_snapshots st"
    using d by (auto split: option.splits)
  show "e = invalid_field_300 \<and> presence_at st c = None
      \<and> (\<forall>i. 1 \<le> i \<and> i \<le> int u16_max \<longrightarrow> (\<exists>c' p. presence_at st c' = Some p \<and> ps_user_id p = i))"
    if "r = Inl e"
  proof -
    have "f = None" "presence_at st c = None" "e = invalid_field_300"
      using d that by (auto split: option.splits)
    moreover have "\<exists>c' p. presence_at st c' = Some p \<and> ps_user_id p = i"
      if "1 \<le> i" "i \<le> int u16_max" for i
    proof -
      have "uint (of_int i :: u16) = i"
        using that by (simp add: unsigned_of_int take_bit_int_eq_self)
      moreover from this have "(of_int i :: u16) \<noteq> 0" using that by auto
      ultimately show ?thesis
        using presence_id_search_exhausted [OF f [unfolded \<open>f = None\<close>]] active_ids_mem [OF assms(1)]
        by metis
    qed
    ultimately show ?thesis by blast
  qed
  show "i = ps_user_id p" if "r = Inr i" "presence_at st c = Some p"
    using d that by simp
  show "1 \<le> i \<and> i \<le> int u16_max \<and> (\<forall>c' p. presence_at st c' = Some p \<longrightarrow> ps_user_id p \<noteq> i)"
    if ri: "r = Inr i" "presence_at st c = None"
  proof -
    obtain x where x: "f = Some x" "i = uint x"
      using d ri by (cases f) auto
    have x': "x \<notin> set (active_presence_ids st)" "x \<noteq> 0"
      using presence_id_search_some f x by blast+
    have "uint x < 2 ^ LENGTH(16)" by (rule unsigned_less)
    then have b: "uint x \<le> int u16_max" by simp
    have "uint x \<noteq> 0" using x'(2) by (simp add: uint_0_iff)
    moreover have "0 \<le> uint x" by simp
    ultimately have "1 \<le> uint x" by linarith
    moreover have "\<forall>c' p. presence_at st c' = Some p \<longrightarrow> ps_user_id p \<noteq> uint x"
      using x'(1) active_ids_mem [OF assms(1)] by blast
    ultimately show ?thesis using b unfolding x(2) by blast
  qed
qed

lemma peer_ids_eq:
  assumes "distinct (map fst xs)" "\<And>c p. (c, p) \<in> set xs \<Longrightarrow> ps_connection_id p = c"
  shows "peer_ids_from_guard xs ex = sorted_list_of_set (dom (map_of xs) - set_option ex)"
proof -
  have conn: "map (ps_connection_id \<circ> snd) xs = map fst xs"
    using assms(2) by (auto intro!: map_cong)
  have "List.map_filter (\<lambda>p. if ex = Some (ps_connection_id p) then None else Some (ps_connection_id p))
      (map snd xs) = filter (\<lambda>c. c \<notin> set_option ex) (map (ps_connection_id \<circ> snd) xs)"
    by (induction xs) (auto simp: List.map_filter_simps)
  also note conn
  finally have "peer_ids_from_guard xs ex = sort (filter (\<lambda>c. c \<notin> set_option ex) (map fst xs))"
    by (simp add: peer_ids_from_guard_def)
  moreover have "distinct (filter (\<lambda>c. c \<notin> set_option ex) (map fst xs))"
    using assms(1) by simp
  moreover have "set (filter (\<lambda>c. c \<notin> set_option ex) (map fst xs)) = dom (map_of xs) - set_option ex"
    by (auto simp: dom_map_of_conv_image_fst)
  ultimately show ?thesis
    by (metis distinct_remdups_id sorted_list_of_set_sort_remdups)
qed

lemma upsert_spec:
  assumes "presence_wf st" "upsert st s = (r, st')"
  shows "presence_wf st'"
    and "r = Inl e \<Longrightarrow> e = invalid_field_300 \<and> presence_at st' = presence_at st
      \<and> presence_at st (ps_connection_id s) = None
      \<and> (\<forall>i. 1 \<le> i \<and> i \<le> int u16_max \<longrightarrow> (\<exists>c p. presence_at st c = Some p \<and> ps_user_id p = i))"
    and "r = Inr u \<Longrightarrow> presence_at st' = (presence_at st)(ps_connection_id s \<mapsto> up_snapshot u)
      \<and> (\<exists>i. up_snapshot u = s\<lparr> ps_user_id := i \<rparr> \<and> 1 \<le> i \<and> i \<le> int u16_max
           \<and> (\<forall>p. presence_at st (ps_connection_id s) = Some p \<longrightarrow> i = ps_user_id p))
      \<and> up_peer_ids u = sorted_list_of_set (dom (presence_at st) - {ps_connection_id s})"
proof -
  obtain q st1 where q: "assigned_presence_id st (ps_connection_id s) = (q, st1)" by fastforce
  note a = assigned_presence_id_spec [OF assms(1) q]
  have at1: "presence_at st1 = presence_at st" by (simp add: presence_at_def a(1))
  show err: "e = invalid_field_300 \<and> presence_at st' = presence_at st
      \<and> presence_at st (ps_connection_id s) = None
      \<and> (\<forall>i. 1 \<le> i \<and> i \<le> int u16_max \<longrightarrow> (\<exists>c p. presence_at st c = Some p \<and> ps_user_id p = i))"
    if "r = Inl e" for e
  proof -
    have "q = Inl e" "st' = st1" using assms(2) q that by (auto simp: upsert_def Let_def split: sum.splits)
    then show ?thesis using a(2) [of e] at1 by simp
  qed
  have ok: "presence_wf st' \<and> presence_at st' = (presence_at st)(ps_connection_id s \<mapsto> up_snapshot u)
      \<and> (\<exists>i. up_snapshot u = s\<lparr> ps_user_id := i \<rparr> \<and> 1 \<le> i \<and> i \<le> int u16_max
           \<and> (\<forall>p. presence_at st (ps_connection_id s) = Some p \<longrightarrow> i = ps_user_id p))
      \<and> up_peer_ids u = sorted_list_of_set (dom (presence_at st) - {ps_connection_id s})"
    if r: "r = Inr u" for u
  proof -
    let ?c = "ps_connection_id s"
    obtain i where i: "q = Inr i" and u: "up_snapshot u = s\<lparr> ps_user_id := i \<rparr>"
      "pr_snapshots st' = AList.update ?c (up_snapshot u) (pr_snapshots st)"
      "up_peer_ids u = peer_ids_from_guard (pr_snapshots st') (Some ?c)"
      using assms(2) q r a(1) by (auto simp: upsert_def Let_def split: sum.splits)
    have su: "ps_connection_id (up_snapshot u) = ?c" "ps_user_id (up_snapshot u) = i"
      by (simp_all add: u(1))
    have at': "presence_at st' = (presence_at st)(?c \<mapsto> up_snapshot u)"
      by (simp add: presence_at_def u(2) update_conv')
    have bounds: "1 \<le> i \<and> i \<le> int u16_max" "\<forall>p. presence_at st ?c = Some p \<longrightarrow> i = ps_user_id p"
      "\<And>c p. c \<noteq> ?c \<Longrightarrow> presence_at st c = Some p \<Longrightarrow> ps_user_id p \<noteq> i"
      using a(3,4) [OF i] assms(1) unfolding presence_wf_def by (metis not_None_eq)+
    have dist: "distinct (map fst (pr_snapshots st'))"
      using assms(1) unfolding u(2) presence_wf_def by (simp add: distinct_update)
    have wf: "presence_wf st'"
      unfolding presence_wf_def
    proof (intro conjI allI impI dist)
      fix c p assume "presence_at st' c = Some p"
      then show "ps_connection_id p = c" "1 \<le> ps_user_id p" "ps_user_id p \<le> int u16_max"
        using assms(1) su bounds(1) unfolding at' presence_wf_def by (auto split: if_splits)
    next
      fix c p c' p'
      assume "presence_at st' c = Some p \<and> presence_at st' c' = Some p' \<and> ps_user_id p = ps_user_id p'"
      then show "c = c'"
        using assms(1) su bounds(3) unfolding at' presence_wf_def by (auto split: if_splits)
    qed
    have "up_peer_ids u = sorted_list_of_set (dom (presence_at st') - {?c})"
      using peer_ids_eq [OF dist, of "Some ?c"] presence_wf_entry [OF wf] u(3)
      by (simp add: presence_at_def)
    also have "dom (presence_at st') - {?c} = dom (presence_at st) - {?c}" by (auto simp: at')
    finally show ?thesis using wf at' u(1) bounds(1,2) by blast
  qed
  show "presence_wf st'"
  proof (cases r)
    case (Inl e)
    then have st': "st' = st1" using assms(2) q by (auto simp: upsert_def Let_def split: sum.splits)
    show ?thesis using assms(1) unfolding st' presence_wf_def at1 a(1) .
  qed (use ok in blast)
  show "r = Inr u \<Longrightarrow> presence_at st' = (presence_at st)(ps_connection_id s \<mapsto> up_snapshot u)
      \<and> (\<exists>i. up_snapshot u = s\<lparr> ps_user_id := i \<rparr> \<and> 1 \<le> i \<and> i \<le> int u16_max
           \<and> (\<forall>p. presence_at st (ps_connection_id s) = Some p \<longrightarrow> i = ps_user_id p))
      \<and> up_peer_ids u = sorted_list_of_set (dom (presence_at st) - {ps_connection_id s})"
    using ok by blast
qed

lemma presence_remove_spec:
  assumes "presence_wf st"
  shows "presence_wf (snd (presence_remove st c))"
    and "presence_at (snd (presence_remove st c)) = (presence_at st)(c := None)"
    and "fst (presence_remove st c) = map_option (\<lambda>p. \<lparr> rm_departed = p,
      rm_remaining_peer_ids = sorted_list_of_set (dom (presence_at st) - {c}) \<rparr>) (presence_at st c)"
proof -
  let ?d = "AList.delete c (pr_snapshots st)"
  have dist: "distinct (map fst ?d)"
    using assms unfolding presence_wf_def by (simp add: distinct_delete)
  have at': "map_of ?d = (presence_at st)(c := None)"
    by (simp add: presence_at_def delete_conv')
  have peers: "peer_ids_from_guard ?d None = sorted_list_of_set (dom (presence_at st) - {c})"
  proof -
    have "ps_connection_id p = k" if "(k, p) \<in> set ?d" for k p
      using that presence_wf_entry [OF assms, of k p] by (simp add: AList.delete_eq)
    then show ?thesis
      using peer_ids_eq [OF dist, of None] at' by (simp add: Diff_insert_absorb)
  qed
  have same: "(presence_at st)(c := None) = presence_at st" if "presence_at st c = None"
    using that by auto
  show at: "presence_at (snd (presence_remove st c)) = (presence_at st)(c := None)"
    using at' same by (auto simp: presence_remove_def presence_at_def Let_def split: option.split)
  have "distinct (map fst (pr_snapshots (snd (presence_remove st c))))"
    using dist assms by (auto simp: presence_remove_def Let_def presence_wf_def split: option.split)
  then show "presence_wf (snd (presence_remove st c))"
    using assms unfolding presence_wf_def at by (auto split: if_splits)
  show "fst (presence_remove st c) = map_option (\<lambda>p. \<lparr> rm_departed = p,
      rm_remaining_peer_ids = sorted_list_of_set (dom (presence_at st) - {c}) \<rparr>) (presence_at st c)"
    using peers by (auto simp: presence_remove_def presence_at_def Let_def split: option.split)
qed

lemma presence_ids_unique:
  assumes "presence_wf st" "presence_at st c = Some p" "presence_at st c' = Some q"
    "ps_user_id p = ps_user_id q"
  shows "p = q"
proof -
  have "c = c'" using assms unfolding presence_wf_def by blast
  then show ?thesis using assms by simp
qed

lemma online_snapshots_sorted:
  assumes "presence_wf st"
  shows "sorted_wrt (\<lambda>p q. ps_user_id p < ps_user_id q) (online_snapshots st)"
    and "set (online_snapshots st) = ran (presence_at st)"
proof -
  let ?k = "\<lambda>p. (ps_user_id p, ps_connection_id p)"
  have ran: "set (map snd (pr_snapshots st)) = ran (presence_at st)"
    using assms by (simp add: presence_at_def presence_wf_def ran_distinct)
  have inj: "inj_on ps_user_id (set (map snd (pr_snapshots st)))"
    unfolding ran using presence_ids_unique [OF assms] by (auto simp: inj_on_def ran_def)
  have "distinct (map snd (pr_snapshots st))"
  proof -
    have "map ps_connection_id (map snd (pr_snapshots st)) = map fst (pr_snapshots st)"
      using presence_wf_entry [OF assms] by (auto simp: comp_def)
    then show ?thesis
      using assms unfolding presence_wf_def by (metis distinct_map)
  qed
  then have "distinct (online_snapshots st)"
    by (simp add: online_snapshots_def sorted_snapshots_def)
  moreover have set: "set (online_snapshots st) = set (map snd (pr_snapshots st))"
    by (simp add: online_snapshots_def sorted_snapshots_def)
  ultimately have dist: "distinct (map ps_user_id (online_snapshots st))"
    using inj by (simp add: distinct_map)
  have "sorted (map ?k (online_snapshots st))"
    unfolding online_snapshots_def sorted_snapshots_def by simp
  then have "sorted_wrt (\<lambda>p q. ps_user_id p \<le> ps_user_id q) (online_snapshots st)"
    unfolding sorted_map by (rule sorted_wrt_mono_rel [rotated]) (auto simp: less_eq_prod_def)
  then have "sorted (map ps_user_id (online_snapshots st))" by (simp add: sorted_map)
  with dist have "sorted_wrt (<) (map ps_user_id (online_snapshots st))"
    by (simp add: strict_sorted_iff)
  then show "sorted_wrt (\<lambda>p q. ps_user_id p < ps_user_id q) (online_snapshots st)"
    by (simp add: sorted_wrt_map)
  show "set (online_snapshots st) = ran (presence_at st)"
    using set ran by simp
qed

lemma min_by_key_mem: "min_by_key f xs = Some x \<Longrightarrow> x \<in> set xs"
  by (induction xs arbitrary: x) (auto split: option.splits if_splits)

lemma min_by_key_None [simp]: "min_by_key f xs = None \<longleftrightarrow> xs = []"
  by (cases xs) (auto split: option.split)

lemma snapshot_for_user_id_iff:
  assumes "presence_wf st"
  shows "snapshot_for_user_id st i = Some p \<longleftrightarrow> p \<in> ran (presence_at st) \<and> ps_user_id p = i"
proof -
  let ?xs = "filter (\<lambda>p. ps_user_id p = i) (map snd (pr_snapshots st))"
  have xs: "set ?xs = {p \<in> ran (presence_at st). ps_user_id p = i}"
    using assms by (auto simp: presence_at_def presence_wf_def ran_distinct)
  have uniq: "p = q" if "p \<in> set ?xs" "q \<in> set ?xs" for p q
    using that presence_ids_unique [OF assms] unfolding xs ran_def by blast
  show ?thesis
  proof
    assume "snapshot_for_user_id st i = Some p"
    then show "p \<in> ran (presence_at st) \<and> ps_user_id p = i"
      using min_by_key_mem xs unfolding snapshot_for_user_id_def by fastforce
  next
    assume "p \<in> ran (presence_at st) \<and> ps_user_id p = i"
    then have p: "p \<in> set ?xs" using xs by blast
    then obtain q where "snapshot_for_user_id st i = Some q"
      unfolding snapshot_for_user_id_def by (metis empty_iff min_by_key_None not_None_eq set_empty)
    then show "snapshot_for_user_id st i = Some p"
      using uniq [OF p] min_by_key_mem unfolding snapshot_for_user_id_def by metis
  qed
qed

section \<open>The registry contract\<close>

text \<open>
  What the command layer relies on: a partial map from connections to snapshots that
  an accepted snapshot updates at its own connection, under the identifier the
  connection already had, and a removal clears.
\<close>

locale presence_registry =
  fixes ok :: "'st \<Rightarrow> bool"
    and at :: "'st \<Rightarrow> OutboundConnectionId \<Rightarrow> PresenceSnapshot option"
    and put :: "'st \<Rightarrow> PresenceSnapshot \<Rightarrow> PresenceUpsert tx_result \<times> 'st"
    and rem :: "'st \<Rightarrow> OutboundConnectionId \<Rightarrow> PresenceRemoval option \<times> 'st"
  assumes put_ok: "ok st \<Longrightarrow> put st s = (r, st') \<Longrightarrow> ok st'"
    and put_at: "ok st \<Longrightarrow> put st s = (Inr u, st') \<Longrightarrow>
      at st' = (at st)(ps_connection_id s \<mapsto> up_snapshot u)"
    and put_shape: "ok st \<Longrightarrow> put st s = (Inr u, st') \<Longrightarrow>
      \<exists>i. up_snapshot u = s\<lparr> ps_user_id := i \<rparr>"
    and put_id: "ok st \<Longrightarrow> put st s = (Inr u, st') \<Longrightarrow> at st (ps_connection_id s) = Some p \<Longrightarrow>
      ps_user_id (up_snapshot u) = ps_user_id p"
    and put_error: "ok st \<Longrightarrow> put st s = (Inl e, st') \<Longrightarrow>
      at st' = at st \<and> at st (ps_connection_id s) = None"
    and rem_ok: "ok st \<Longrightarrow> rem st c = (q, st') \<Longrightarrow> ok st'"
    and rem_at: "ok st \<Longrightarrow> rem st c = (q, st') \<Longrightarrow> at st' = (at st)(c := None)"
begin

lemma put_registered:
  "ok st \<Longrightarrow> at st (ps_connection_id s) = Some p \<Longrightarrow> \<exists>u st'. put st s = (Inr u, st')"
  using put_error [of st s] by (cases "put st s"; cases "fst (put st s)") auto

lemma put_other:
  "ok st \<Longrightarrow> put st s = (r, st') \<Longrightarrow> c \<noteq> ps_connection_id s \<Longrightarrow> at st' c = at st c"
  using put_at put_error by (cases r) auto

lemma put_keeps_id:
  "ok st \<Longrightarrow> put st s = (r, st') \<Longrightarrow> at st c = Some p \<Longrightarrow>
     \<exists>p'. at st' c = Some p' \<and> ps_user_id p' = ps_user_id p"
proof (cases "c = ps_connection_id s")
  case True
  assume a: "ok st" "put st s = (r, st')" "at st c = Some p"
  then obtain u where "r = Inr u" using put_error True by (cases r) auto
  then show ?thesis using a True put_at put_id by simp
qed (simp add: put_other)

lemma rem_other: "ok st \<Longrightarrow> rem st c = (q, st') \<Longrightarrow> c' \<noteq> c \<Longrightarrow> at st' c' = at st c'"
  using rem_at by simp

lemma put_then_rem:
  "ok st \<Longrightarrow> put st s = (r, st1) \<Longrightarrow> rem st1 (ps_connection_id s) = (q, st2) \<Longrightarrow>
     at st2 = (at st)(ps_connection_id s := None)"
proof -
  assume a: "ok st" "put st s = (r, st1)" "rem st1 (ps_connection_id s) = (q, st2)"
  have "at st2 = (at st1)(ps_connection_id s := None)"
    using a put_ok rem_at by blast
  moreover have "(at st1)(ps_connection_id s := None) = (at st)(ps_connection_id s := None)"
    using a put_other by (auto simp: fun_eq_iff)
  ultimately show ?thesis by simp
qed

end

lemma upsert_at:
  "presence_wf st \<Longrightarrow> upsert st s = (Inr u, st') \<Longrightarrow>
     presence_at st' = (presence_at st)(ps_connection_id s \<mapsto> up_snapshot u)"
  by (drule (1) upsert_spec(3) [OF _ _ refl]) (erule conjunct1)

lemma upsert_id:
  assumes "presence_wf st" "upsert st s = (Inr u, st')"
  shows "\<exists>i. up_snapshot u = s\<lparr> ps_user_id := i \<rparr> \<and> 1 \<le> i \<and> i \<le> int u16_max
    \<and> (\<forall>p. presence_at st (ps_connection_id s) = Some p \<longrightarrow> i = ps_user_id p)"
  using upsert_spec(3) [OF assms refl] by (elim conjE)

lemma upsert_shape:
  "presence_wf st \<Longrightarrow> upsert st s = (Inr u, st') \<Longrightarrow>
     \<exists>i. up_snapshot u = s\<lparr> ps_user_id := i \<rparr>"
  by (drule (1) upsert_id) blast

lemma upsert_kept:
  "presence_wf st \<Longrightarrow> upsert st s = (Inr u, st') \<Longrightarrow> presence_at st (ps_connection_id s) = Some p \<Longrightarrow>
     ps_user_id (up_snapshot u) = ps_user_id p"
  by (drule (1) upsert_id) (elim exE conjE, simp)

lemma upsert_refused:
  "presence_wf st \<Longrightarrow> upsert st s = (Inl e, st') \<Longrightarrow>
     presence_at st' = presence_at st \<and> presence_at st (ps_connection_id s) = None"
  by (drule (1) upsert_spec(2) [OF _ _ refl]) (elim conjE, intro conjI)

lemma presence_remove_at:
  "presence_wf st \<Longrightarrow> presence_remove st c = (q, st') \<Longrightarrow> presence_at st' = (presence_at st)(c := None)"
  using presence_remove_spec(2) [of st c] by simp

lemma presence_remove_wf: "presence_wf st \<Longrightarrow> presence_remove st c = (q, st') \<Longrightarrow> presence_wf st'"
  using presence_remove_spec(1) [of st c] by simp

interpretation reg: presence_registry presence_wf presence_at upsert presence_remove
  by unfold_locales
    (fact upsert_spec(1) upsert_at upsert_shape upsert_kept upsert_refused presence_remove_wf
       presence_remove_at)+

section \<open>Reachable registries\<close>

inductive presence_reachable :: "PresenceState \<Rightarrow> bool" where
  init: "presence_reachable presence_default"
| upserted: "presence_reachable st \<Longrightarrow> upsert st s = (r, st') \<Longrightarrow> presence_reachable st'"
| removed: "presence_reachable st \<Longrightarrow> presence_remove st c = (q, st') \<Longrightarrow> presence_reachable st'"

lemma presence_default_wf [wf_intros]: "presence_wf presence_default"
  by (simp add: presence_wf_def presence_default_def presence_at_def)

lemma presence_reachable_wf: "presence_reachable st \<Longrightarrow> presence_wf st"
  by (induction rule: presence_reachable.induct) (auto intro: wf_intros reg.put_ok reg.rem_ok)

text \<open>One operation that does not remove the connection.\<close>

inductive presence_step :: "OutboundConnectionId \<Rightarrow> PresenceState \<Rightarrow> PresenceState \<Rightarrow> bool"
  for c where
  step_upsert: "upsert st s = (r, st') \<Longrightarrow> presence_step c st st'"
| step_remove: "d \<noteq> c \<Longrightarrow> presence_remove st d = (q, st') \<Longrightarrow> presence_step c st st'"

lemma presence_step_keeps:
  assumes "presence_step c st st'" "presence_wf st" "presence_at st c = Some p"
  shows "presence_wf st' \<and> (\<exists>p'. presence_at st' c = Some p' \<and> ps_user_id p' = ps_user_id p)"
  using assms
proof cases
  case (step_upsert s r)
  then show ?thesis using assms(2,3) reg.put_ok reg.put_keeps_id by blast
next
  case (step_remove d q)
  then show ?thesis using assms(2,3) reg.rem_ok reg.rem_other by metis
qed

text \<open>
  C13: in every registry that upserts and removals can produce, each snapshot stands
  under its own connection, the identifiers are in \<^verbatim>\<open>1..=65535\<close> and belong to one
  connection each, and the online list shows exactly the registered snapshots in
  strictly ascending order of identifiers.
\<close>

theorem presence_registry_invariant:
  assumes "presence_reachable st"
  shows "(\<forall>c p. presence_at st c = Some p \<longrightarrow>
            ps_connection_id p = c \<and> 1 \<le> ps_user_id p \<and> ps_user_id p \<le> 65535)
    \<and> (\<forall>c c' p p'. presence_at st c = Some p \<and> presence_at st c' = Some p'
            \<and> ps_user_id p = ps_user_id p' \<longrightarrow> c = c')
    \<and> sorted_wrt (\<lambda>p q. ps_user_id p < ps_user_id q) (online_snapshots st)
    \<and> set (online_snapshots st) = ran (presence_at st)"
proof (intro conjI)
  have wf: "presence_wf st" using assms by (rule presence_reachable_wf)
  then show "\<forall>c p. presence_at st c = Some p \<longrightarrow>
      ps_connection_id p = c \<and> 1 \<le> ps_user_id p \<and> ps_user_id p \<le> 65535"
    and "\<forall>c c' p p'. presence_at st c = Some p \<and> presence_at st c' = Some p'
      \<and> ps_user_id p = ps_user_id p' \<longrightarrow> c = c'"
    by (simp_all add: presence_wf_def) blast
  show "sorted_wrt (\<lambda>p q. ps_user_id p < ps_user_id q) (online_snapshots st)"
    "set (online_snapshots st) = ran (presence_at st)"
    using online_snapshots_sorted [OF wf] by simp_all
qed

definition sample_snapshot :: "OutboundConnectionId \<Rightarrow> PresenceSnapshot" where
  "sample_snapshot c = \<lparr> ps_connection_id = c, ps_user_id = 7, ps_display_name = [97, 98],
     ps_icon_id = 3, ps_status_flags = 0 \<rparr>"

definition sample_registry :: PresenceState where
  "sample_registry = snd (upsert (snd (upsert presence_default (sample_snapshot 5))) (sample_snapshot 2))"

lemma presence_id_search_hit:
  "max (n + 1) 1 \<notin> set ids \<Longrightarrow>
     presence_id_search (numeral k) ids n = (Some (max (n + 1) 1), max (n + 1) 1)"
  by (simp add: numeral_eq_Suc Let_def)

lemmas registry_eval =
  upsert_def assigned_presence_id_def next_available_presence_id_def active_presence_ids_def
  presence_id_search_hit Let_def List.map_filter_simps

lemma sample_registry_eq:
  "pr_snapshots sample_registry =
     [(5, (sample_snapshot 5)\<lparr> ps_user_id := 1 \<rparr>), (2, (sample_snapshot 2)\<lparr> ps_user_id := 2 \<rparr>)]"
  by (simp add: sample_registry_def presence_default_def registry_eval sample_snapshot_def)

lemma sample_registry_at [simp]:
  "presence_at sample_registry 5 = Some ((sample_snapshot 5)\<lparr> ps_user_id := 1 \<rparr>)"
  "presence_at sample_registry 2 = Some ((sample_snapshot 2)\<lparr> ps_user_id := 2 \<rparr>)"
  by (simp_all add: presence_at_def sample_registry_eq)

lemma sample_registry_reachable: "presence_reachable sample_registry"
  unfolding sample_registry_def
  by (intro presence_reachable.upserted [OF _ prod.collapse [symmetric]] presence_reachable.init)

theorem presence_registry_invariant_witness:
  "presence_reachable sample_registry
   \<and> sorted_wrt (\<lambda>p q. ps_user_id p < ps_user_id q) (online_snapshots sample_registry)
   \<and> set (online_snapshots sample_registry) = ran (presence_at sample_registry)"
  using presence_registry_invariant [OF sample_registry_reachable] sample_registry_reachable by blast

text \<open>
  C14: an upsert either registers the snapshot under its connection, keeping the
  identifier the connection had or giving it a fresh one, and names every other
  registered connection once and in order as a peer; or it is refused with the
  invalid-field error, which happens only when the connection is new and all 65535
  identifiers are taken, and then nothing is registered.
\<close>

theorem upsert_outcome:
  assumes "presence_reachable st" "upsert st s = (r, st')"
  shows "case r of
      Inr u \<Rightarrow> presence_at st' = (presence_at st)(ps_connection_id s \<mapsto> up_snapshot u)
        \<and> (\<exists>i. up_snapshot u = s\<lparr> ps_user_id := i \<rparr> \<and> 1 \<le> i \<and> i \<le> 65535
             \<and> (\<forall>p. presence_at st (ps_connection_id s) = Some p \<longrightarrow> i = ps_user_id p))
        \<and> up_peer_ids u = sorted_list_of_set (dom (presence_at st) - {ps_connection_id s})
    | Inl e \<Rightarrow> e = invalid_field_300 \<and> presence_at st' = presence_at st
        \<and> presence_at st (ps_connection_id s) = None
        \<and> (\<forall>i. 1 \<le> i \<and> i \<le> 65535 \<longrightarrow> (\<exists>c p. presence_at st c = Some p \<and> ps_user_id p = i))"
proof (cases r)
  case (Inl e)
  then show ?thesis
    using upsert_spec(2) [OF presence_reachable_wf [OF assms(1)] assms(2), of e] by simp
next
  case (Inr u)
  then show ?thesis
    using upsert_spec(3) [OF presence_reachable_wf [OF assms(1)] assms(2), of u]
    by (simp only: sum.case) simp
qed

theorem upsert_outcome_witness:
  "\<exists>u st'. upsert sample_registry (sample_snapshot 5) = (Inr u, st')
     \<and> presence_at st' = (presence_at sample_registry)(5 \<mapsto> up_snapshot u)"
proof -
  obtain r st' where u: "upsert sample_registry (sample_snapshot 5) = (r, st')" by fastforce
  moreover have "ps_connection_id (sample_snapshot 5) = 5" by (simp add: sample_snapshot_def)
  ultimately show ?thesis
    using upsert_outcome [OF sample_registry_reachable u] by (cases r) simp_all
qed

text \<open>
  While a connection is not removed, no sequence of operations on the registry,
  its own updates included, changes the identifier other clients know it by.
\<close>

lemma presence_id_stable:
  assumes "(presence_step c)\<^sup>*\<^sup>* st st'" "presence_reachable st" "presence_at st c = Some p"
  shows "\<exists>p'. presence_at st' c = Some p' \<and> ps_user_id p' = ps_user_id p"
proof -
  have "presence_wf st' \<and> (\<exists>p'. presence_at st' c = Some p' \<and> ps_user_id p' = ps_user_id p)"
    using assms(1)
  proof (induction rule: rtranclp_induct)
    case base
    then show ?case using assms(2,3) presence_reachable_wf by blast
  next
    case (step st1 st2)
    then show ?case using presence_step_keeps by metis
  qed
  then show ?thesis by blast
qed

lemma presence_id_stable_sample:
  "\<exists>p p'. presence_at sample_registry 5 = Some p
     \<and> presence_at (snd (presence_remove sample_registry 2)) 5 = Some p' \<and> ps_user_id p' = ps_user_id p"
proof -
  have "presence_step 5 sample_registry (snd (presence_remove sample_registry 2))"
    by (rule step_remove [of 2 5 sample_registry "fst (presence_remove sample_registry 2)"]) simp_all
  moreover have "\<exists>p. presence_at sample_registry 5 = Some p" by simp
  ultimately show ?thesis
    using presence_id_stable [OF r_into_rtranclp sample_registry_reachable] by blast
qed

section \<open>The user list\<close>

definition user_info_bytes :: "PresenceSnapshot \<Rightarrow> bytes" where
  "user_info_bytes p =
     to_be_bytes_u16 (of_int (ps_user_id p)) @ to_be_bytes_u16 (ps_icon_id p)
     @ to_be_bytes_u16 (ps_status_flags p) @ to_be_bytes_u16 (of_nat (length (ps_display_name p)))
     @ ps_display_name p"

text \<open>How a client reads one packed entry back.\<close>

definition read_user_info :: "bytes \<Rightarrow> int \<times> u16 \<times> u16 \<times> rstring" where
  "read_user_info b =
     (uint (dec_u16 b), dec_u16 (drop 2 b), dec_u16 (drop 4 b),
      take (unat (dec_u16 (drop 6 b))) (drop 8 b))"

lemma encode_user_name_with_info_iff:
  "encode_user_name_with_info p = Inr b \<longleftrightarrow>
     0 \<le> ps_user_id p \<and> ps_user_id p \<le> int u16_max \<and> length (ps_display_name p) \<le> u16_max
     \<and> b = user_info_bytes p"
  by (auto simp: encode_user_name_with_info_def field_300_user_id_def field_300_name_len_def
      u16_try_from_def user_info_bytes_def)

lemma length_user_info: "length (user_info_bytes p) = 8 + length (ps_display_name p)"
  by (simp add: user_info_bytes_def)

lemma read_user_info_bytes:
  assumes "0 \<le> ps_user_id p" "ps_user_id p \<le> int u16_max" "length (ps_display_name p) \<le> u16_max"
  shows "read_user_info (user_info_bytes p) =
    (ps_user_id p, ps_icon_id p, ps_status_flags p, ps_display_name p)"
proof -
  have "uint (of_int (ps_user_id p) :: u16) = ps_user_id p"
    using assms(1,2) by (simp add: unsigned_of_int take_bit_int_eq_self)
  then show ?thesis
    using assms(3) by (simp add: read_user_info_def user_info_bytes_def u16c.dec_enc)
qed

lemma build_user_list_params:
  "collect_results (map (\<lambda>p. rbind (encode_user_name_with_info p)
       (\<lambda>b. Inr (F_UserNameWithInfo, b))) ps) = Inr qs \<longleftrightarrow>
     (\<forall>p\<in>set ps. 0 \<le> ps_user_id p \<and> ps_user_id p \<le> int u16_max
        \<and> length (ps_display_name p) \<le> u16_max)
     \<and> qs = map (\<lambda>p. (F_UserNameWithInfo, user_info_bytes p)) ps"
proof (induction ps arbitrary: qs)
  case (Cons p ps)
  show ?case
    by (auto simp: Cons.IH encode_user_name_with_info_iff)
qed auto

lemma build_user_name_list_reply_iff:
  "build_user_name_list_reply h ps = Inr tx \<longleftrightarrow>
     (\<forall>p\<in>set ps. 0 \<le> ps_user_id p \<and> ps_user_id p \<le> int u16_max
        \<and> length (ps_display_name p) + 8 \<le> u16_max)
     \<and> length ps \<le> u16_max
     \<and> reply_with h 0 (wire_params (map (\<lambda>p. (F_UserNameWithInfo, user_info_bytes p)) ps)) = Inr tx"
  (is "_ \<longleftrightarrow> ?bounds \<and> _")
proof -
  have "build_user_name_list_reply h ps = Inr tx \<longleftrightarrow>
     (\<exists>qs. collect_results (map (\<lambda>p. rbind (encode_user_name_with_info p)
         (\<lambda>b. Inr (F_UserNameWithInfo, b))) ps) = Inr qs
       \<and> (\<exists>b. encode_params qs = Inr b \<and> reply_with h 0 b = Inr tx))"
    by (auto simp: build_user_name_list_reply_def)
  then show ?thesis
    unfolding build_user_list_params by (auto simp: encode_params_eq length_user_info)
qed

lemma reply_with_iff:
  "reply_with h e payload = Inr tx \<longleftrightarrow>
     length payload \<le> u32_max
     \<and> tx = \<lparr> tx_header = \<lparr> fh_flags = 0, fh_is_reply = 1, fh_ty = fh_ty h, fh_id = fh_id h,
          fh_error = e, fh_total_size = of_nat (length payload), fh_data_size = of_nat (length payload) \<rparr>,
        tx_payload = payload \<rparr>"
  by (auto simp: reply_with_def reply_header_def u32_try_from_def)

text \<open>
  C15: the user list survives the wire.  A reply the server builds for a request of
  the user-list type passes payload validation, and a client that decodes its
  parameters reads from each entry the identifier, icon, flags and name of the
  corresponding snapshot, in order.
\<close>

theorem user_list_decodes:
  assumes "build_user_name_list_reply h ps = Inr tx" "fh_ty h = USER_NAME_LIST_ID"
  shows "validate_payload tx = Inr ()
    \<and> (\<exists>infos. decode_params (tx_payload tx) = Inr (map (Pair F_UserNameWithInfo) infos)
        \<and> map read_user_info infos =
            map (\<lambda>p. (ps_user_id p, ps_icon_id p, ps_status_flags p, ps_display_name p)) ps)"
proof -
  let ?qs = "map (\<lambda>p. (F_UserNameWithInfo, user_info_bytes p)) ps"
  have b: "\<And>p. p \<in> set ps \<Longrightarrow> 0 \<le> ps_user_id p \<and> ps_user_id p \<le> int u16_max
        \<and> length (ps_display_name p) + 8 \<le> u16_max" "length ps \<le> u16_max"
    and tx: "reply_with h 0 (wire_params ?qs) = Inr tx"
    using assms(1) unfolding build_user_name_list_reply_iff by auto
  have wf: "params_wf ctx ?qs" if "duplicate_allowed F_UserNameWithInfo ctx" for ctx
    using b that by (auto simp: params_wf_def length_user_info no_repeats_def comp_def canonical_field_named)
  have "params_wf (context_from_header (tx_header tx)) ?qs"
    using tx assms(2) by (intro wf) (auto simp: reply_with_iff context_from_header_def)
  then have "validate_payload tx = Inr ()"
    using tx by (auto simp: validate_payload_def validate_payload_parts_iff reply_with_iff)
  moreover have "decode_params (tx_payload tx) = Inr (map (Pair F_UserNameWithInfo) (map user_info_bytes ps))"
    using tx wf [of DECODE_ONLY]
    by (auto simp: decode_params_iff reply_with_iff DECODE_ONLY_def comp_def)
  moreover have "map read_user_info (map user_info_bytes ps) =
      map (\<lambda>p. (ps_user_id p, ps_icon_id p, ps_status_flags p, ps_display_name p)) ps"
    using b(1) by (auto intro!: read_user_info_bytes intro: order_trans [of _ 65527])
  ultimately show ?thesis by blast
qed

definition user_list_request :: FrameHeader where
  "user_list_request = \<lparr> fh_flags = 0, fh_is_reply = 0, fh_ty = 300, fh_id = 4, fh_error = 0,
     fh_total_size = 0, fh_data_size = 0 \<rparr>"

theorem user_list_decodes_witness:
  "\<exists>tx infos. build_user_name_list_reply user_list_request [sample_snapshot 5, sample_snapshot 2] = Inr tx
     \<and> validate_payload tx = Inr ()
     \<and> decode_params (tx_payload tx) = Inr (map (Pair F_UserNameWithInfo) infos)
     \<and> map read_user_info infos = [(7, 3, 0, [97, 98]), (7, 3, 0, [97, 98])]"
proof -
  have "length (wire_params (map (\<lambda>p. (F_UserNameWithInfo, user_info_bytes p))
      [sample_snapshot 5, sample_snapshot 2])) \<le> u32_max"
    by (simp add: wire_params_def field_entry_def user_info_bytes_def sample_snapshot_def)
  then obtain tx where "build_user_name_list_reply user_list_request [sample_snapshot 5, sample_snapshot 2] = Inr tx"
    by (auto simp: build_user_name_list_reply_iff reply_with_iff sample_snapshot_def)
  then show ?thesis
    using user_list_decodes [of user_list_request "[sample_snapshot 5, sample_snapshot 2]" tx]
    by (auto simp: user_list_request_def sample_snapshot_def)
qed

text \<open>
  C16: a single over-long nickname takes the list down for everyone.  A name of
  65528 to 65535 bytes is accepted and its entry encodes, but the entry no longer
  fits a parameter, so the list reply fails for every requester while that
  snapshot is registered.
\<close>

theorem long_name_blocks_user_list:
  assumes "p \<in> set (online_snapshots st)" "u16_max - 8 < length (ps_display_name p)"
    and "\<forall>q\<in>set (online_snapshots st). is_ok (encode_user_name_with_info q)"
  shows "build_user_name_list_reply h (online_snapshots st) = Inl (Fault PayloadTooLarge)"
proof -
  let ?ps = "online_snapshots st"
  have "encode_user_name_with_info q = Inr (user_info_bytes q)
      \<and> 0 \<le> ps_user_id q \<and> ps_user_id q \<le> int u16_max \<and> length (ps_display_name q) \<le> u16_max"
    if "q \<in> set ?ps" for q
    using assms(3) that encode_user_name_with_info_iff [of q]
    by (cases "encode_user_name_with_info q") fastforce+
  then have "collect_results (map (\<lambda>p. rbind (encode_user_name_with_info p)
      (\<lambda>b. Inr (F_UserNameWithInfo, b))) ?ps) = Inr (map (\<lambda>p. (F_UserNameWithInfo, user_info_bytes p)) ?ps)"
    unfolding build_user_list_params by blast
  moreover have "\<not> length (user_info_bytes p) \<le> u16_max"
    using assms(2) by (simp add: length_user_info)
  ultimately show ?thesis
    using assms(1) by (auto simp: build_user_name_list_reply_def encode_params_eq)
qed

definition long_name_registry :: PresenceState where
  "long_name_registry = snd (upsert presence_default
     ((sample_snapshot 5)\<lparr> ps_display_name := replicate 65530 97 \<rparr>))"

theorem long_name_blocks_user_list_witness:
  "presence_reachable long_name_registry
   \<and> build_user_name_list_reply user_list_request (online_snapshots long_name_registry) =
       Inl (Fault PayloadTooLarge)"
proof -
  let ?p = "(sample_snapshot 5)\<lparr> ps_display_name := replicate 65530 97, ps_user_id := 1 \<rparr>"
  have online: "online_snapshots long_name_registry = [?p]"
    by (simp add: long_name_registry_def presence_default_def registry_eval sample_snapshot_def
        online_snapshots_def sorted_snapshots_def)
  have "encode_user_name_with_info ?p = Inr (user_info_bytes ?p)"
    by (simp add: encode_user_name_with_info_iff)
  then have "build_user_name_list_reply user_list_request (online_snapshots long_name_registry) =
      Inl (Fault PayloadTooLarge)"
    by (intro long_name_blocks_user_list [of ?p]) (simp_all add: online)
  moreover have "presence_reachable long_name_registry"
    unfolding long_name_registry_def
    by (intro presence_reachable.upserted [OF _ prod.collapse [symmetric]] presence_reachable.init)
  ultimately show ?thesis by blast
qed

end
