(* ===== verification/Outbound.thy ===== *)
theory Outbound
  imports Presence
begin

text \<open>
  Replies and pushes: the reply buffer and the messaging interface of
  \<^verbatim>\<open>src/src/server/outbound.rs\<close> with its two implementations, and the push registry of
  \<^verbatim>\<open>src/src/wireframe/outbound.rs\<close> with the notification a dropped connection leaves
  behind.  The session registry and the push queues belong to the wireframe crate:
  their operations are the fields of a record every definition takes as an argument,
  and \<open>registry_laws\<close> states what the source relies on.
\<close>

section \<open>The messaging interface\<close>

datatype OutboundPriority = High | Low

datatype OutboundTarget = Current | Connection OutboundConnectionId

datatype OutboundError =
    ReplyAlreadySent
  | ReplyMissing
  | TargetUnavailable
  | MessagingUnavailable
  | QueueFull
  | QueueClosed

text \<open>
  An implementation of \<^verbatim>\<open>OutboundMessaging\<close> acts on a world outside the model;
  \<open>om_sleep\<close> is what that world does while the caller sleeps.
\<close>

record 'w OutboundMessaging =
  om_push :: "OutboundTarget \<Rightarrow> Transaction \<Rightarrow> OutboundPriority \<Rightarrow> 'w \<Rightarrow> (OutboundError, unit) result \<times> 'w"
  om_broadcast :: "Transaction \<Rightarrow> OutboundPriority \<Rightarrow> 'w \<Rightarrow> (OutboundError, unit) result \<times> 'w"
  om_sleep :: "nat \<Rightarrow> 'w \<Rightarrow> 'w"

record ReplyBuffer =
  rb_reply :: "Transaction option"

definition reply_buffer_new :: ReplyBuffer where
  "reply_buffer_new = \<lparr> rb_reply = None \<rparr>"

definition take_reply :: "ReplyBuffer \<Rightarrow> Transaction option \<times> ReplyBuffer" where
  "take_reply b = (rb_reply b, b\<lparr> rb_reply := None \<rparr>)"

definition send_reply :: "Transaction \<Rightarrow> ReplyBuffer \<Rightarrow> (OutboundError, unit) result \<times> ReplyBuffer" where
  "send_reply reply b =
     (if rb_reply b \<noteq> None then (Inl ReplyAlreadySent, b)
      else (Inr (), b\<lparr> rb_reply := Some reply \<rparr>))"

definition noop_messaging :: "(nat \<Rightarrow> 'w \<Rightarrow> 'w) \<Rightarrow> 'w OutboundMessaging" where
  "noop_messaging sleep =
     \<lparr> om_push = (\<lambda>target message priority w. (Inl MessagingUnavailable, w)),
        om_broadcast = (\<lambda>message priority w. (Inl MessagingUnavailable, w)),
        om_sleep = sleep \<rparr>"

section \<open>The wireframe registry\<close>

datatype PushError = PE_QueueFull | PE_Closed

text \<open>
  The wireframe crate: \<open>'r\<close> is its session registry, \<open>'h\<close> a push handle, \<open>'q\<close> the
  state of all queues.
\<close>

record ('r, 'h, 'q) WireframePush =
  wp_empty :: 'r
  wp_insert :: "u64 \<Rightarrow> 'h \<Rightarrow> 'r \<Rightarrow> 'r"
  wp_remove :: "u64 \<Rightarrow> 'r \<Rightarrow> 'r"
  wp_get :: "u64 \<Rightarrow> 'r \<Rightarrow> 'h option"
  wp_active_handles :: "'r \<Rightarrow> (u64 \<times> 'h) list"
  wp_push_high_priority :: "'h \<Rightarrow> bytes \<Rightarrow> 'q \<Rightarrow> (PushError, unit) result \<times> 'q"
  wp_push_low_priority :: "'h \<Rightarrow> bytes \<Rightarrow> 'q \<Rightarrow> (PushError, unit) result \<times> 'q"

definition registry_laws :: "('r, 'h, 'q) WireframePush \<Rightarrow> bool" where
  "registry_laws w \<longleftrightarrow>
     (\<forall>i h r. wp_get w i (wp_insert w i h r) = Some h)
     \<and> (\<forall>i j h r. j \<noteq> i \<longrightarrow> wp_get w j (wp_insert w i h r) = wp_get w j r)
     \<and> (\<forall>i r. wp_get w i (wp_remove w i r) = None)
     \<and> (\<forall>i j r. j \<noteq> i \<longrightarrow> wp_get w j (wp_remove w i r) = wp_get w j r)"

record 'r WireframeOutboundRegistry =
  wr_next_id :: u64
  wr_sessions :: 'r

definition outbound_registry_default ::
  "('r, 'h, 'q) WireframePush \<Rightarrow> 'r WireframeOutboundRegistry" where
  "outbound_registry_default w = \<lparr> wr_next_id = 1, wr_sessions = wp_empty w \<rparr>"

definition allocate_id ::
  "'r WireframeOutboundRegistry \<Rightarrow> OutboundConnectionId \<times> 'r WireframeOutboundRegistry" where
  "allocate_id reg = (wr_next_id reg, reg\<lparr> wr_next_id := wr_next_id reg + 1 \<rparr>)"

definition registry_insert ::
  "('r, 'h, 'q) WireframePush \<Rightarrow> OutboundConnectionId \<Rightarrow> 'h \<Rightarrow>
   'r WireframeOutboundRegistry \<Rightarrow> 'r WireframeOutboundRegistry" where
  "registry_insert w i handle reg = reg\<lparr> wr_sessions := wp_insert w i handle (wr_sessions reg) \<rparr>"

definition registry_remove ::
  "('r, 'h, 'q) WireframePush \<Rightarrow> OutboundConnectionId \<Rightarrow>
   'r WireframeOutboundRegistry \<Rightarrow> 'r WireframeOutboundRegistry" where
  "registry_remove w i reg = reg\<lparr> wr_sessions := wp_remove w i (wr_sessions reg) \<rparr>"

definition handle_for ::
  "('r, 'h, 'q) WireframePush \<Rightarrow> OutboundConnectionId \<Rightarrow> 'r WireframeOutboundRegistry \<Rightarrow> 'h option" where
  "handle_for w i reg = wp_get w i (wr_sessions reg)"

definition active_handles ::
  "('r, 'h, 'q) WireframePush \<Rightarrow> 'r WireframeOutboundRegistry \<Rightarrow> 'h list" where
  "active_handles w reg = map snd (wp_active_handles w (wr_sessions reg))"

text \<open>
  A connection shares the push registry and the presence registry with all others;
  both are passed next to it.  Its handle is a cell that is set at most once.
\<close>

record 'h WireframeOutboundConnection =
  oc_id :: OutboundConnectionId
  oc_runtime_handle :: bool
  oc_handle :: "'h option"

definition new_with_runtime_handle ::
  "OutboundConnectionId \<Rightarrow> bool \<Rightarrow> 'h WireframeOutboundConnection" where
  "new_with_runtime_handle i runtime = \<lparr> oc_id = i, oc_runtime_handle = runtime, oc_handle = None \<rparr>"

definition register_handle ::
  "('r, 'h, 'q) WireframePush \<Rightarrow> 'h \<Rightarrow> 'h WireframeOutboundConnection \<Rightarrow> 'r WireframeOutboundRegistry \<Rightarrow>
   'h WireframeOutboundConnection \<times> 'r WireframeOutboundRegistry" where
  "register_handle w handle conn reg =
     (if oc_handle conn \<noteq> None then (conn, reg)
      else (conn\<lparr> oc_handle := Some handle \<rparr>, registry_insert w (oc_id conn) handle reg))"

definition map_push_error :: "PushError \<Rightarrow> OutboundError" where
  "map_push_error e = (case e of PE_QueueFull \<Rightarrow> QueueFull | _ \<Rightarrow> QueueClosed)"

definition push_bytes ::
  "('r, 'h, 'q) WireframePush \<Rightarrow> 'h \<Rightarrow> bytes \<Rightarrow> OutboundPriority \<Rightarrow> 'q \<Rightarrow> (OutboundError, unit) result \<times> 'q" where
  "push_bytes w handle bs priority q =
     (case (case priority of High \<Rightarrow> wp_push_high_priority w handle bs q
                           | Low \<Rightarrow> wp_push_low_priority w handle bs q) of
        (r, q') \<Rightarrow> (map_err map_push_error r, q'))"

definition wireframe_push ::
  "('r, 'h, 'q) WireframePush \<Rightarrow> 'h WireframeOutboundConnection \<Rightarrow> 'r WireframeOutboundRegistry \<Rightarrow>
   OutboundTarget \<Rightarrow> Transaction \<Rightarrow> OutboundPriority \<Rightarrow> 'q \<Rightarrow> (OutboundError, unit) result \<times> 'q" where
  "wireframe_push w conn reg target message priority q =
     (let maybe_handle = (case target of
            Current \<Rightarrow> oc_handle conn
          | Connection i \<Rightarrow> handle_for w i reg) in
      case maybe_handle of
        None \<Rightarrow> (Inl TargetUnavailable, q)
      | Some handle \<Rightarrow> push_bytes w handle (to_bytes message) priority q)"

fun broadcast_loop ::
  "('r, 'h, 'q) WireframePush \<Rightarrow> bytes \<Rightarrow> OutboundPriority \<Rightarrow> 'h list \<Rightarrow> 'q \<Rightarrow> (OutboundError, unit) result \<times> 'q" where
  "broadcast_loop w bs priority [] q = (Inr (), q)"
| "broadcast_loop w bs priority (h # hs) q =
     (case push_bytes w h bs priority q of
        (Inl e, q') \<Rightarrow> (Inl e, q')
      | (Inr _, q') \<Rightarrow> broadcast_loop w bs priority hs q')"

definition wireframe_broadcast ::
  "('r, 'h, 'q) WireframePush \<Rightarrow> 'r WireframeOutboundRegistry \<Rightarrow>
   Transaction \<Rightarrow> OutboundPriority \<Rightarrow> 'q \<Rightarrow> (OutboundError, unit) result \<times> 'q" where
  "wireframe_broadcast w reg message priority q =
     (let handles = active_handles w reg in
      if handles = [] then (Inl TargetUnavailable, q)
      else broadcast_loop w (to_bytes message) priority handles q)"

section \<open>Disconnecting\<close>

definition take_disconnect_notification ::
  "('r, 'h, 'q) WireframePush \<Rightarrow> 'h WireframeOutboundConnection \<Rightarrow> PresenceState \<Rightarrow> 'r WireframeOutboundRegistry \<Rightarrow>
   (i32 \<times> OutboundConnectionId list \<times> bytes) option \<times> PresenceState \<times> 'r WireframeOutboundRegistry" where
  "take_disconnect_notification w conn presence reg =
     (case presence_remove presence (oc_id conn) of (removal_result, presence') \<Rightarrow>
      (let reg' = registry_remove w (oc_id conn) reg in
       case removal_result of
         None \<Rightarrow> (None, presence', reg')
       | Some removal \<Rightarrow>
           (let user_id = ps_user_id (rm_departed removal) in
            case build_notify_delete_user user_id of
              Inl e \<Rightarrow> (None, presence', reg')
            | Inr message \<Rightarrow>
                (Some (user_id, rm_remaining_peer_ids removal, to_bytes message), presence', reg'))))"

text \<open>
  Dropping the connection: the last component is the task handed to the runtime,
  which pushes the bytes to the peers later.
\<close>

definition spawn_disconnect_notification ::
  "'h WireframeOutboundConnection \<Rightarrow> OutboundConnectionId list \<Rightarrow> bytes \<Rightarrow>
   (OutboundConnectionId list \<times> bytes) option" where
  "spawn_disconnect_notification conn peer_ids bs =
     (if oc_runtime_handle conn then Some (peer_ids, bs) else None)"

definition drop_connection ::
  "('r, 'h, 'q) WireframePush \<Rightarrow> 'h WireframeOutboundConnection \<Rightarrow> PresenceState \<Rightarrow> 'r WireframeOutboundRegistry \<Rightarrow>
   PresenceState \<times> 'r WireframeOutboundRegistry \<times> (OutboundConnectionId list \<times> bytes) option" where
  "drop_connection w conn presence reg =
     (case take_disconnect_notification w conn presence reg of
        (None, presence', reg') \<Rightarrow> (presence', reg', None)
      | (Some (user_id, peer_ids, bs), presence', reg') \<Rightarrow>
          (presence', reg', spawn_disconnect_notification conn peer_ids bs))"

definition push_disconnect_notification ::
  "('r, 'h, 'q) WireframePush \<Rightarrow> 'r WireframeOutboundRegistry \<Rightarrow> OutboundConnectionId \<Rightarrow> bytes \<Rightarrow> 'q \<Rightarrow> 'q" where
  "push_disconnect_notification w reg connection_id bs q =
     (case handle_for w connection_id reg of
        None \<Rightarrow> q
      | Some handle \<Rightarrow> snd (wp_push_high_priority w handle bs q))"

definition push_disconnect_notifications ::
  "('r, 'h, 'q) WireframePush \<Rightarrow> 'r WireframeOutboundRegistry \<Rightarrow> OutboundConnectionId list \<Rightarrow> bytes \<Rightarrow> 'q \<Rightarrow> 'q" where
  "push_disconnect_notifications w reg peer_ids bs q =
     fold (\<lambda>connection_id. push_disconnect_notification w reg connection_id bs) peer_ids q"

section \<open>A departure reaches the peers\<close>

lemma notification_parses:
  assumes "params_wf DECODE_ONLY ps" "length (wire_params ps) \<le> MAX_PAYLOAD_SIZE"
    and "params_wf (context_from_header (tx_header (server_notification ty (wire_params ps)))) ps"
  shows "parse_transaction (to_bytes (server_notification ty (wire_params ps))) =
    Inr (server_notification ty (wire_params ps))"
  using assms
  by (auto simp: parse_transaction_iff transaction_wf_def server_notification_def Let_def u32_try_from_def
      validate_payload_def validate_payload_parts_iff MAX_PAYLOAD_SIZE_def)

lemma build_notify_delete_user_eq:
  "build_notify_delete_user uid =
     Inr (server_notification T_NotifyDeleteUser (wire_params [(F_UserId, i32_to_be_bytes uid)]))"
  by (simp add: build_notify_delete_user_def encode_params_eq i32_to_be_bytes_def to_be_bytes_u32_def)

lemma single_param_wf: "canonical_field f \<Longrightarrow> length d \<le> u16_max \<Longrightarrow> params_wf ctx [(f, d)]"
  by (simp add: params_wf_def no_repeats_def)

lemma delete_notification_read:
  assumes "- 2147483648 \<le> uid" "uid < 2147483648"
  defines "tx \<equiv> server_notification T_NotifyDeleteUser (wire_params [(F_UserId, i32_to_be_bytes uid)])"
  shows "parse_transaction (to_bytes tx) = Inr tx"
    and "rbind (decode_params_map (tx_payload tx)) (\<lambda>m. required_param_i32 m F_UserId) = Inr uid"
proof -
  have wf: "params_wf ctx [(F_UserId, i32_to_be_bytes uid)]" for ctx
    by (rule single_param_wf) (simp_all add: i32_to_be_bytes_def to_be_bytes_u32_def canonical_field_named)
  show "parse_transaction (to_bytes tx) = Inr tx"
    unfolding tx_def
    by (rule notification_parses [OF wf _ wf])
      (simp add: wire_params_def field_entry_def i32_to_be_bytes_def to_be_bytes_u32_def
        to_be_bytes_u16_def MAX_PAYLOAD_SIZE_def)
  have "sint (of_int uid :: u32) = uid"
    using assms by (simp add: signed_of_int signed_take_bit_int_eq_self)
  then show "rbind (decode_params_map (tx_payload tx)) (\<lambda>m. required_param_i32 m F_UserId) = Inr uid"
    using wf [of DECODE_ONLY] decode_params_iff [of "tx_payload tx" "[(F_UserId, i32_to_be_bytes uid)]"]
    by (simp add: tx_def server_notification_def Let_def decode_params_map_def required_param_i32_def
        first_value_map_of i32_to_be_bytes_def to_be_bytes_u32_def)
qed

lemma disconnect_pushes:
  "push_disconnect_notifications w reg peers bs q =
     fold (\<lambda>h q. snd (wp_push_high_priority w h bs q)) (List.map_filter (\<lambda>i. handle_for w i reg) peers) q"
  unfolding push_disconnect_notifications_def
  by (induction peers arbitrary: q)
    (auto simp: push_disconnect_notification_def List.map_filter_simps split: option.split)

text \<open>
  C21: when a registered connection is dropped, it leaves the presence registry and
  the push registry and nothing else changes there; the task it leaves behind
  addresses every remaining online connection once, in order, with bytes that parse
  as a notify-delete-user transaction carrying the departed user's identifier, and,
  whenever it runs, pushes them once to each of those that then still has a handle.
\<close>

theorem disconnect_notifies_peers:
  assumes "presence_wf pr" "registry_laws w" "presence_at pr (oc_id conn) = Some p" "oc_runtime_handle conn"
    and "drop_connection w conn pr reg = (pr', reg', task)"
  shows "presence_wf pr' \<and> presence_at pr' = (presence_at pr)(oc_id conn := None)
    \<and> handle_for w (oc_id conn) reg' = None
    \<and> (\<forall>j. j \<noteq> oc_id conn \<longrightarrow> handle_for w j reg' = handle_for w j reg)
    \<and> (\<exists>tx. let peers = sorted_list_of_set (dom (presence_at pr) - {oc_id conn}) in
         task = Some (peers, to_bytes tx)
         \<and> parse_transaction (to_bytes tx) = Inr tx
         \<and> transaction_type_from_u16 (fh_ty (tx_header tx)) = T_NotifyDeleteUser
         \<and> rbind (decode_params_map (tx_payload tx)) (\<lambda>m. required_param_i32 m F_UserId) = Inr (ps_user_id p)
         \<and> (\<forall>reg2 q. push_disconnect_notifications w reg2 peers (to_bytes tx) q =
              fold (\<lambda>h q. snd (wp_push_high_priority w h (to_bytes tx) q))
                (List.map_filter (\<lambda>i. handle_for w i reg2) peers) q))"
proof -
  let ?tx = "server_notification T_NotifyDeleteUser (wire_params [(F_UserId, i32_to_be_bytes (ps_user_id p))])"
  let ?peers = "sorted_list_of_set (dom (presence_at pr) - {oc_id conn})"
  note rem = presence_remove_spec [OF assms(1), of "oc_id conn"]
  have "presence_remove pr (oc_id conn) =
      (Some \<lparr> rm_departed = p, rm_remaining_peer_ids = ?peers \<rparr>, snd (presence_remove pr (oc_id conn)))"
    using rem(3) assms(3) by (metis option.simps(9) prod.collapse)
  then have drop: "pr' = snd (presence_remove pr (oc_id conn))" "reg' = registry_remove w (oc_id conn) reg"
    "task = Some (?peers, to_bytes ?tx)"
    using assms(4,5)
    by (auto simp: drop_connection_def take_disconnect_notification_def spawn_disconnect_notification_def
        build_notify_delete_user_eq Let_def split: prod.splits)
  have "1 \<le> ps_user_id p \<and> ps_user_id p \<le> int u16_max"
    using assms(1,3) unfolding presence_wf_def by blast
  then have "parse_transaction (to_bytes ?tx) = Inr ?tx"
    "rbind (decode_params_map (tx_payload ?tx)) (\<lambda>m. required_param_i32 m F_UserId) = Inr (ps_user_id p)"
    by (intro delete_notification_read; simp)+
  moreover have "transaction_type_from_u16 (fh_ty (tx_header ?tx)) = T_NotifyDeleteUser"
    by (simp add: server_notification_def Let_def transaction_type_from_u16_def)
  moreover have "handle_for w (oc_id conn) reg' = None"
    "\<forall>j. j \<noteq> oc_id conn \<longrightarrow> handle_for w j reg' = handle_for w j reg"
    using assms(2) by (simp_all add: drop handle_for_def registry_remove_def registry_laws_def)
  moreover have "\<forall>reg2 q. push_disconnect_notifications w reg2 ?peers (to_bytes ?tx) q =
      fold (\<lambda>h q. snd (wp_push_high_priority w h (to_bytes ?tx) q))
        (List.map_filter (\<lambda>i. handle_for w i reg2) ?peers) q"
    by (simp add: disconnect_pushes)
  moreover have "presence_wf pr'" "presence_at pr' = (presence_at pr)(oc_id conn := None)"
    using rem(1,2) drop(1) by simp_all
  ultimately show ?thesis
    unfolding Let_def using drop(3) by (intro conjI exI [of _ ?tx]) assumption+
qed

text \<open>A push interface with an association list for a registry and a log for the queues.\<close>

definition list_push :: "((u64 \<times> nat) list, nat, (nat \<times> bytes) list) WireframePush" where
  "list_push = \<lparr> wp_empty = [], wp_insert = AList.update, wp_remove = AList.delete,
     wp_get = (\<lambda>i r. map_of r i), wp_active_handles = (\<lambda>r. r),
     wp_push_high_priority = (\<lambda>h bs q. (Inr (), q @ [(h, bs)])),
     wp_push_low_priority = (\<lambda>h bs q. (Inl PE_QueueFull, q)) \<rparr>"

lemma list_push_laws: "registry_laws list_push"
  by (simp add: registry_laws_def list_push_def update_conv' delete_conv')

definition sample_connection :: "nat WireframeOutboundConnection" where
  "sample_connection = \<lparr> oc_id = 5, oc_runtime_handle = True, oc_handle = Some 50 \<rparr>"

definition sample_sessions :: "(u64 \<times> nat) list WireframeOutboundRegistry" where
  "sample_sessions = \<lparr> wr_next_id = 6, wr_sessions = [(5, 50), (2, 20)] \<rparr>"

theorem disconnect_notifies_peers_witness:
  "\<exists>pr' reg' tx. drop_connection list_push sample_connection sample_registry sample_sessions =
       (pr', reg', Some ([2], to_bytes tx))
     \<and> parse_transaction (to_bytes tx) = Inr tx
     \<and> push_disconnect_notifications list_push reg' [2] (to_bytes tx) [] = [(20, to_bytes tx)]"
proof -
  obtain pr' reg' task where drop:
    "drop_connection list_push sample_connection sample_registry sample_sessions = (pr', reg', task)"
    by (metis prod_cases3)
  have at: "presence_at sample_registry (oc_id sample_connection) = Some ((sample_snapshot 5)\<lparr> ps_user_id := 1 \<rparr>)"
    by (simp add: sample_connection_def)
  have dom: "dom (presence_at sample_registry) - {5} = {2}"
    by (auto simp: presence_at_def sample_registry_eq split: if_splits)
  have reg': "handle_for list_push 2 reg' = Some 20"
    using drop by (auto simp: drop_connection_def take_disconnect_notification_def registry_remove_def
        handle_for_def list_push_def sample_sessions_def sample_connection_def delete_conv' Let_def
        split: prod.splits option.splits sum.splits)
  show ?thesis
    using disconnect_notifies_peers [OF presence_reachable_wf [OF sample_registry_reachable] list_push_laws at _ drop]
      reg' drop dom
    by (auto simp: sample_connection_def Let_def List.map_filter_simps) (auto simp: list_push_def)
qed

end
