(* ===== verification/Transaction_Stream.thy ===== *)
theory Transaction_Stream
  imports Transactions
begin

text \<open>
  Reading and writing transactions over a byte stream: read_frame and write_frame
  of src/src/transaction/frame.rs, the buffered reader and the streaming reader of
  src/src/transaction/reader/, and the fragmenting writer of
  src/src/transaction/writer.rs.  The socket is a parameter: a source holds the
  bytes it will deliver and what happens once they are used up, a sink holds what
  was written, how much more it takes and how it fails.
\<close>

section \<open>The two ends of a socket\<close>

text \<open>How an exhausted source or a full sink answers: end of file, another I/O error, or silence
  until the timeout of \<^verbatim>\<open>io_with_timeout\<close> fires.\<close>

datatype io_end = End_Eof | End_Fault | End_Stall

fun io_with_timeout :: "io_end \<Rightarrow> TransactionError" where
  "io_with_timeout End_Eof = Io UnexpectedEof"
| "io_with_timeout End_Fault = Io OtherIo"
| "io_with_timeout End_Stall = Timeout"

record byte_source =
  src_data :: bytes
  src_end :: io_end

definition read_timeout_exact :: "byte_source \<Rightarrow> nat \<Rightarrow> (bytes \<times> byte_source) tx_result" where
  "read_timeout_exact r n =
     (if n \<le> length (src_data r)
      then Inr (take n (src_data r), r\<lparr> src_data := drop n (src_data r) \<rparr>)
      else Inl (io_with_timeout (src_end r)))"

record byte_sink =
  snk_written :: bytes
  snk_room :: "nat option"
  snk_end :: io_end
  snk_flush_fault :: "io_end option"

text \<open>A sink that takes no more bytes is not an end of file for the writer.\<close>

fun sink_with_timeout :: "io_end \<Rightarrow> TransactionError" where
  "sink_with_timeout End_Eof = Io WriteZero"
| "sink_with_timeout e = io_with_timeout e"

definition write_timeout_all :: "byte_sink \<Rightarrow> bytes \<Rightarrow> unit tx_result \<times> byte_sink" where
  "write_timeout_all w buf =
     (case snk_room w of
        None \<Rightarrow> (Inr (), w\<lparr> snk_written := snk_written w @ buf \<rparr>)
      | Some n \<Rightarrow>
          (if length buf \<le> n
           then (Inr (), w\<lparr> snk_written := snk_written w @ buf, snk_room := Some (n - length buf) \<rparr>)
           else (Inl (sink_with_timeout (snk_end w)),
                 w\<lparr> snk_written := snk_written w @ take n buf, snk_room := Some 0 \<rparr>)))"

section \<open>Single frames\<close>

definition read_frame ::
  "byte_source \<Rightarrow> nat \<Rightarrow> ((FrameHeader \<times> bytes) \<times> byte_source) tx_result" where
  "read_frame rdr max_total =
     rbind (read_timeout_exact rdr HEADER_LEN) (\<lambda>(hdr_buf, rdr1).
       let hdr = from_bytes hdr_buf in
       if unat (fh_total_size hdr) > max_total then Inl PayloadTooLarge
       else if unat (fh_data_size hdr) > MAX_FRAME_DATA then Inl PayloadTooLarge
       else rbind (read_timeout_exact rdr1 (unat (fh_data_size hdr))) (\<lambda>(data, rdr2).
              Inr ((hdr, data), rdr2)))"

definition write_frame ::
  "byte_sink \<Rightarrow> FrameHeader \<Rightarrow> bytes \<Rightarrow> unit tx_result \<times> byte_sink" where
  "write_frame wtr hdr chunk =
     (case u32_try_from (length chunk) of
        None \<Rightarrow> (Inl PayloadTooLarge, wtr)
      | Some n \<Rightarrow>
          (case write_timeout_all wtr (write_bytes (hdr\<lparr> fh_data_size := n \<rparr>)) of
             (Inl e, wtr1) \<Rightarrow> (Inl e, wtr1)
           | (Inr _, wtr1) \<Rightarrow> write_timeout_all wtr1 chunk))"

section \<open>The buffered reader\<close>

definition headers_match :: "FrameHeader \<Rightarrow> FrameHeader \<Rightarrow> bool" where
  "headers_match first next \<longleftrightarrow>
     fh_ty next = fh_ty first \<and> fh_id next = fh_id first \<and> fh_error next = fh_error first
     \<and> fh_total_size next = fh_total_size first \<and> fh_flags next = fh_flags first
     \<and> fh_is_reply next = fh_is_reply first"

definition validate_first_header :: "FrameHeader \<Rightarrow> nat \<Rightarrow> unit tx_result" where
  "validate_first_header header max_payload =
     (if fh_flags header \<noteq> 0 then Inl InvalidFlags
      else if unat (fh_total_size header) > max_payload then Inl PayloadTooLarge
      else if fh_data_size header > fh_total_size header then Inl SizeMismatch
      else if fh_data_size header = 0 \<and> fh_total_size header > 0 then Inl SizeMismatch
      else Inr ())"

definition validate_continuation_frame ::
  "FrameHeader \<Rightarrow> FrameHeader \<Rightarrow> u32 \<Rightarrow> unit tx_result" where
  "validate_continuation_frame first next remaining =
     (if \<not> headers_match first next then Inl HeaderMismatch
      else if fh_data_size next = 0 \<or> fh_data_size next > remaining then Inl SizeMismatch
      else Inr ())"

record TransactionReader =
  tr_reader :: byte_source
  tr_max_payload :: nat

definition reader_new :: "byte_source \<Rightarrow> TransactionReader" where
  "reader_new r = \<lparr> tr_reader = r, tr_max_payload = MAX_PAYLOAD_SIZE \<rparr>"

definition reader_with_max_payload :: "TransactionReader \<Rightarrow> nat \<Rightarrow> TransactionReader" where
  "reader_with_max_payload tr n = tr\<lparr> tr_max_payload := n \<rparr>"

lemma word_sub_less: "d \<noteq> 0 \<Longrightarrow> d \<le> r \<Longrightarrow> unat (r - d) < unat (r :: u32)"
  using unat_eq_0 [of d] by (simp add: unat_sub word_le_nat_alt del: unat_eq_0)

function read_remaining ::
  "FrameHeader \<Rightarrow> nat \<Rightarrow> u32 \<Rightarrow> bytes \<Rightarrow> byte_source \<Rightarrow> (bytes \<times> byte_source) tx_result" where
  "read_remaining header max_payload remaining payload rdr =
     (if remaining > 0 then
        rbind (read_frame rdr max_payload) (\<lambda>((next_hdr, chunk), rdr').
        rbind (validate_continuation_frame header next_hdr remaining) (\<lambda>_.
          read_remaining header max_payload (remaining - fh_data_size next_hdr) (payload @ chunk) rdr'))
      else Inr (payload, rdr))"
  by pat_completeness auto
termination
  by (relation "measure (\<lambda>(_, _, remaining, _, _). unat remaining)")
    (auto simp: validate_continuation_frame_def word_sub_less not_less split: if_splits)

declare read_remaining.simps [simp del]

definition read_transaction :: "TransactionReader \<Rightarrow> (Transaction \<times> TransactionReader) tx_result" where
  "read_transaction tr =
     rbind (read_frame (tr_reader tr) (tr_max_payload tr)) (\<lambda>((header, payload0), rdr1).
     rbind (validate_first_header header (tr_max_payload tr)) (\<lambda>_.
     rbind (read_remaining header (tr_max_payload tr)
              (fh_total_size header - fh_data_size header) payload0 rdr1) (\<lambda>(payload, rdr2).
       let tx = \<lparr> tx_header = header\<lparr> fh_data_size := fh_total_size header \<rparr>,
                  tx_payload = payload \<rparr> in
       rbind (validate_payload tx) (\<lambda>_. Inr (tx, tr\<lparr> tr_reader := rdr2 \<rparr>)))))"

section \<open>The streaming reader\<close>

record TransactionFragment =
  tf_header :: FrameHeader
  tf_payload :: bytes
  tf_offset :: u32
  tf_is_last :: bool

record StreamingTransactionInit =
  si_first_hdr :: FrameHeader
  si_first_chunk :: bytes
  si_remaining :: u32
  si_max_total :: nat

record StreamingTransaction =
  st_reader :: byte_source
  st_first_header :: FrameHeader
  st_remaining :: u32
  st_offset :: u32
  st_pending_first :: "bytes option"
  st_max_total :: nat

record TransactionStreamReader =
  sr_reader :: byte_source
  sr_max_total :: nat

definition validate_first_frame ::
  "byte_source \<Rightarrow> nat \<Rightarrow> ((FrameHeader \<times> bytes \<times> u32) \<times> byte_source) tx_result" where
  "validate_first_frame rdr max_limit =
     rbind (read_frame rdr max_limit) (\<lambda>((first_hdr, first_chunk), rdr').
     rbind (validate_first_header first_hdr max_limit) (\<lambda>_.
       Inr ((first_hdr, first_chunk, fh_total_size first_hdr - fh_data_size first_hdr), rdr')))"

definition build_streaming_transaction ::
  "byte_source \<Rightarrow> StreamingTransactionInit \<Rightarrow> StreamingTransaction" where
  "build_streaming_transaction rdr init =
     \<lparr> st_reader = rdr, st_first_header = si_first_hdr init, st_remaining = si_remaining init,
       st_offset = 0, st_pending_first = Some (si_first_chunk init),
       st_max_total = si_max_total init \<rparr>"

definition read_streaming_transaction :: "TransactionReader \<Rightarrow> StreamingTransaction tx_result" where
  "read_streaming_transaction tr =
     rbind (validate_first_frame (tr_reader tr) (tr_max_payload tr))
       (\<lambda>((first_hdr, first_chunk, remaining), rdr).
         Inr (build_streaming_transaction rdr
           \<lparr> si_first_hdr = first_hdr, si_first_chunk = first_chunk, si_remaining = remaining,
             si_max_total = tr_max_payload tr \<rparr>))"

definition stream_reader_new :: "byte_source \<Rightarrow> TransactionStreamReader" where
  "stream_reader_new r = \<lparr> sr_reader = r, sr_max_total = MAX_PAYLOAD_SIZE \<rparr>"

definition stream_reader_with_max_total ::
  "TransactionStreamReader \<Rightarrow> nat \<Rightarrow> TransactionStreamReader" where
  "stream_reader_with_max_total sr n = sr\<lparr> sr_max_total := n \<rparr>"

definition start_transaction :: "TransactionStreamReader \<Rightarrow> StreamingTransaction tx_result" where
  "start_transaction sr =
     rbind (validate_first_frame (sr_reader sr) (sr_max_total sr))
       (\<lambda>((first_hdr, first_chunk, remaining), rdr).
         Inr (build_streaming_transaction rdr
           \<lparr> si_first_hdr = first_hdr, si_first_chunk = first_chunk, si_remaining = remaining,
             si_max_total = sr_max_total sr \<rparr>))"

definition next_fragment ::
  "StreamingTransaction \<Rightarrow> (TransactionFragment option \<times> StreamingTransaction) tx_result" where
  "next_fragment st =
     (case st_pending_first st of
        Some first \<Rightarrow>
          Inr (Some \<lparr> tf_header = st_first_header st, tf_payload = first, tf_offset = 0,
                      tf_is_last = (st_remaining st = 0) \<rparr>,
               st\<lparr> st_pending_first := None, st_offset := fh_data_size (st_first_header st) \<rparr>)
      | None \<Rightarrow>
          if st_remaining st = 0 then Inr (None, st)
          else
            rbind (read_frame (st_reader st) (st_max_total st)) (\<lambda>((next_hdr, chunk), rdr).
            rbind (validate_continuation_frame (st_first_header st) next_hdr (st_remaining st)) (\<lambda>_.
              let remaining = st_remaining st - fh_data_size next_hdr in
              Inr (Some \<lparr> tf_header = next_hdr, tf_payload = chunk, tf_offset = st_offset st,
                          tf_is_last = (remaining = 0) \<rparr>,
                   st\<lparr> st_reader := rdr, st_remaining := remaining,
                       st_offset := st_offset st + fh_data_size next_hdr \<rparr>))))"

text \<open>A client that calls \<^verbatim>\<open>next_fragment\<close> until it answers \<^verbatim>\<open>None\<close>.\<close>

function drain_fragments ::
  "StreamingTransaction \<Rightarrow> (TransactionFragment list \<times> StreamingTransaction) tx_result" where
  "drain_fragments st =
     rbind (next_fragment st) (\<lambda>(f, st').
       case f of
         None \<Rightarrow> Inr ([], st')
       | Some frag \<Rightarrow> rbind (drain_fragments st') (\<lambda>(fs, st''). Inr (frag # fs, st'')))"
  by pat_completeness auto
termination
  by (relation "measure (\<lambda>st. unat (st_remaining st) + (if st_pending_first st = None then 0 else 1))")
    (auto simp: next_fragment_def validate_continuation_frame_def word_sub_less not_less Let_def
      split: if_splits option.splits)

declare drain_fragments.simps [simp del]

section \<open>The writer\<close>

record TransactionWriter =
  tw_writer :: byte_sink
  tw_max_frame :: nat
  tw_max_payload :: nat

definition writer_new :: "byte_sink \<Rightarrow> TransactionWriter" where
  "writer_new w =
     \<lparr> tw_writer = w, tw_max_frame = MAX_FRAME_DATA, tw_max_payload = MAX_PAYLOAD_SIZE \<rparr>"

definition with_max_frame :: "TransactionWriter \<Rightarrow> nat \<Rightarrow> TransactionWriter" where
  "with_max_frame tw max_frame =
     tw\<lparr> tw_max_frame := (if max_frame = 0 then 1
                          else if max_frame > MAX_FRAME_DATA then MAX_FRAME_DATA
                          else max_frame) \<rparr>"

definition writer_with_max_payload :: "TransactionWriter \<Rightarrow> nat \<Rightarrow> TransactionWriter" where
  "writer_with_max_payload tw n = tw\<lparr> tw_max_payload := n \<rparr>"

definition flush_timeout :: "byte_sink \<Rightarrow> unit tx_result" where
  "flush_timeout w =
     (case snk_flush_fault w of None \<Rightarrow> Inr () | Some e \<Rightarrow> Inl (io_with_timeout e))"

text \<open>The two emission loops; \<open>None\<close> is a loop that does not end.\<close>

partial_function (option) write_chunks ::
  "FrameHeader \<Rightarrow> bytes \<Rightarrow> nat \<Rightarrow> nat \<Rightarrow> byte_sink \<Rightarrow> (unit tx_result \<times> byte_sink) option" where
  "write_chunks hdr payload max_frame offset w =
     (if offset < length payload then
        (let end' = min (offset + max_frame) (length payload) in
         if \<not> (offset \<le> end' \<and> end' \<le> length payload) then Some (Inl SizeMismatch, w)
         else (case write_frame w hdr (slice offset end' payload) of
           (Inl e, w') \<Rightarrow> Some (Inl e, w')
         | (Inr _, w') \<Rightarrow> write_chunks hdr payload max_frame end' w'))
      else Some (Inr (), w))"

definition write_transaction ::
  "TransactionWriter \<Rightarrow> Transaction \<Rightarrow> (unit tx_result \<times> TransactionWriter) option" where
  "write_transaction tw tx =
     (if fh_flags (tx_header tx) \<noteq> 0 then Some (Inl InvalidFlags, tw)
      else (case validate_payload tx of
        Inl e \<Rightarrow> Some (Inl e, tw)
      | Inr _ \<Rightarrow>
          if unat (fh_total_size (tx_header tx)) > tw_max_payload tw
          then Some (Inl PayloadTooLarge, tw)
          else
            map_option (\<lambda>(r, w). (rbind r (\<lambda>_. flush_timeout w), tw\<lparr> tw_writer := w \<rparr>))
              (if tx_payload tx = [] then Some (write_frame (tw_writer tw) (tx_header tx) [])
               else write_chunks (tx_header tx) (tx_payload tx) (tw_max_frame tw) 0 (tw_writer tw))))"

fun map_eof_to_size_mismatch :: "TransactionError \<Rightarrow> TransactionError" where
  "map_eof_to_size_mismatch (Io UnexpectedEof) = SizeMismatch"
| "map_eof_to_size_mismatch err = err"

partial_function (option) stream_chunks ::
  "FrameHeader \<Rightarrow> nat \<Rightarrow> u32 \<Rightarrow> byte_source \<Rightarrow> byte_sink \<Rightarrow> (unit tx_result \<times> byte_sink) option" where
  "stream_chunks hdr max_frame sent source w =
     (if sent < fh_total_size hdr then
        (let to_read = min (unat (fh_total_size hdr - sent)) max_frame in
         if to_read > max_frame then Some (Inl PayloadTooLarge, w)
         else (case map_err map_eof_to_size_mismatch (read_timeout_exact source to_read) of
           Inl e \<Rightarrow> Some (Inl e, w)
         | Inr (chunk, source') \<Rightarrow>
             (case write_frame w hdr chunk of
                (Inl e, w') \<Rightarrow> Some (Inl e, w')
              | (Inr _, w') \<Rightarrow>
                  (case u32_try_from to_read of
                     None \<Rightarrow> Some (Inl PayloadTooLarge, w')
                   | Some n \<Rightarrow> stream_chunks hdr max_frame (sent + n) source' w'))))
      else Some (Inr (), w))"

definition write_streaming ::
  "TransactionWriter \<Rightarrow> FrameHeader \<Rightarrow> byte_source \<Rightarrow> (unit tx_result \<times> TransactionWriter) option" where
  "write_streaming tw hdr source =
     (if fh_flags hdr \<noteq> 0 then Some (Inl InvalidFlags, tw)
      else if unat (fh_total_size hdr) > tw_max_payload tw then Some (Inl PayloadTooLarge, tw)
      else
        map_option (\<lambda>(r, w). (rbind r (\<lambda>_. flush_timeout w), tw\<lparr> tw_writer := w \<rparr>))
          (if fh_total_size hdr = 0 then Some (write_frame (tw_writer tw) hdr [])
           else stream_chunks hdr (tw_max_frame tw) 0 source (tw_writer tw)))"

section \<open>Fragmentation as a reference definition\<close>

definition frame_bytes :: "FrameHeader \<Rightarrow> bytes \<Rightarrow> bytes" where
  "frame_bytes hdr chunk = write_bytes (hdr\<lparr> fh_data_size := of_nat (length chunk) \<rparr>) @ chunk"

definition frames_bytes :: "FrameHeader \<Rightarrow> bytes list \<Rightarrow> bytes" where
  "frames_bytes hdr chunks = concat (map (frame_bytes hdr) chunks)"

function chop :: "nat \<Rightarrow> 'a list \<Rightarrow> 'a list list" where
  "chop n xs = (if xs = [] \<or> n = 0 then [] else take n xs # chop n (drop n xs))"
  by pat_completeness auto
termination
  by (relation "measure (\<lambda>(n, xs). length xs)") auto

declare chop.simps [simp del]

definition fragments :: "nat \<Rightarrow> 'a list \<Rightarrow> 'a list list" where
  "fragments n xs = (if xs = [] then [[]] else chop n xs)"

text \<open>A fragmentation a reader takes: either the single empty frame, or non-empty frames only.\<close>

definition fragmentation :: "nat \<Rightarrow> 'a list list \<Rightarrow> 'a list \<Rightarrow> bool" where
  "fragmentation n chunks xs \<longleftrightarrow>
     concat chunks = xs \<and> (\<forall>c\<in>set chunks. length c \<le> n)
     \<and> (chunks = [[]] \<or> chunks \<noteq> [] \<and> [] \<notin> set chunks)"

lemma concat_chop [simp]: "0 < n \<Longrightarrow> concat (chop n xs) = xs"
  by (induction n xs rule: chop.induct) (subst chop.simps, auto)

lemma set_chop: "c \<in> set (chop n xs) \<Longrightarrow> c \<noteq> [] \<and> length c \<le> n"
  by (induction n xs rule: chop.induct) (subst (asm) (2) chop.simps, auto split: if_splits)

lemma chop_eq_Nil [simp]: "0 < n \<Longrightarrow> chop n xs = [] \<longleftrightarrow> xs = []"
  by (subst chop.simps) simp

lemma fragmentation_fragments: "0 < n \<Longrightarrow> fragmentation n (fragments n xs) xs"
  using set_chop [of _ n xs] concat_chop [of n xs]
  by (auto simp: fragmentation_def fragments_def)

lemma fragmentation_mono: "fragmentation n chunks xs \<Longrightarrow> n \<le> m \<Longrightarrow> fragmentation m chunks xs"
  by (auto simp: fragmentation_def)

section \<open>What the writer emits\<close>

definition then_write ::
  "unit tx_result \<times> byte_sink \<Rightarrow> bytes \<Rightarrow> unit tx_result \<times> byte_sink" where
  "then_write p b = (case p of (Inl e, w) \<Rightarrow> (Inl e, w) | (Inr _, w) \<Rightarrow> write_timeout_all w b)"

lemma write_timeout_all_append:
  "then_write (write_timeout_all w a) b = write_timeout_all w (a @ b)"
  by (auto simp: then_write_def write_timeout_all_def split: option.splits)

lemma write_timeout_all_Nil [simp]: "write_timeout_all w [] = (Inr (), w)"
  by (cases w) (auto simp: write_timeout_all_def split: option.splits)

lemma write_frame_eq:
  "length chunk \<le> u32_max \<Longrightarrow> write_frame w hdr chunk = write_timeout_all w (frame_bytes hdr chunk)"
  using write_timeout_all_append [of w "write_bytes (hdr\<lparr>fh_data_size := of_nat (length chunk)\<rparr>)" chunk]
  by (simp add: write_frame_def frame_bytes_def u32_try_from_def then_write_def)

lemma write_chunks_eq:
  assumes "0 < n" "n \<le> u32_max"
  shows "write_chunks hdr payload n offset w =
    Some (write_timeout_all w (frames_bytes hdr (chop n (drop offset payload))))"
proof (induction "length payload - offset" arbitrary: offset w rule: less_induct)
  case less
  show ?case
  proof (cases "offset < length payload")
    case False
    then show ?thesis
      by (simp add: write_chunks.simps [of _ _ _ offset] chop.simps frames_bytes_def)
  next
    case True
    let ?stop = "min (offset + n) (length payload)" and ?xs = "drop offset payload"
    have slice: "slice offset ?stop payload = take n ?xs"
      using True by (auto simp: slice_def min_def)
    have chop: "chop n ?xs = take n ?xs # chop n (drop ?stop payload)"
      using True assms by (subst chop.simps) (auto simp: min_def add.commute)
    have len: "length (take n ?xs) \<le> u32_max" using assms by simp
    obtain r w' where wf: "write_timeout_all w (frame_bytes hdr (take n ?xs)) = (r, w')"
      by fastforce
    have wfr: "write_frame w hdr (slice offset ?stop payload) = (r, w')"
      using wf by (simp only: slice write_frame_eq [OF len])
    have step: "write_chunks hdr payload n offset w =
      (case (r, w') of (Inl e, w') \<Rightarrow> Some (Inl e, w')
       | (Inr _, w') \<Rightarrow> write_chunks hdr payload n ?stop w')"
      using True wfr by (simp add: write_chunks.simps [of _ _ _ offset] Let_def)
    have IH: "write_chunks hdr payload n ?stop w' =
      Some (write_timeout_all w' (frames_bytes hdr (chop n (drop ?stop payload))))"
      using True assms by (intro less) auto
    show ?thesis
      unfolding step chop frames_bytes_def list.map concat.simps
        write_timeout_all_append [symmetric] wf
      by (cases r) (simp_all add: then_write_def IH [unfolded frames_bytes_def])
  qed
qed

text \<open>The invariant of a writer: its frames are not empty and a reader takes them.\<close>

definition writer_wf :: "TransactionWriter \<Rightarrow> bool" where
  "writer_wf tw \<longleftrightarrow> 0 < tw_max_frame tw \<and> tw_max_frame tw \<le> MAX_FRAME_DATA"

lemma writer_wf_intros [wf_intros]:
  "writer_wf (writer_new w)"
  "writer_wf (with_max_frame tw n)"
  "writer_wf tw \<Longrightarrow> writer_wf (writer_with_max_payload tw m)"
  by (auto simp: writer_wf_def writer_new_def with_max_frame_def writer_with_max_payload_def)

lemma write_transaction_eq:
  assumes "writer_wf tw" "fh_flags (tx_header tx) = 0" "validate_payload tx = Inr ()"
    and "unat (fh_total_size (tx_header tx)) \<le> tw_max_payload tw"
  shows "write_transaction tw tx =
    Some (case write_timeout_all (tw_writer tw)
        (frames_bytes (tx_header tx) (fragments (tw_max_frame tw) (tx_payload tx))) of
      (r, w) \<Rightarrow> (rbind r (\<lambda>_. flush_timeout w), tw\<lparr> tw_writer := w \<rparr>))"
proof -
  have "0 < tw_max_frame tw" "tw_max_frame tw \<le> u32_max"
    using assms(1) by (simp_all add: writer_wf_def)
  note emit = write_chunks_eq [OF this, of "tx_header tx" "tx_payload tx" 0 "tw_writer tw"]
  show ?thesis
    using assms emit
    by (auto simp: write_transaction_def fragments_def frames_bytes_def write_frame_eq
        split: prod.splits)
qed

section \<open>What the reader takes\<close>

lemma read_timeout_exact_append:
  "src_data r = xs @ rest \<Longrightarrow> length xs = n \<Longrightarrow>
     read_timeout_exact r n = Inr (xs, r\<lparr> src_data := rest \<rparr>)"
  by (simp add: read_timeout_exact_def)

lemma read_frame_frame:
  assumes "src_data r = frame_bytes hdr chunk @ rest"
    and "length chunk \<le> MAX_FRAME_DATA" "unat (fh_total_size hdr) \<le> max_total"
  shows "read_frame r max_total =
    Inr ((hdr\<lparr> fh_data_size := of_nat (length chunk) \<rparr>, chunk), r\<lparr> src_data := rest \<rparr>)"
proof -
  let ?h = "hdr\<lparr> fh_data_size := of_nat (length chunk) \<rparr>"
  have "read_timeout_exact r HEADER_LEN = Inr (write_bytes ?h, r\<lparr> src_data := chunk @ rest \<rparr>)"
    using assms(1) by (intro read_timeout_exact_append) (simp_all add: frame_bytes_def)
  moreover have "read_timeout_exact (r\<lparr> src_data := chunk @ rest \<rparr>) (length chunk) =
      Inr (chunk, r\<lparr> src_data := rest \<rparr>)"
    by (simp add: read_timeout_exact_def)
  ultimately show ?thesis
    using assms(2,3) by (simp add: read_frame_def Let_def)
qed

lemma read_frame_inv:
  assumes "read_frame r max_total = Inr ((hdr, chunk), r')"
  shows "src_data r = frame_bytes hdr chunk @ src_data r' \<and> r' = r\<lparr> src_data := src_data r' \<rparr>
    \<and> length chunk = unat (fh_data_size hdr) \<and> length chunk \<le> MAX_FRAME_DATA
    \<and> unat (fh_total_size hdr) \<le> max_total"
proof -
  from assms have len: "20 \<le> length (src_data r)"
    and hdr: "hdr = from_bytes (take 20 (src_data r))"
    and data: "unat (fh_data_size hdr) \<le> length (src_data r) - 20"
      "chunk = take (unat (fh_data_size hdr)) (drop 20 (src_data r))"
      "r' = r\<lparr> src_data := drop (unat (fh_data_size hdr)) (drop 20 (src_data r)) \<rparr>"
    and lim: "unat (fh_total_size hdr) \<le> max_total" "unat (fh_data_size hdr) \<le> MAX_FRAME_DATA"
    by (auto simp: read_frame_def read_timeout_exact_def Let_def split: if_splits)
  from data have chunk_len: "length chunk = unat (fh_data_size hdr)" by simp
  then have "hdr\<lparr> fh_data_size := of_nat (length chunk) \<rparr> = hdr" by simp
  moreover from hdr len have "write_bytes hdr = take 20 (src_data r)" by simp
  moreover have "src_data r = take 20 (src_data r) @ take k (drop 20 (src_data r))
      @ drop k (drop 20 (src_data r))" for k
    by (simp only: append_take_drop_id)
  moreover from data(3) have
    "src_data r' = drop (unat (fh_data_size hdr)) (drop 20 (src_data r))" by simp
  ultimately have "src_data r = frame_bytes hdr chunk @ src_data r'"
    unfolding frame_bytes_def data(2) by (metis append_assoc)
  then show ?thesis
    using data lim chunk_len by simp
qed

definition reader_at :: "bytes \<Rightarrow> io_end \<Rightarrow> nat \<Rightarrow> TransactionReader" where
  "reader_at data e max_payload =
     \<lparr> tr_reader = \<lparr> src_data = data, src_end = e \<rparr>, tr_max_payload = max_payload \<rparr>"

lemma headers_match_data_size [simp]:
  "headers_match (h\<lparr> fh_data_size := a \<rparr>) (h\<lparr> fh_data_size := b \<rparr>)"
  by (simp add: headers_match_def)

lemma read_remaining_frames:
  assumes "src_data r = frames_bytes hdr chunks @ rest"
    and "\<forall>c\<in>set chunks. c \<noteq> [] \<and> length c \<le> MAX_FRAME_DATA"
    and "unat remaining = length (concat chunks)"
    and "unat (fh_total_size hdr) \<le> max_payload"
  shows "read_remaining (hdr\<lparr> fh_data_size := d \<rparr>) max_payload remaining payload r =
    Inr (payload @ concat chunks, r\<lparr> src_data := rest \<rparr>)"
  using assms
proof (induction chunks arbitrary: r remaining payload)
  case Nil
  then have "remaining = 0" by (simp add: unat_eq_0)
  with Nil show ?case by (simp add: read_remaining.simps frames_bytes_def)
next
  case (Cons c cs)
  let ?n = "of_nat (length c) :: u32"
  have c: "c \<noteq> []" "length c \<le> MAX_FRAME_DATA" using Cons.prems(2) by auto
  then have n: "unat ?n = length c" by simp
  have sum: "unat remaining = length c + length (concat cs)" using Cons.prems(3) by simp
  then have le: "?n \<le> remaining" "0 < remaining" "?n \<noteq> 0"
    using c n by (simp_all add: word_le_nat_alt word_less_nat_alt unat_eq_0 flip: unat_eq_0)
  have rf: "read_frame r max_payload = Inr ((hdr\<lparr> fh_data_size := ?n \<rparr>, c),
      r\<lparr> src_data := frames_bytes hdr cs @ rest \<rparr>)"
    using Cons.prems(1,4) c by (intro read_frame_frame) (simp_all add: frames_bytes_def)
  have "unat (remaining - ?n) = length (concat cs)"
    using le sum n by (simp add: unat_sub)
  then have IH: "read_remaining (hdr\<lparr> fh_data_size := d \<rparr>) max_payload (remaining - ?n) (payload @ c)
      (r\<lparr> src_data := frames_bytes hdr cs @ rest \<rparr>) =
      Inr ((payload @ c) @ concat cs, r\<lparr> src_data := rest \<rparr>)"
    using Cons.IH [of "r\<lparr> src_data := frames_bytes hdr cs @ rest \<rparr>" "remaining - ?n"]
      Cons.prems(2,4) by simp
  show ?case
    using le IH by (simp add: read_remaining.simps [of _ _ remaining] rf validate_continuation_frame_def
        not_less)
qed

lemma read_transaction_frames:
  assumes "fragmentation MAX_FRAME_DATA chunks (tx_payload tx)"
    and "fh_flags (tx_header tx) = 0" "validate_payload tx = Inr ()"
    and "unat (fh_total_size (tx_header tx)) \<le> max_payload"
  shows "read_transaction (reader_at (frames_bytes (tx_header tx) chunks @ rest) e max_payload) =
    Inr (tx\<lparr> tx_header := (tx_header tx)\<lparr> fh_data_size := fh_total_size (tx_header tx) \<rparr> \<rparr>,
         reader_at rest e max_payload)"
proof -
  let ?h = "tx_header tx"
  from assms(1) obtain c cs where chunks: "chunks = c # cs"
    and cat: "c @ concat cs = tx_payload tx"
    and c: "length c \<le> MAX_FRAME_DATA"
    and cs: "\<forall>c\<in>set cs. c \<noteq> [] \<and> length c \<le> MAX_FRAME_DATA"
    and empty: "c = [] \<Longrightarrow> cs = []"
    by (cases chunks) (auto simp: fragmentation_def)
  have tot: "unat (fh_total_size ?h) = length c + length (concat cs)"
    using validate_payload_length [OF assms(3)] by (simp flip: cat)
  let ?n = "of_nat (length c) :: u32"
  have n: "unat ?n = length c" using c by simp
  have le: "?n \<le> fh_total_size ?h" using tot n by (simp add: word_le_nat_alt)
  have nz: "\<not> (?n = 0 \<and> 0 < fh_total_size ?h)"
    using tot n empty by (auto simp: word_less_nat_alt simp flip: unat_eq_0)
  have rem: "unat (fh_total_size ?h - ?n) = length (concat cs)"
    using le tot n by (simp add: unat_sub)
  let ?src = "\<lambda>d. \<lparr> src_data = d, src_end = e \<rparr>"
  have rf: "read_frame (?src (frames_bytes ?h chunks @ rest)) max_payload =
      Inr ((?h\<lparr> fh_data_size := ?n \<rparr>, c), ?src (frames_bytes ?h cs @ rest))"
    using assms(4) c by (subst read_frame_frame) (simp_all add: frames_bytes_def chunks)
  have rr: "read_remaining (?h\<lparr> fh_data_size := ?n \<rparr>) max_payload (fh_total_size ?h - ?n) c
      (?src (frames_bytes ?h cs @ rest)) = Inr (c @ concat cs, ?src rest)"
    using cs rem assms(4) by (subst read_remaining_frames) simp_all
  have val: "validate_payload \<lparr> tx_header = ?h\<lparr> fh_data_size := fh_total_size ?h \<rparr>,
      tx_payload = tx_payload tx \<rparr> = Inr ()"
    using assms(3) by (simp add: validate_payload_def validate_payload_parts_iff context_from_header_def)
  show ?thesis
    using assms(2,4) le nz rf rr val cat
    by (cases tx) (auto simp: read_transaction_def reader_at_def validate_first_header_def Let_def
        not_less)
qed

section \<open>Everything the reader takes is a fragmentation\<close>

lemma frame_bytes_data_size [simp]: "frame_bytes (h\<lparr> fh_data_size := d \<rparr>) = frame_bytes h"
  by (simp add: frame_bytes_def fun_eq_iff)

lemma frames_bytes_data_size [simp]: "frames_bytes (h\<lparr> fh_data_size := d \<rparr>) = frames_bytes h"
  by (rule ext) (simp add: frames_bytes_def)

lemma frame_bytes_match: "headers_match h h' \<Longrightarrow> frame_bytes h' c = frame_bytes h c"
  by (simp add: frame_bytes_def headers_match_def write_bytes_def)

lemma read_remaining_0 [simp]: "read_remaining h m 0 payload r = Inr (payload, r)"
  by (subst read_remaining.simps) simp

lemma read_remaining_inv:
  "read_remaining h m rem payload r = Inr (q, r') \<Longrightarrow>
     \<exists>cs. q = payload @ concat cs \<and> src_data r = frames_bytes h cs @ src_data r'
       \<and> r' = r\<lparr> src_data := src_data r' \<rparr>
       \<and> (\<forall>c\<in>set cs. c \<noteq> [] \<and> length c \<le> MAX_FRAME_DATA)
       \<and> unat rem = length (concat cs)"
proof (induction "unat rem" arbitrary: rem payload r rule: less_induct)
  case less
  show ?case
  proof (cases "0 < rem")
    case False
    then have "rem = 0" by (simp add: word_gt_0)
    with less.prems show ?thesis by (intro exI [of _ "[]"]) (auto simp: frames_bytes_def)
  next
    case True
    with less.prems obtain nh c r1 where
      rf: "read_frame r m = Inr ((nh, c), r1)"
      and ok: "headers_match h nh" "fh_data_size nh \<noteq> 0" "fh_data_size nh \<le> rem"
      and rec: "read_remaining h m (rem - fh_data_size nh) (payload @ c) r1 = Inr (q, r')"
      by (auto simp: read_remaining.simps [of _ _ rem] validate_continuation_frame_def not_less
          split: if_splits)
    note fr = read_frame_inv [OF rf]
    from less.hyps [OF word_sub_less [OF ok(2,3)] rec] obtain cs where
      cs: "q = (payload @ c) @ concat cs" "src_data r1 = frames_bytes h cs @ src_data r'"
        "r' = r1\<lparr> src_data := src_data r' \<rparr>"
        "\<forall>c\<in>set cs. c \<noteq> [] \<and> length c \<le> MAX_FRAME_DATA"
        "unat (rem - fh_data_size nh) = length (concat cs)"
      by blast
    have "c \<noteq> []" using fr ok(2) by (auto simp flip: unat_eq_0)
    moreover have "unat rem = length c + length (concat cs)"
      using fr ok(3) cs(5) by (simp add: unat_sub word_le_nat_alt)
    moreover have "r' = r\<lparr> src_data := src_data r' \<rparr>"
      using fr cs(3) by (metis byte_source.update_convs(1) byte_source.surjective)
    ultimately show ?thesis
      using fr cs frame_bytes_match [OF ok(1), of c]
      by (intro exI [of _ "c # cs"]) (auto simp: frames_bytes_def)
  qed
qed

lemma read_transaction_inv:
  assumes "read_transaction (reader_at data e m) = Inr (tx, tr')"
  shows "\<exists>chunks rest. data = frames_bytes (tx_header tx) chunks @ rest \<and> tr' = reader_at rest e m
    \<and> fragmentation MAX_FRAME_DATA chunks (tx_payload tx) \<and> fh_flags (tx_header tx) = 0
    \<and> validate_payload tx = Inr () \<and> unat (fh_total_size (tx_header tx)) \<le> m
    \<and> fh_data_size (tx_header tx) = fh_total_size (tx_header tx)"
proof -
  let ?src = "\<lambda>d. \<lparr> src_data = d, src_end = e \<rparr>"
  from assms obtain h c r1 p r2 where
    rf: "read_frame (?src data) m = Inr ((h, c), r1)"
    and vf: "validate_first_header h m = Inr ()"
    and rr: "read_remaining h m (fh_total_size h - fh_data_size h) c r1 = Inr (p, r2)"
    and tx: "tx = \<lparr> tx_header = h\<lparr> fh_data_size := fh_total_size h \<rparr>, tx_payload = p \<rparr>"
    and val: "validate_payload tx = Inr ()"
    and tr': "tr' = (reader_at data e m)\<lparr> tr_reader := r2 \<rparr>"
    by (auto simp: read_transaction_def reader_at_def Let_def)
  from vf have first: "fh_flags h = 0" "unat (fh_total_size h) \<le> m"
      "fh_data_size h \<le> fh_total_size h" "fh_data_size h = 0 \<Longrightarrow> fh_total_size h = 0"
    by (auto simp: validate_first_header_def not_less word_gt_0 split: if_splits)
  note fr = read_frame_inv [OF rf]
  from read_remaining_inv [OF rr] obtain cs where
    cs: "p = c @ concat cs" "src_data r1 = frames_bytes h cs @ src_data r2"
      "r2 = r1\<lparr> src_data := src_data r2 \<rparr>"
      "\<forall>c\<in>set cs. c \<noteq> [] \<and> length c \<le> MAX_FRAME_DATA"
      "unat (fh_total_size h - fh_data_size h) = length (concat cs)"
    by blast
  have r2: "r2 = ?src (src_data r2)" using fr cs(3) by (cases r1) simp
  have "fragmentation MAX_FRAME_DATA (c # cs) p"
  proof (cases "c = []")
    case True
    with fr first(4) have "fh_total_size h = 0" by (simp add: unat_eq_0)
    with cs(4,5) first(3) have "cs = []" by (cases cs) auto
    with True cs(1) show ?thesis by (simp add: fragmentation_def)
  next
    case False
    with fr cs(1,4) show ?thesis by (auto simp: fragmentation_def)
  qed
  moreover have "data = frames_bytes h (c # cs) @ src_data r2"
    using fr cs(2) by (simp add: frames_bytes_def)
  moreover have "tr' = reader_at (src_data r2) e m"
    by (subst tr', subst r2) (simp add: reader_at_def)
  ultimately show ?thesis
    using val first unfolding tx by auto
qed

section \<open>The streaming reader against the buffered one\<close>

lemma read_remaining_acc:
  "read_remaining h m rem payload r =
     rbind (read_remaining h m rem [] r) (\<lambda>(p, r'). Inr (payload @ p, r'))"
proof (induction "unat rem" arbitrary: rem payload r rule: less_induct)
  case less
  show ?case
  proof (cases "0 < rem")
    case True
    show ?thesis
    proof (cases "read_frame r m")
      case (Inr x)
      obtain nh c r' where x: "x = ((nh, c), r')" by (metis surj_pair)
      show ?thesis
      proof (cases "validate_continuation_frame h nh rem")
        case ok: (Inr u)
        then have dec: "unat (rem - fh_data_size nh) < unat rem"
          by (auto simp: validate_continuation_frame_def word_sub_less not_less split: if_splits)
        note IH = less [OF dec]
        show ?thesis
          using True Inr x ok IH [of "payload @ c" r'] IH [of c r']
          by (simp add: read_remaining.simps [of _ _ rem] rbind_assoc split: rbind_split)
      qed (use True Inr x in \<open>simp add: read_remaining.simps [of _ _ rem]\<close>)
    qed (use True in \<open>simp add: read_remaining.simps [of _ _ rem]\<close>)
  qed (simp add: read_remaining.simps [of _ _ rem])
qed

lemma drain_read_remaining:
  "st_pending_first st = None \<Longrightarrow>
     read_remaining (st_first_header st) (st_max_total st) (st_remaining st) [] (st_reader st) =
     rbind (drain_fragments st) (\<lambda>(fs, st'). Inr (concat (map tf_payload fs), st_reader st'))"
proof (induction st rule: drain_fragments.induct)
  case (1 st)
  show ?case
  proof (cases "st_remaining st = 0")
    case True
    with "1.prems" show ?thesis
      by (simp add: drain_fragments.simps [of st] next_fragment_def)
  next
    case False
    then have pos: "0 < st_remaining st" by (simp add: word_gt_0)
    show ?thesis
    proof (cases "read_frame (st_reader st) (st_max_total st)")
      case (Inl e)
      with False pos "1.prems" show ?thesis
        by (simp add: read_remaining.simps [of _ _ "st_remaining st"] drain_fragments.simps [of st] next_fragment_def)
    next
      case (Inr x)
      obtain nh c r' where x: "x = ((nh, c), r')" by (metis surj_pair)
      show ?thesis
      proof (cases "validate_continuation_frame (st_first_header st) nh (st_remaining st)")
        case (Inl e)
        with Inr x False pos "1.prems" show ?thesis
          by (simp add: read_remaining.simps [of _ _ "st_remaining st"] drain_fragments.simps [of st] next_fragment_def)
      next
        case ok: (Inr u)
        let ?st = "st\<lparr> st_reader := r', st_remaining := st_remaining st - fh_data_size nh,
          st_offset := st_offset st + fh_data_size nh \<rparr>"
        have nf: "next_fragment st = Inr (Some \<lparr> tf_header = nh, tf_payload = c,
            tf_offset = st_offset st, tf_is_last = (st_remaining st - fh_data_size nh = 0) \<rparr>, ?st)"
          using Inr x ok False "1.prems" by (simp add: next_fragment_def Let_def)
        from "1.IH" [OF nf refl refl] "1.prems"
        have IH: "read_remaining (st_first_header st) (st_max_total st)
            (st_remaining st - fh_data_size nh) [] r' =
            rbind (drain_fragments ?st) (\<lambda>(fs, st'). Inr (concat (map tf_payload fs), st_reader st'))"
          by simp
        show ?thesis
          using pos Inr x ok
          by (simp add: read_remaining.simps [of _ _ "st_remaining st"] drain_fragments.simps [of st] nf
              read_remaining_acc [of _ _ _ c] IH rbind_assoc split: rbind_split)
      qed
    qed
  qed
qed

section \<open>Offsets of the streamed fragments\<close>

text \<open>Offsets are the running payload length, and only the final fragment is marked last.\<close>

definition fragments_indexed :: "nat \<Rightarrow> TransactionFragment list \<Rightarrow> bool" where
  "fragments_indexed base fs \<longleftrightarrow>
     (\<forall>i<length fs. unat (tf_offset (fs ! i)) = base + length (concat (map tf_payload (take i fs)))
        \<and> (tf_is_last (fs ! i) \<longleftrightarrow> Suc i = length fs))"

lemma fragments_indexed_Nil [simp]: "fragments_indexed base []"
  by (simp add: fragments_indexed_def)

lemma fragments_indexed_Cons:
  "fragments_indexed base (f # fs) \<longleftrightarrow>
     unat (tf_offset f) = base \<and> (tf_is_last f \<longleftrightarrow> fs = [])
     \<and> fragments_indexed (base + length (tf_payload f)) fs"
  by (auto simp: fragments_indexed_def All_less_Suc2 add.assoc)

lemma drain_fragments_indexed:
  "drain_fragments st = Inr (fs, st') \<Longrightarrow> st_pending_first st = None \<Longrightarrow>
   unat (st_offset st) + unat (st_remaining st) \<le> u32_max \<Longrightarrow>
   fragments_indexed (unat (st_offset st)) fs \<and> (fs = [] \<longleftrightarrow> st_remaining st = 0)"
proof (induction st arbitrary: fs rule: drain_fragments.induct)
  case (1 st)
  show ?case
  proof (cases "st_remaining st = 0")
    case True
    with "1.prems" show ?thesis
      by (simp add: drain_fragments.simps [of st] next_fragment_def)
  next
    case False
    with "1.prems"(1,2) obtain nh c r' gs where
      rf: "read_frame (st_reader st) (st_max_total st) = Inr ((nh, c), r')"
      and ok: "validate_continuation_frame (st_first_header st) nh (st_remaining st) = Inr ()"
      and rec: "drain_fragments (st\<lparr> st_reader := r', st_remaining := st_remaining st - fh_data_size nh,
          st_offset := st_offset st + fh_data_size nh \<rparr>) = Inr (gs, st')"
      and fs: "fs = \<lparr> tf_header = nh, tf_payload = c, tf_offset = st_offset st,
          tf_is_last = (st_remaining st - fh_data_size nh = 0) \<rparr> # gs"
      by (auto simp: drain_fragments.simps [of st] next_fragment_def Let_def)
    from ok have d: "fh_data_size nh \<le> st_remaining st"
      by (auto simp: validate_continuation_frame_def not_less split: if_splits)
    have c: "length c = unat (fh_data_size nh)" using read_frame_inv [OF rf] by simp
    have off: "unat (st_offset st + fh_data_size nh) = unat (st_offset st) + unat (fh_data_size nh)"
      using unat_add_u32 [of "st_offset st" "unat (fh_data_size nh)"] "1.prems"(3) d
      by (simp add: word_le_nat_alt)
    have "next_fragment st = Inr (Some (hd fs), st\<lparr> st_reader := r',
        st_remaining := st_remaining st - fh_data_size nh,
        st_offset := st_offset st + fh_data_size nh \<rparr>)"
      using rf ok False "1.prems"(2) by (simp add: next_fragment_def Let_def fs)
    from "1.IH" [OF this refl refl rec] "1.prems" d off
    have "fragments_indexed (unat (st_offset st) + unat (fh_data_size nh)) gs
        \<and> (gs = [] \<longleftrightarrow> st_remaining st - fh_data_size nh = 0)"
      by (simp add: unat_sub word_le_nat_alt)
    then show ?thesis using False c by (simp add: fs fragments_indexed_Cons)
  qed
qed

lemma streaming_matches_buffered_aux:
  assumes "read_transaction tr = Inr (tx, tr')"
  shows "\<exists>fs st. rbind (read_streaming_transaction tr) drain_fragments = Inr (fs, st)
    \<and> concat (map tf_payload fs) = tx_payload tx \<and> st_reader st = tr_reader tr'
    \<and> fragments_indexed 0 fs"
proof -
  from assms obtain h c r1 p r2 where
    rf: "read_frame (tr_reader tr) (tr_max_payload tr) = Inr ((h, c), r1)"
    and vf: "validate_first_header h (tr_max_payload tr) = Inr ()"
    and rr: "read_remaining h (tr_max_payload tr) (fh_total_size h - fh_data_size h) c r1 = Inr (p, r2)"
    and tx: "tx_payload tx = p" "tr' = tr\<lparr> tr_reader := r2 \<rparr>"
    by (auto simp: read_transaction_def Let_def)
  define st where "st = \<lparr> st_reader = r1, st_first_header = h,
    st_remaining = fh_total_size h - fh_data_size h, st_offset = 0,
    st_pending_first = Some c, st_max_total = tr_max_payload tr \<rparr>"
  define st1 where "st1 = st\<lparr> st_pending_first := None, st_offset := fh_data_size h \<rparr>"
  have start: "read_streaming_transaction tr = Inr st"
    using rf vf by (simp add: read_streaming_transaction_def validate_first_frame_def
        build_streaming_transaction_def st_def)
  have nf: "next_fragment st = Inr (Some \<lparr> tf_header = h, tf_payload = c, tf_offset = 0,
      tf_is_last = (st_remaining st = 0) \<rparr>, st1)"
    by (simp add: next_fragment_def st_def st1_def)
  from rr drain_read_remaining [of st1] obtain fs st' where
    dr: "drain_fragments st1 = Inr (fs, st')"
    and p: "p = c @ concat (map tf_payload fs)" "st_reader st' = r2"
    by (auto simp: read_remaining_acc [of _ _ _ c] st1_def st_def)
  have d: "fh_data_size h \<le> fh_total_size h"
    using vf by (auto simp: validate_first_header_def not_less split: if_splits)
  have c: "length c = unat (fh_data_size h)" using read_frame_inv [OF rf] by simp
  have "fragments_indexed (unat (fh_data_size h)) fs \<and> (fs = [] \<longleftrightarrow> st_remaining st = 0)"
    using drain_fragments_indexed [OF dr] d by (simp add: st1_def st_def unat_sub word_le_nat_alt)
  then show ?thesis
    using nf dr p tx c by (simp add: start drain_fragments.simps [of st] fragments_indexed_Cons)
qed

section \<open>Streaming from a source\<close>

lemma stream_chunks_step:
  assumes "0 < n" "n \<le> MAX_FRAME_DATA" "unat sent < unat (fh_total_size hdr)"
    and k: "k = min (unat (fh_total_size hdr) - unat sent) n"
  shows "stream_chunks hdr n sent s w =
    (if length (src_data s) < k
     then Some (Inl (map_eof_to_size_mismatch (io_with_timeout (src_end s))), w)
     else (case write_timeout_all w (frame_bytes hdr (take k (src_data s))) of
         (Inl e, w') \<Rightarrow> Some (Inl e, w')
       | (Inr _, w') \<Rightarrow>
           stream_chunks hdr n (sent + of_nat k) (s\<lparr> src_data := drop k (src_data s) \<rparr>) w'))"
proof -
  have lt: "sent < fh_total_size hdr" using assms(3) by (simp add: word_less_nat_alt)
  then have "unat (fh_total_size hdr - sent) = unat (fh_total_size hdr) - unat sent"
    by (simp add: unat_sub)
  with k have kk: "min (unat (fh_total_size hdr - sent)) n = k" by simp
  have "k \<le> n" "k \<le> u32_max" using k assms(2) by auto
  then show ?thesis
    using lt by (simp add: stream_chunks.simps [of _ _ sent] kk Let_def read_timeout_exact_def
        write_frame_eq u32_try_from_def split: prod.split sum.split)
qed

lemma stream_chunks_eq:
  assumes "0 < n" "n \<le> MAX_FRAME_DATA"
  shows "unat sent \<le> unat (fh_total_size hdr) \<Longrightarrow>
    unat (fh_total_size hdr) - unat sent \<le> length (src_data s) \<Longrightarrow>
    stream_chunks hdr n sent s w =
    Some (write_timeout_all w
      (frames_bytes hdr (chop n (take (unat (fh_total_size hdr) - unat sent) (src_data s)))))"
proof (induction "unat (fh_total_size hdr) - unat sent" arbitrary: sent s w rule: less_induct)
  case less
  let ?t = "unat (fh_total_size hdr)" and ?d = "src_data s"
  show ?case
  proof (cases "unat sent < ?t")
    case False
    then show ?thesis
      by (subst stream_chunks.simps) (simp add: chop.simps frames_bytes_def word_less_nat_alt)
  next
    case True
    define k where "k = min (?t - unat sent) n"
    have k: "0 < k" "k \<le> n" "k \<le> ?t - unat sent" "k \<le> length ?d"
      using assms True less.prems(2) by (auto simp: k_def)
    have sent': "unat (sent + of_nat k) = unat sent + k"
      using k(3) True unat_u32_le [of "fh_total_size hdr"] by (intro unat_add_u32) linarith
    let ?xs = "take (?t - unat sent) ?d"
    have hd: "take n ?xs = take k ?d" by (simp add: k_def min_def)
    have tl: "drop n ?xs = take (?t - (unat sent + k)) (drop k ?d)"
      by (cases "n \<le> ?t - unat sent") (auto simp: k_def min_def drop_take)
    have ne: "?xs \<noteq> []" using k True by auto
    have chop: "chop n ?xs = take k ?d # chop n (take (?t - (unat sent + k)) (drop k ?d))"
      using ne assms(1) hd tl chop.simps [of n ?xs] by simp
    have IH: "stream_chunks hdr n (sent + of_nat k) (s\<lparr> src_data := drop k ?d \<rparr>) w' =
      Some (write_timeout_all w' (frames_bytes hdr
        (chop n (take (?t - (unat sent + k)) (drop k ?d)))))" for w'
      using less.hyps [of "sent + of_nat k" "s\<lparr> src_data := drop k ?d \<rparr>" w'] less.prems k True
      by (simp add: sent')
    obtain r w' where wt: "write_timeout_all w (frame_bytes hdr (take k ?d)) = (r, w')"
      by fastforce
    show ?thesis
      unfolding stream_chunks_step [OF assms True k_def] chop frames_bytes_def list.map concat.simps
        write_timeout_all_append [symmetric] wt
      using k(4) by (cases r) (simp_all add: then_write_def IH [unfolded frames_bytes_def])
  qed
qed

text \<open>
  A source that runs dry: every frame before the gap is a full one and is written, and then the
  error of the source ends the loop.
\<close>

fun fail_after :: "'e \<Rightarrow> ('e, unit) result \<times> 'w \<Rightarrow> ('e, unit) result \<times> 'w" where
  "fail_after e (Inl e', w) = (Inl e', w)"
| "fail_after e (Inr _, w) = (Inl e, w)"

definition full_frames :: "nat \<Rightarrow> 'a list \<Rightarrow> 'a list list" where
  "full_frames n xs = chop n (take (length xs div n * n) xs)"

lemma full_frames_short: "length xs < n \<Longrightarrow> full_frames n xs = []"
  by (simp add: full_frames_def chop.simps)

lemma full_frames_step:
  assumes "0 < n" "n \<le> length xs"
  shows "full_frames n xs = take n xs # full_frames n (drop n xs)"
proof -
  have d: "length xs div n = Suc (length (drop n xs) div n)"
    using assms by (simp add: le_div_geq)
  let ?m = "length (drop n xs) div n * n"
  have "full_frames n xs = chop n (take (n + ?m) xs)"
    unfolding full_frames_def d by simp
  also have "\<dots> = take n xs # chop n (take ?m (drop n xs))"
    using assms by (subst chop.simps) (auto simp: drop_take)
  finally show ?thesis by (simp add: full_frames_def)
qed

lemma stream_chunks_short:
  assumes "0 < n" "n \<le> MAX_FRAME_DATA"
  shows "length (src_data s) < unat (fh_total_size hdr) - unat sent \<Longrightarrow>
    stream_chunks hdr n sent s w =
      Some (fail_after (map_eof_to_size_mismatch (io_with_timeout (src_end s)))
        (write_timeout_all w (frames_bytes hdr (full_frames n (src_data s)))))"
proof (induction "length (src_data s)" arbitrary: sent s w rule: less_induct)
  case less
  let ?t = "unat (fh_total_size hdr)" and ?d = "src_data s"
  have True: "unat sent < ?t" using less.prems by simp
  define k where "k = min (?t - unat sent) n"
  have k: "0 < k" "k \<le> ?t - unat sent" using assms True by (auto simp: k_def)
  have sent': "unat (sent + of_nat k) = unat sent + k"
    using k(2) True unat_u32_le [of "fh_total_size hdr"] by (intro unat_add_u32) linarith
  show ?case
  proof (cases "length ?d < k")
    case True': True
    then have "full_frames n ?d = []"
      by (intro full_frames_short) (simp add: k_def)
    with True' show ?thesis
      by (simp add: stream_chunks_step [OF assms True k_def] frames_bytes_def)
  next
    case False
    then have kn: "k = n" "n \<le> length ?d" using less.prems by (auto simp: k_def)
    have IH: "stream_chunks hdr n (sent + of_nat k) (s\<lparr> src_data := drop k ?d \<rparr>) w' =
        Some (fail_after (map_eof_to_size_mismatch (io_with_timeout (src_end s)))
          (write_timeout_all w' (frames_bytes hdr (full_frames n (drop k ?d)))))" for w'
      using less.hyps [of "s\<lparr> src_data := drop k ?d \<rparr>" "sent + of_nat k" w'] less.prems k False
      by (simp add: sent')
    obtain r w' where wt: "write_timeout_all w (frame_bytes hdr (take k ?d)) = (r, w')"
      by fastforce
    have frames: "full_frames n ?d = take k ?d # full_frames n (drop k ?d)"
      unfolding kn(1) by (rule full_frames_step [OF assms(1) kn(2)])
    show ?thesis
      unfolding stream_chunks_step [OF assms True k_def] frames frames_bytes_def list.map concat.simps
        write_timeout_all_append [symmetric] wt
      using False by (cases r) (simp_all add: then_write_def IH [unfolded frames_bytes_def])
  qed
qed

section \<open>Properties\<close>

text \<open>
  C1: what the buffered reader accepts.  It returns a transaction exactly when the
  stream starts with some fragmentation of the payload, in frames of at most
  32 KiB that repeat the header and are not empty, the header has zero flags, the
  size is within the limit and the payload validates; it then leaves exactly the
  bytes after the last frame.
\<close>

theorem read_transaction_exact:
  "read_transaction (reader_at data e m) = Inr (tx, tr') \<longleftrightarrow>
     (\<exists>chunks rest.
        data = frames_bytes (tx_header tx) chunks @ rest \<and> tr' = reader_at rest e m
        \<and> fragmentation MAX_FRAME_DATA chunks (tx_payload tx) \<and> fh_flags (tx_header tx) = 0
        \<and> validate_payload tx = Inr () \<and> unat (fh_total_size (tx_header tx)) \<le> m
        \<and> fh_data_size (tx_header tx) = fh_total_size (tx_header tx))"
proof
  assume "\<exists>chunks rest. data = frames_bytes (tx_header tx) chunks @ rest \<and> tr' = reader_at rest e m
        \<and> fragmentation MAX_FRAME_DATA chunks (tx_payload tx) \<and> fh_flags (tx_header tx) = 0
        \<and> validate_payload tx = Inr () \<and> unat (fh_total_size (tx_header tx)) \<le> m
        \<and> fh_data_size (tx_header tx) = fh_total_size (tx_header tx)"
  then show "read_transaction (reader_at data e m) = Inr (tx, tr')"
    using read_transaction_frames [of _ tx m] by (cases tx) fastforce
qed (rule read_transaction_inv)

lemma write_transaction_open:
  assumes "writer_wf tw" "fh_flags (tx_header tx) = 0" "validate_payload tx = Inr ()"
    and "unat (fh_total_size (tx_header tx)) \<le> tw_max_payload tw"
    and "snk_room (tw_writer tw) = None" "snk_flush_fault (tw_writer tw) = None"
  shows "write_transaction tw tx = Some (Inr (), tw\<lparr> tw_writer := (tw_writer tw)
    \<lparr> snk_written := snk_written (tw_writer tw)
        @ frames_bytes (tx_header tx) (fragments (tw_max_frame tw) (tx_payload tx)) \<rparr> \<rparr>)"
  using assms by (simp add: write_transaction_eq write_timeout_all_def flush_timeout_def)

text \<open>
  C2: end to end.  What a writer emits for a valid transaction, cut into frames of
  any configured size, is read back by a reader as the same transaction, whatever
  follows it on the stream.
\<close>

theorem write_then_read:
  assumes "writer_wf tw" "fh_flags (tx_header tx) = 0" "validate_payload tx = Inr ()"
    and "unat (fh_total_size (tx_header tx)) \<le> tw_max_payload tw"
    and "unat (fh_total_size (tx_header tx)) \<le> m"
    and "snk_room (tw_writer tw) = None" "snk_flush_fault (tw_writer tw) = None"
  shows "\<exists>tw' out. write_transaction tw tx = Some (Inr (), tw')
    \<and> snk_written (tw_writer tw') = snk_written (tw_writer tw) @ out
    \<and> read_transaction (reader_at (out @ rest) e m) =
        Inr (tx\<lparr> tx_header := (tx_header tx)\<lparr> fh_data_size := fh_total_size (tx_header tx) \<rparr> \<rparr>,
             reader_at rest e m)"
proof -
  have "fragmentation MAX_FRAME_DATA (fragments (tw_max_frame tw) (tx_payload tx)) (tx_payload tx)"
    using assms(1) by (intro fragmentation_mono [OF fragmentation_fragments])
      (simp_all add: writer_wf_def)
  with assms show ?thesis
    using read_transaction_frames write_transaction_open [of tw tx] by fastforce
qed

theorem write_then_read_witness:
  "\<exists>tw' out. write_transaction
      (with_max_frame (writer_new \<lparr> snk_written = [], snk_room = None, snk_end = End_Eof,
         snk_flush_fault = None \<rparr>) 3)
      \<lparr> tx_header = \<lparr> fh_flags = 0, fh_is_reply = 0, fh_ty = 107, fh_id = 1, fh_error = 0,
          fh_total_size = 7, fh_data_size = 7 \<rparr>, tx_payload = [0, 1, 0, 105, 0, 1, 97] \<rparr> =
      Some (Inr (), tw')
    \<and> snk_written (tw_writer tw') = out
    \<and> read_transaction (reader_at (out @ [9]) End_Eof 1024) =
        Inr (\<lparr> tx_header = \<lparr> fh_flags = 0, fh_is_reply = 0, fh_ty = 107, fh_id = 1, fh_error = 0,
                 fh_total_size = 7, fh_data_size = 7 \<rparr>, tx_payload = [0, 1, 0, 105, 0, 1, 97] \<rparr>,
             reader_at [9] End_Eof 1024)"
proof -
  let ?tw = "with_max_frame (writer_new \<lparr> snk_written = [], snk_room = None, snk_end = End_Eof,
         snk_flush_fault = None \<rparr>) 3"
  let ?tx = "\<lparr> tx_header = \<lparr> fh_flags = 0, fh_is_reply = 0, fh_ty = 107, fh_id = 1, fh_error = 0,
          fh_total_size = 7, fh_data_size = 7 \<rparr>, tx_payload = [0, 1, 0, 105, 0, 1, 97] \<rparr>"
  have "validate_payload ?tx = Inr ()" by code_simp
  then show ?thesis
    using write_then_read [of ?tw ?tx 1024 "[9]" End_Eof] writer_wf_intros(2)
    by (simp add: with_max_frame_def writer_new_def writer_wf_def)
qed

lemma write_timeout_all_prefix:
  "\<exists>k. snk_written (snd (write_timeout_all w buf)) = snk_written w @ take k buf"
  by (auto simp: write_timeout_all_def split: option.splits intro: exI [of _ "length buf"])

text \<open>
  A writer built by its constructors never hangs: the emission loop ends for
  every sink, every transaction and every requested frame size, zero included,
  and whatever reaches the sink is a prefix of the fragment sequence.
\<close>

lemma write_transaction_terminates:
  "\<exists>r tw' k. write_transaction (writer_with_max_payload (with_max_frame (writer_new w) n) m) tx =
       Some (r, tw')
     \<and> snk_written (tw_writer tw') = snk_written w
         @ take k (frames_bytes (tx_header tx)
             (fragments (tw_max_frame (with_max_frame (writer_new w) n)) (tx_payload tx)))"
proof -
  let ?tw = "writer_with_max_payload (with_max_frame (writer_new w) n) m"
  have wf: "writer_wf ?tw" by (intro wf_intros)
  have w: "tw_writer ?tw = w" "tw_max_frame ?tw = tw_max_frame (with_max_frame (writer_new w) n)"
    by (simp_all add: writer_with_max_payload_def with_max_frame_def writer_new_def)
  show ?thesis
  proof (cases "fh_flags (tx_header tx) = 0 \<and> validate_payload tx = Inr ()
      \<and> unat (fh_total_size (tx_header tx)) \<le> tw_max_payload ?tw")
    case True
    let ?out = "frames_bytes (tx_header tx) (fragments (tw_max_frame ?tw) (tx_payload tx))"
    obtain r w' where wt: "write_timeout_all w ?out = (r, w')" by fastforce
    with write_timeout_all_prefix [of w ?out] obtain k
      where "snk_written w' = snk_written w @ take k ?out" by auto
    with True wt wf show ?thesis by (auto simp: write_transaction_eq w)
  next
    case False
    then show ?thesis
      by (auto simp: write_transaction_def w split: sum.splits intro: exI [of _ 0])
  qed
qed

text \<open>
  C5: the streaming reader delivers the same payload as the buffered one.  Where
  the buffered reader succeeds, draining the streaming reader succeeds, its
  fragments concatenate to the payload, it stops at the same byte, every offset is
  the length of what came before, and exactly the final fragment is marked last.
\<close>

theorem streaming_matches_buffered:
  assumes "read_transaction tr = Inr (tx, tr')"
  shows "\<exists>fs st. rbind (read_streaming_transaction tr) drain_fragments = Inr (fs, st)
    \<and> concat (map tf_payload fs) = tx_payload tx \<and> st_reader st = tr_reader tr'
    \<and> fragments_indexed 0 fs"
  using assms by (rule streaming_matches_buffered_aux)

theorem streaming_matches_buffered_witness:
  "\<exists>fs st. rbind (read_streaming_transaction (reader_at
        (frames_bytes \<lparr> fh_flags = 0, fh_is_reply = 0, fh_ty = 107, fh_id = 1, fh_error = 0,
           fh_total_size = 7, fh_data_size = 7 \<rparr> [[0, 1, 0, 105], [0, 1, 97]]) End_Eof 100))
      drain_fragments = Inr (fs, st)
    \<and> concat (map tf_payload fs) = [0, 1, 0, 105, 0, 1, 97] \<and> fragments_indexed 0 fs"
proof -
  let ?tx = "\<lparr> tx_header = \<lparr> fh_flags = 0, fh_is_reply = 0, fh_ty = 107, fh_id = 1, fh_error = 0,
          fh_total_size = 7, fh_data_size = 7 \<rparr>, tx_payload = [0, 1, 0, 105, 0, 1, 97] \<rparr>"
  have "validate_payload ?tx = Inr ()" by code_simp
  then have "read_transaction (reader_at
      (frames_bytes (tx_header ?tx) [[0, 1, 0, 105], [0, 1, 97]]) End_Eof 100) =
      Inr (?tx, reader_at [] End_Eof 100)"
    using read_transaction_frames [of "[[0, 1, 0, 105], [0, 1, 97]]" ?tx 100 "[]" End_Eof]
    by (simp add: fragmentation_def)
  from streaming_matches_buffered [OF this] show ?thesis by auto
qed

lemma write_streaming_eq:
  assumes "writer_wf tw" "fh_flags hdr = 0" "unat (fh_total_size hdr) \<le> tw_max_payload tw"
    and "unat (fh_total_size hdr) \<le> length (src_data s)"
  shows "write_streaming tw hdr s =
    Some (case write_timeout_all (tw_writer tw) (frames_bytes hdr
              (fragments (tw_max_frame tw) (take (unat (fh_total_size hdr)) (src_data s)))) of
            (r, w) \<Rightarrow> (rbind r (\<lambda>_. flush_timeout w), tw\<lparr> tw_writer := w \<rparr>))"
proof (cases "fh_total_size hdr = 0")
  case True
  with assms show ?thesis
    by (simp add: write_streaming_def write_frame_eq fragments_def frames_bytes_def split: prod.split)
next
  case False
  then have "take (unat (fh_total_size hdr)) (src_data s) \<noteq> []"
    using assms(4) by (auto simp flip: unat_eq_0)
  with False assms show ?thesis
    using stream_chunks_eq [of "tw_max_frame tw" 0 hdr s "tw_writer tw"]
    by (simp add: write_streaming_def fragments_def writer_wf_def split: prod.split)
qed

lemma write_streaming_short:
  assumes "writer_wf tw" "fh_flags hdr = 0" "unat (fh_total_size hdr) \<le> tw_max_payload tw"
    and "length (src_data s) < unat (fh_total_size hdr)"
  shows "write_streaming tw hdr s =
    Some (case write_timeout_all (tw_writer tw) (frames_bytes hdr (full_frames (tw_max_frame tw) (src_data s))) of
            (Inl e, w) \<Rightarrow> (Inl e, tw\<lparr> tw_writer := w \<rparr>)
          | (Inr _, w) \<Rightarrow> (Inl (map_eof_to_size_mismatch (io_with_timeout (src_end s))), tw\<lparr> tw_writer := w \<rparr>))"
proof -
  have "fh_total_size hdr \<noteq> 0" using assms(4) by auto
  with assms show ?thesis
    using stream_chunks_short [of "tw_max_frame tw" s hdr 0 "tw_writer tw"]
    by (auto simp: write_streaming_def writer_wf_def split: prod.split sum.split)
qed

text \<open>
  C6: what a streamed write does, for every header, source and sink.  Flags and an oversized
  total are refused before anything is written.  Otherwise the frames of the declared number of
  source bytes are written and flushed, an error of the sink ending the write where it occurs;
  and where these bytes are the payload of a valid transaction, all of this is what the buffered
  writer does with it.  If the source runs dry, the full frames it still filled are written,
  and the write ends with a size mismatch when the source ended, and with the source's own
  failure or timeout when it did not.
\<close>

theorem write_streaming_outcome:
  assumes "writer_wf tw"
  shows "write_streaming tw hdr s = Some (
      if fh_flags hdr \<noteq> 0 then (Inl InvalidFlags, tw)
      else if tw_max_payload tw < unat (fh_total_size hdr) then (Inl PayloadTooLarge, tw)
      else if unat (fh_total_size hdr) \<le> length (src_data s) then
        (case write_timeout_all (tw_writer tw) (frames_bytes hdr
             (fragments (tw_max_frame tw) (take (unat (fh_total_size hdr)) (src_data s)))) of
           (Inl e, w) \<Rightarrow> (Inl e, tw\<lparr> tw_writer := w \<rparr>)
         | (Inr _, w) \<Rightarrow> (flush_timeout w, tw\<lparr> tw_writer := w \<rparr>))
      else
        (case write_timeout_all (tw_writer tw)
             (frames_bytes hdr (full_frames (tw_max_frame tw) (src_data s))) of
           (Inl e, w) \<Rightarrow> (Inl e, tw\<lparr> tw_writer := w \<rparr>)
         | (Inr _, w) \<Rightarrow>
             (Inl (case src_end s of End_Eof \<Rightarrow> SizeMismatch | End_Fault \<Rightarrow> Io OtherIo | End_Stall \<Rightarrow> Timeout),
              tw\<lparr> tw_writer := w \<rparr>)))
    \<and> (\<forall>tx. tx_header tx = hdr \<and> tx_payload tx = take (unat (fh_total_size hdr)) (src_data s)
         \<and> validate_payload tx = Inr () \<longrightarrow> write_streaming tw hdr s = write_transaction tw tx)"
proof (intro conjI allI impI, goal_cases)
  case 1
  have "map_eof_to_size_mismatch (io_with_timeout (src_end s)) =
      (case src_end s of End_Eof \<Rightarrow> SizeMismatch | End_Fault \<Rightarrow> Io OtherIo | End_Stall \<Rightarrow> Timeout)"
    by (cases "src_end s") simp_all
  then show ?case
    using write_streaming_eq [OF assms, of hdr s] write_streaming_short [OF assms, of hdr s]
    by (auto simp: not_less not_le split: prod.split sum.split) (auto simp: write_streaming_def)
next
  case (2 tx)
  then have len: "unat (fh_total_size hdr) \<le> length (src_data s)"
    using validate_payload_length [of tx] by auto
  show ?case
  proof (cases "fh_flags hdr = 0 \<and> unat (fh_total_size hdr) \<le> tw_max_payload tw")
    case True
    with 2 len show ?thesis
      using write_streaming_eq [OF assms, of hdr s] write_transaction_eq [OF assms, of tx] by simp
  next
    case False
    with 2 show ?thesis
      by (auto simp: write_streaming_def write_transaction_def not_le)
  qed
qed

text \<open>A source that stalls after four of seven bytes, written in frames of three.\<close>

theorem write_streaming_outcome_witness:
  "\<exists>tw'. write_streaming
      (with_max_frame (writer_new \<lparr> snk_written = [], snk_room = None, snk_end = End_Eof, snk_flush_fault = None \<rparr>) 3)
      \<lparr> fh_flags = 0, fh_is_reply = 0, fh_ty = 107, fh_id = 1, fh_error = 0,
        fh_total_size = 7, fh_data_size = 0 \<rparr> \<lparr> src_data = [1, 2, 3, 4], src_end = End_Stall \<rparr> =
      Some (Inl Timeout, tw')"
proof -
  let ?tw = "with_max_frame (writer_new \<lparr> snk_written = [], snk_room = None, snk_end = End_Eof, snk_flush_fault = None \<rparr>) 3"
  have "writer_wf ?tw" by (intro wf_intros)
  from write_streaming_outcome [OF this, of "\<lparr> fh_flags = 0, fh_is_reply = 0, fh_ty = 107, fh_id = 1, fh_error = 0,
        fh_total_size = 7, fh_data_size = 0 \<rparr>" "\<lparr> src_data = [1, 2, 3, 4], src_end = End_Stall \<rparr>"]
  show ?thesis
    by (simp add: with_max_frame_def writer_new_def write_timeout_all_def)
qed

end
