(* ===== verification/Handshake_Protocol.thy ===== *)
theory Handshake_Protocol
  imports Transaction_Stream "HOL-Library.Sublist"
begin

text \<open>
  The Hotline handshake: the parser, error codes and reply of src/src/protocol.rs,
  the preamble decoder of src/src/wireframe/preamble.rs, the success and failure
  handlers of src/src/wireframe/handshake.rs with the connection context they
  store (src/src/wireframe/connection.rs), and perform_handshake of
  src/src/server/legacy/mod.rs.
\<close>

section \<open>Constants and parser\<close>

definition HANDSHAKE_LEN :: nat where [simp]: "HANDSHAKE_LEN = 12"
definition REPLY_LEN :: nat where [simp]: "REPLY_LEN = 8"
definition PROTOCOL_ID :: bytes where "PROTOCOL_ID = [0x54, 0x52, 0x54, 0x50]"
definition VERSION :: u16 where [simp]: "VERSION = 1"
definition CLIENT_VERSION :: u16 where [simp]: "CLIENT_VERSION = 0x97"
definition HANDSHAKE_OK :: u32 where [simp]: "HANDSHAKE_OK = 0"
definition HANDSHAKE_ERR_INVALID :: u32 where [simp]: "HANDSHAKE_ERR_INVALID = 1"
definition HANDSHAKE_ERR_UNSUPPORTED_VERSION :: u32 where
  [simp]: "HANDSHAKE_ERR_UNSUPPORTED_VERSION = 2"
definition HANDSHAKE_ERR_TIMEOUT :: u32 where [simp]: "HANDSHAKE_ERR_TIMEOUT = 3"
definition HANDSHAKE_INVALID_PROTOCOL_TOKEN :: string where
  "HANDSHAKE_INVALID_PROTOCOL_TOKEN = ''handshake:invalid-protocol-id''"
definition HANDSHAKE_UNSUPPORTED_VERSION_TOKEN :: string where
  "HANDSHAKE_UNSUPPORTED_VERSION_TOKEN = ''handshake:unsupported-version''"

record Handshake =
  hs_sub_protocol :: u32
  hs_version :: u16
  hs_sub_version :: u16

datatype HandshakeError = InvalidProtocol | UnsupportedVersion u16

definition parse_handshake :: "bytes \<Rightarrow> (HandshakeError, Handshake) result" where
  "parse_handshake buf =
     (if slice 0 4 buf \<noteq> PROTOCOL_ID then Inl InvalidProtocol
      else
        (let sub_protocol = from_be_bytes_u32 (buf ! 4) (buf ! 5) (buf ! 6) (buf ! 7);
             version = from_be_bytes_u16 (buf ! 8) (buf ! 9);
             sub_version = from_be_bytes_u16 (buf ! 10) (buf ! 11) in
         if version \<noteq> VERSION then Inl (UnsupportedVersion version)
         else Inr \<lparr> hs_sub_protocol = sub_protocol, hs_version = version,
                    hs_sub_version = sub_version \<rparr>))"

fun handshake_error_code :: "HandshakeError \<Rightarrow> u32" where
  "handshake_error_code InvalidProtocol = HANDSHAKE_ERR_INVALID"
| "handshake_error_code (UnsupportedVersion _) = HANDSHAKE_ERR_UNSUPPORTED_VERSION"

definition handshake_reply :: "u32 \<Rightarrow> bytes" where
  "handshake_reply error_code = PROTOCOL_ID @ to_be_bytes_u32 error_code"

definition write_handshake_reply :: "byte_sink \<Rightarrow> u32 \<Rightarrow> unit tx_result \<times> byte_sink" where
  "write_handshake_reply w error_code = write_timeout_all w (handshake_reply error_code)"

text \<open>The client's side of the message.\<close>

definition preamble_bytes :: "bytes \<Rightarrow> bytes \<Rightarrow> u16 \<Rightarrow> u16 \<Rightarrow> bytes" where
  "preamble_bytes protocol sub_protocol version sub_version =
     protocol @ sub_protocol @ to_be_bytes_u16 version @ to_be_bytes_u16 sub_version"

section \<open>The wireframe preamble\<close>

text \<open>The variants of bincode's \<^verbatim>\<open>DecodeError\<close> the handlers look at; every other one is
  \<open>DE_Rest\<close>.\<close>

datatype DecodeError = DE_OtherString string | DE_Other string | DE_Io_TimedOut | DE_Io_Else | DE_Rest

fun decode_error_for_handshake :: "HandshakeError \<Rightarrow> DecodeError" where
  "decode_error_for_handshake InvalidProtocol =
     DE_OtherString (HANDSHAKE_INVALID_PROTOCOL_TOKEN @ '': invalid protocol id'')"
| "decode_error_for_handshake (UnsupportedVersion ver) =
     DE_OtherString (HANDSHAKE_UNSUPPORTED_VERSION_TOKEN @ '': unsupported version ''
       @ show_nat (unat ver))"

text \<open>\<open>read\<close> is the decoder's reader: twelve bytes, or the error it reports.\<close>

definition preamble_borrow_decode ::
  "(DecodeError, bytes) result \<Rightarrow> (DecodeError, Handshake) result" where
  "preamble_borrow_decode read =
     rbind read (\<lambda>buf. map_err decode_error_for_handshake (parse_handshake buf))"

definition is_invalid_protocol :: "string \<Rightarrow> bool" where
  "is_invalid_protocol text \<longleftrightarrow> prefix HANDSHAKE_INVALID_PROTOCOL_TOKEN text"

definition is_unsupported_version :: "string \<Rightarrow> bool" where
  "is_unsupported_version text \<longleftrightarrow> prefix HANDSHAKE_UNSUPPORTED_VERSION_TOKEN text"

definition error_code_from_str :: "string \<Rightarrow> u32 option" where
  "error_code_from_str text =
     (if is_invalid_protocol text then Some HANDSHAKE_ERR_INVALID
      else if is_unsupported_version text then Some HANDSHAKE_ERR_UNSUPPORTED_VERSION
      else None)"

fun error_code_for_decode :: "DecodeError \<Rightarrow> u32 option" where
  "error_code_for_decode (DE_OtherString text) = error_code_from_str text"
| "error_code_for_decode (DE_Other text) = error_code_from_str text"
| "error_code_for_decode DE_Io_TimedOut = Some HANDSHAKE_ERR_TIMEOUT"
| "error_code_for_decode _ = None"

record HandshakeMetadata =
  hm_sub_protocol :: u32
  hm_version :: u16
  hm_sub_version :: u16

definition metadata_default :: HandshakeMetadata where
  "metadata_default = \<lparr> hm_sub_protocol = 0, hm_version = VERSION, hm_sub_version = 0 \<rparr>"

definition sub_protocol_tag :: "HandshakeMetadata \<Rightarrow> bytes" where
  "sub_protocol_tag m = to_be_bytes_u32 (hm_sub_protocol m)"

definition metadata_from_handshake :: "Handshake \<Rightarrow> HandshakeMetadata" where
  "metadata_from_handshake h =
     \<lparr> hm_sub_protocol = hs_sub_protocol h, hm_version = hs_version h,
       hm_sub_version = hs_sub_version h \<rparr>"

record 'addr ConnectionContext =
  cc_handshake :: HandshakeMetadata
  cc_peer :: "'addr option"

definition context_new :: "HandshakeMetadata \<Rightarrow> 'addr ConnectionContext" where
  "context_new m = \<lparr> cc_handshake = m, cc_peer = None \<rparr>"

definition with_peer :: "'addr ConnectionContext \<Rightarrow> 'addr \<Rightarrow> 'addr ConnectionContext" where
  "with_peer c peer = c\<lparr> cc_peer := Some peer \<rparr>"

text \<open>
  The two handlers; the result is the outcome, the sink, and the context that is left
  in the registry for the connection, if any.  Entering the scope registers it before
  the reply is written, so it stays there when the write fails.  \<open>peer_addr\<close> is the answer of the socket.
\<close>

definition success_handler ::
  "Handshake \<Rightarrow> (TransactionError, 'addr) result \<Rightarrow> byte_sink
    \<Rightarrow> unit tx_result \<times> byte_sink \<times> 'addr ConnectionContext option" where
  "success_handler hs peer_addr w =
     (let context = context_new (metadata_from_handshake hs) in
      case peer_addr of
        Inl e \<Rightarrow> (Inl e, w, None)
      | Inr peer \<Rightarrow>
          (let context = with_peer context peer in
           case write_handshake_reply w HANDSHAKE_OK of
             (Inl e, w') \<Rightarrow> (Inl e, w', Some context)
           | (Inr _, w') \<Rightarrow> (Inr (), w', Some context)))"

definition failure_handler :: "DecodeError \<Rightarrow> byte_sink \<Rightarrow> unit tx_result \<times> byte_sink" where
  "failure_handler err w =
     (case error_code_for_decode err of
        Some code \<Rightarrow> write_handshake_reply w code
      | None \<Rightarrow> (Inr (), w))"

section \<open>The legacy handshake\<close>

definition perform_handshake ::
  "byte_source \<Rightarrow> byte_sink \<Rightarrow> unit tx_result \<times> byte_source \<times> byte_sink" where
  "perform_handshake reader writer =
     (case read_timeout_exact reader HANDSHAKE_LEN of
        Inl (Io UnexpectedEof) \<Rightarrow> (Inr (), reader\<lparr> src_data := [] \<rparr>, writer)
      | Inl Timeout \<Rightarrow>
          (case write_handshake_reply writer HANDSHAKE_ERR_TIMEOUT of
             (r, w) \<Rightarrow> (r, reader\<lparr> src_data := [] \<rparr>, w))
      | Inl e \<Rightarrow> (Inl e, reader\<lparr> src_data := [] \<rparr>, writer)
      | Inr (buf, reader') \<Rightarrow>
          (case parse_handshake buf of
             Inr _ \<Rightarrow> (case write_handshake_reply writer HANDSHAKE_OK of (r, w) \<Rightarrow> (r, reader', w))
           | Inl err \<Rightarrow>
               (case write_handshake_reply writer (handshake_error_code err) of
                  (r, w) \<Rightarrow> (r, reader', w))))"

section \<open>Properties\<close>

lemma take_12_nth:
  "length bs = 12 \<Longrightarrow>
     bs = [bs!0, bs!1, bs!2, bs!3, bs!4, bs!5, bs!6, bs!7, bs!8, bs!9, bs!10, bs!11]"
  by (rule nth_equalityI) (auto simp: less_Suc_eq numeral_eq_Suc)

lemma parse_handshake_preamble:
  assumes "length protocol = 4"
  shows "parse_handshake (preamble_bytes protocol (to_be_bytes_u32 sub) ver subver) =
    (if protocol \<noteq> PROTOCOL_ID then Inl InvalidProtocol
     else if ver \<noteq> VERSION then Inl (UnsupportedVersion ver)
     else Inr \<lparr> hs_sub_protocol = sub, hs_version = ver, hs_sub_version = subver \<rparr>)"
proof -
  from assms obtain a b c d where "protocol = [a, b, c, d]"
    by (auto simp: numeral_eq_Suc length_Suc_conv)
  then show ?thesis
    by (simp add: parse_handshake_def preamble_bytes_def slice_def to_be_bytes_u32_def
        to_be_bytes_u16_def)
qed

lemma preamble_bytes_surj:
  assumes "length buf = 12"
  obtains protocol sub ver subver where "length protocol = 4"
    and "buf = preamble_bytes protocol (to_be_bytes_u32 sub) ver subver"
proof
  show "length (take 4 buf) = 4" using assms by simp
  show "buf = preamble_bytes (take 4 buf)
      (to_be_bytes_u32 (from_be_bytes_u32 (buf!4) (buf!5) (buf!6) (buf!7)))
      (from_be_bytes_u16 (buf!8) (buf!9)) (from_be_bytes_u16 (buf!10) (buf!11))"
    using take_12_nth [OF assms] take_4_nth [of buf] assms
    by (simp add: preamble_bytes_def)
qed

lemma error_code_for_handshake_error:
  "error_code_for_decode (decode_error_for_handshake err) = Some (handshake_error_code err)"
  by (cases err) (simp_all add: error_code_from_str_def is_invalid_protocol_def
      is_unsupported_version_def HANDSHAKE_INVALID_PROTOCOL_TOKEN_def
      HANDSHAKE_UNSUPPORTED_VERSION_TOKEN_def)

text \<open>
  The handshake parser accepts exactly the messages a client builds with the
  protocol tag and version 1, and returns their fields.
\<close>

lemma parse_handshake_exact:
  assumes "length buf = HANDSHAKE_LEN"
  shows "parse_handshake buf = Inr h \<longleftrightarrow>
    buf = preamble_bytes PROTOCOL_ID (to_be_bytes_u32 (hs_sub_protocol h)) VERSION (hs_sub_version h)
    \<and> hs_version h = VERSION"
proof -
  from assms obtain protocol sub ver subver where p: "length protocol = 4"
    and buf: "buf = preamble_bytes protocol (to_be_bytes_u32 sub) ver subver"
    by (auto elim: preamble_bytes_surj)
  have len: "length PROTOCOL_ID = 4" by (simp add: PROTOCOL_ID_def)
  have "buf = preamble_bytes PROTOCOL_ID (to_be_bytes_u32 (hs_sub_protocol h)) VERSION
      (hs_sub_version h) \<longleftrightarrow>
    protocol = PROTOCOL_ID \<and> sub = hs_sub_protocol h \<and> ver = VERSION \<and> subver = hs_sub_version h"
    using p len by (simp add: buf preamble_bytes_def u32c.enc_append_inject u16c.enc_append_inject
        u16c.enc_inject)
  then show ?thesis
    unfolding buf parse_handshake_preamble [OF p]
    by (cases h) (auto simp: buf)
qed

lemma parse_handshake_exact_sample:
  "parse_handshake [0x54, 0x52, 0x54, 0x50, 0x48, 0x4F, 0x54, 0x4C, 0, 1, 0, 2] =
     Inr \<lparr> hs_sub_protocol = 0x484F544C, hs_version = 1, hs_sub_version = 2 \<rparr>"
  by (subst parse_handshake_exact)
    (simp_all add: preamble_bytes_def PROTOCOL_ID_def to_be_bytes_u32_def to_be_bytes_u16_def)

text \<open>
  C12: both runtimes answer a handshake alike.  For every twelve-byte message, the
  reply the wireframe handlers put on the socket is the reply of the legacy
  handshake: success for a good message, and the same error code otherwise, even
  though wireframe carries the reason through the text of a decode error.
\<close>

theorem handshake_replies_agree:
  assumes "length buf = HANDSHAKE_LEN" "src_data r = buf @ rest"
  shows "snd (snd (perform_handshake r w)) =
    (case preamble_borrow_decode (Inr buf) of
       Inr hs \<Rightarrow> fst (snd (success_handler hs (Inr peer) w))
     | Inl err \<Rightarrow> snd (failure_handler err w))"
  using assms
  by (auto simp: perform_handshake_def read_timeout_exact_append preamble_borrow_decode_def
      success_handler_def failure_handler_def error_code_for_handshake_error Let_def
      split: sum.splits prod.splits)

theorem handshake_replies_agree_witness:
  "snd (snd (perform_handshake \<lparr> src_data = [1, 2, 3, 4, 5, 6, 7, 8, 9, 10, 11, 12, 13],
       src_end = End_Eof \<rparr>
       \<lparr> snk_written = [], snk_room = None, snk_end = End_Eof, snk_flush_fault = None \<rparr>)) =
    (case preamble_borrow_decode (Inr [1, 2, 3, 4, 5, 6, 7, 8, 9, 10, 11, 12]) of
       Inr hs \<Rightarrow> fst (snd (success_handler hs (Inr (7 :: nat))
         \<lparr> snk_written = [], snk_room = None, snk_end = End_Eof, snk_flush_fault = None \<rparr>))
     | Inl err \<Rightarrow> snd (failure_handler err
         \<lparr> snk_written = [], snk_room = None, snk_end = End_Eof, snk_flush_fault = None \<rparr>))"
  by (rule handshake_replies_agree [where rest = "[13]"]) simp_all

end
