(* ===== verification/Compat.thy ===== *)
theory Compat
  imports Outbound Handshake_Protocol
begin

text \<open>
  Compatibility with legacy clients: \<^verbatim>\<open>src/src/wireframe/compat.rs\<close> (text fields
  whose bytes are inverted), \<^verbatim>\<open>src/src/wireframe/compat_policy/mod.rs\<close> (which client is
  speaking, and what its login reply needs), \<^verbatim>\<open>src/src/wireframe/login_reply_augmenter.rs\<close>
  and the frame hook of \<^verbatim>\<open>src/src/wireframe/protocol.rs\<close>.  The atomics of one connection
  are the fields of the records below; an operation that stores to them is a state
  transformer.
\<close>

section \<open>Inverted text fields\<close>

record XorCompatibility =
  xc_enabled :: bool

definition xor_from_handshake :: "HandshakeMetadata \<Rightarrow> XorCompatibility" where
  "xor_from_handshake handshake = \<lparr> xc_enabled = False \<rparr>"

definition xor_disabled :: XorCompatibility where
  "xor_disabled = \<lparr> xc_enabled = False \<rparr>"

definition xor_enabled :: XorCompatibility where
  "xor_enabled = \<lparr> xc_enabled = True \<rparr>"

definition is_enabled :: "XorCompatibility \<Rightarrow> bool" where
  "is_enabled c = xc_enabled c"

definition enable :: "XorCompatibility \<Rightarrow> XorCompatibility" where
  "enable c = c\<lparr> xc_enabled := True \<rparr>"

fun is_text_field :: "FieldId \<Rightarrow> bool" where
  "is_text_field F_Login = True"
| "is_text_field F_Password = True"
| "is_text_field F_ServerName = True"
| "is_text_field F_Data = True"
| "is_text_field F_NewsCategory = True"
| "is_text_field F_NewsArticle = True"
| "is_text_field F_NewsPath = True"
| "is_text_field F_NewsTitle = True"
| "is_text_field F_NewsPoster = True"
| "is_text_field F_NewsDataFlavor = True"
| "is_text_field F_NewsArticleData = True"
| "is_text_field F_FileName = True"
| "is_text_field _ = False"

definition xor_bytes :: "bytes \<Rightarrow> bytes" where
  "xor_bytes data = map (\<lambda>b. b XOR 0xff) data"

definition xor_params :: "(FieldId \<times> bytes) list \<Rightarrow> (FieldId \<times> bytes) list" where
  "xor_params params =
     map (\<lambda>(field, data). if is_text_field field then (field, xor_bytes data) else (field, data)) params"

definition detect_xor :: "(FieldId \<times> bytes) list \<Rightarrow> bool" where
  "detect_xor params =
     (case fold (\<lambda>(field, data) (saw_text, all_valid, all_xor_valid).
          if \<not> is_text_field field then (saw_text, all_valid, all_xor_valid)
          else (True,
                if from_utf8 data = None then False else all_valid,
                if from_utf8 (xor_bytes data) = None then False else all_xor_valid))
        params (False, True, True) of
      (saw_text, all_valid, all_xor_valid) \<Rightarrow> saw_text \<and> \<not> all_valid \<and> all_xor_valid)"

definition decode_payload :: "bytes \<Rightarrow> (XorCompatibility, TransactionError, bytes) st" where
  "decode_payload payload =
     (if payload = [] then st_return []
      else
        st_bind (st_lift (decode_params payload)) (\<lambda>params.
        if \<not> list_ex (\<lambda>(field, _). is_text_field field) params then st_return payload
        else
          st_bind (st_gets is_enabled) (\<lambda>enabled.
          if (if enabled then True else detect_xor params) then
            st_bind (st_lift (encode_params (xor_params params))) (\<lambda>encoded.
            st_bind (if enabled then st_return () else st_modify enable) (\<lambda>_.
              st_return encoded))
          else st_return payload)))"

definition encode_payload :: "XorCompatibility \<Rightarrow> bytes \<Rightarrow> bytes tx_result" where
  "encode_payload c payload =
     (if payload = [] \<or> \<not> is_enabled c then Inr payload
      else
        rbind (decode_params payload) (\<lambda>params.
        if \<not> list_ex (\<lambda>(field, _). is_text_field field) params then Inr payload
        else encode_params (xor_params params)))"

text \<open>The hook that rewrites an outgoing frame.\<close>

definition before_send :: "XorCompatibility \<Rightarrow> bytes \<Rightarrow> bytes" where
  "before_send c frame =
     (if \<not> is_enabled c then frame
      else
        (case parse_transaction frame of
           Inl _ \<Rightarrow> frame
         | Inr tx \<Rightarrow>
             (case encode_payload c (tx_payload tx) of
                Inl _ \<Rightarrow> frame
              | Inr encoded \<Rightarrow>
                  if encoded = tx_payload tx then frame
                  else write_bytes (tx_header tx) @ encoded)))"

section \<open>Client policy\<close>

definition UNKNOWN_LOGIN_VERSION :: u32 where [simp]: "UNKNOWN_LOGIN_VERSION = 0xFFFFFFFF"
definition SYNHX_SUB_VERSION :: u16 where [simp]: "SYNHX_SUB_VERSION = 2"
definition HOTLINE_85_MIN_VERSION :: u16 where [simp]: "HOTLINE_85_MIN_VERSION = 151"
definition HOTLINE_19_MIN_VERSION :: u16 where [simp]: "HOTLINE_19_MIN_VERSION = 190"
definition DEFAULT_BANNER_ID :: int where [simp]: "DEFAULT_BANNER_ID = 0"
definition DEFAULT_SERVER_NAME :: rstring where "DEFAULT_SERVER_NAME = ascii ''mxd''"

datatype ClientKind = SynHx | Hotline85 | Hotline19 | UnknownClient

record ClientCompatibility =
  cl_handshake_sub_version :: u16
  cl_login_version :: u32

definition client_from_handshake :: "HandshakeMetadata \<Rightarrow> ClientCompatibility" where
  "client_from_handshake handshake =
     \<lparr> cl_handshake_sub_version = hm_sub_version handshake, cl_login_version = UNKNOWN_LOGIN_VERSION \<rparr>"

definition record_login_version :: "u16 \<Rightarrow> ClientCompatibility \<Rightarrow> ClientCompatibility" where
  "record_login_version version c = c\<lparr> cl_login_version := ucast version \<rparr>"

definition login_version :: "ClientCompatibility \<Rightarrow> u16 option" where
  "login_version c =
     (let version = cl_login_version c in
      if version \<noteq> UNKNOWN_LOGIN_VERSION then u16_try_from (unat version) else None)"

definition kind :: "ClientCompatibility \<Rightarrow> ClientKind" where
  "kind c =
     (if cl_handshake_sub_version c = SYNHX_SUB_VERSION then SynHx
      else
        (case login_version c of
           Some version \<Rightarrow>
             if HOTLINE_19_MIN_VERSION \<le> version then Hotline19
             else if HOTLINE_85_MIN_VERSION \<le> version then Hotline85
             else UnknownClient
         | None \<Rightarrow> UnknownClient))"

definition should_include_login_extras :: "ClientCompatibility \<Rightarrow> bool" where
  "should_include_login_extras c \<longleftrightarrow> kind c = Hotline85 \<or> kind c = Hotline19"

definition parse_login_version :: "bytes \<Rightarrow> u16 option" where
  "parse_login_version data =
     (if length data = 2 then (case read_u16 data of Inr v \<Rightarrow> Some v | Inl _ \<Rightarrow> None)
      else if length data = 4 then
        (case read_u32 data of Inr raw \<Rightarrow> u16_try_from (unat raw) | Inl _ \<Rightarrow> None)
      else None)"

definition extract_login_version :: "bytes \<Rightarrow> u16 option tx_result" where
  "extract_login_version payload =
     rbind (decode_params payload) (\<lambda>params.
       case find (\<lambda>(field, _). field = F_Version) params of
         Some (_, data) \<Rightarrow> Inr (parse_login_version data)
       | None \<Rightarrow> Inr None)"

definition record_login_payload :: "bytes \<Rightarrow> (ClientCompatibility, TransactionError, unit) st" where
  "record_login_payload payload =
     st_bind (st_lift (extract_login_version payload)) (\<lambda>v.
       case v of Some version \<Rightarrow> st_modify (record_login_version version) | None \<Rightarrow> st_return ())"

definition is_successful_login_reply :: "Transaction \<Rightarrow> bool" where
  "is_successful_login_reply reply \<longleftrightarrow>
     fh_is_reply (tx_header reply) \<noteq> 0
     \<and> fh_error (tx_header reply) = 0
     \<and> transaction_type_from_u16 (fh_ty (tx_header reply)) = T_Login"

text \<open>The reply is the state: it is rewritten in place, payload first and header after.\<close>

definition augment_login_reply :: "ClientCompatibility \<Rightarrow> (Transaction, TransactionError, bool) st" where
  "augment_login_reply c =
     st_bind (st_gets is_successful_login_reply) (\<lambda>successful.
     if \<not> successful then st_return False
     else if \<not> should_include_login_extras c then st_return False
     else
       st_bind (st_gets tx_payload) (\<lambda>payload.
       st_bind (st_lift (decode_params payload)) (\<lambda>params.
         let has_banner_id = list_ex (\<lambda>(f, _). f = F_BannerId) params;
             has_server_name = list_ex (\<lambda>(f, _). f = F_ServerName) params;
             params = (if \<not> has_banner_id then params @ [(F_BannerId, i32_to_be_bytes DEFAULT_BANNER_ID)] else params);
             params = (if \<not> has_server_name then params @ [(F_ServerName, DEFAULT_SERVER_NAME)] else params)
         in
         if has_banner_id \<and> has_server_name then st_return False
         else
           st_bind (st_lift (encode_params params)) (\<lambda>encoded.
           st_bind (st_modify (\<lambda>reply. reply\<lparr> tx_payload := encoded \<rparr>)) (\<lambda>_.
           st_bind (st_lift (ok_or PayloadTooLarge (u32_try_from (length encoded)))) (\<lambda>payload_len.
           st_bind (st_modify (\<lambda>reply. reply\<lparr> tx_header :=
             (tx_header reply)\<lparr> fh_total_size := payload_len, fh_data_size := payload_len \<rparr> \<rparr>)) (\<lambda>_.
             st_return True)))))))"

text \<open>A failed augmentation is logged and the reply goes out as it stands.\<close>

definition augment :: "ClientCompatibility \<Rightarrow> Transaction \<Rightarrow> Transaction" where
  "augment client reply = snd (augment_login_reply client reply)"

section \<open>Inversion is an involution\<close>

definition texts :: "(FieldId \<times> bytes) list \<Rightarrow> bytes list" where
  "texts params = map snd (filter (\<lambda>p. is_text_field (fst p)) params)"

lemma xor_byte_twice [simp]: "((b :: byte) XOR 0xff) XOR 0xff = b"
  by (simp add: xor.assoc)

lemma xor_bytes_twice [simp]: "xor_bytes (xor_bytes data) = data"
  by (simp add: xor_bytes_def comp_def)

lemma length_xor_bytes [simp]: "length (xor_bytes data) = length data"
  by (simp add: xor_bytes_def)

lemma unat_xor_ff: "unat ((b :: byte) XOR 0xff) = 255 - unat b"
proof -
  have ff: "(0xff :: byte) = - 1" by simp
  have "b XOR 0xff = 0xff - b"
    unfolding ff by (simp add: not_eq_complement)
  moreover have "b \<le> 0xff"
    unfolding ff by (rule word_order.extremum)
  ultimately show ?thesis
    by (simp add: unat_sub)
qed

lemma xor_params_twice [simp]: "xor_params (xor_params ps) = ps"
  by (induction ps) (auto simp: xor_params_def)

lemma xor_params_fields [simp]:
  "map fst (xor_params ps) = map fst ps" "length (xor_params ps) = length ps"
  by (auto simp: xor_params_def)

lemma xor_params_sizes: "map (\<lambda>p. length (snd p)) (xor_params ps) = map (\<lambda>p. length (snd p)) ps"
  by (auto simp: xor_params_def)

lemma texts_xor [simp]: "texts (xor_params ps) = map xor_bytes (texts ps)"
  by (induction ps) (auto simp: texts_def xor_params_def split: if_splits)

lemma xor_params_no_text: "texts ps = [] \<Longrightarrow> xor_params ps = ps"
  by (induction ps) (auto simp: texts_def xor_params_def split: if_splits)

lemma any_text_iff: "list_ex (\<lambda>(field, _). is_text_field field) ps \<longleftrightarrow> texts ps \<noteq> []"
  by (induction ps) (auto simp: texts_def)

lemma params_wf_xor [simp]: "params_wf ctx (xor_params ps) = params_wf ctx ps"
proof -
  have "entries_wf (xor_params ps) \<longleftrightarrow> entries_wf ps"
    by (induction ps) (auto simp: xor_params_def split: if_splits)
  then show ?thesis by (simp add: params_wf_def)
qed

lemma length_wire_xor [simp]: "length (wire_params (xor_params ps)) = length (wire_params ps)"
  by (induction ps) (auto simp: wire_params_def xor_params_def field_entry_def)

lemma detect_xor_iff:
  "detect_xor ps \<longleftrightarrow>
     (\<exists>d\<in>set (texts ps). \<not> utf8_valid d) \<and> (\<forall>d\<in>set (texts ps). utf8_valid (xor_bytes d))"
proof -
  have "fold (\<lambda>(field, data) (saw_text, all_valid, all_xor_valid).
          if \<not> is_text_field field then (saw_text, all_valid, all_xor_valid)
          else (True,
                if from_utf8 data = None then False else all_valid,
                if from_utf8 (xor_bytes data) = None then False else all_xor_valid))
        ps (a, b, c) =
      (a \<or> texts ps \<noteq> [], b \<and> (\<forall>d\<in>set (texts ps). utf8_valid d),
       c \<and> (\<forall>d\<in>set (texts ps). utf8_valid (xor_bytes d)))" for a b c
    by (induction ps arbitrary: a b c) (auto simp: texts_def split: prod.splits)
  then show ?thesis by (auto simp: detect_xor_def)
qed

section \<open>What the hooks compute\<close>

lemma enable_simps [simp]:
  "is_enabled (enable c)" "is_enabled c \<Longrightarrow> enable c = c"
  "is_enabled xor_enabled" "\<not> is_enabled xor_disabled"
  by (simp_all add: is_enabled_def enable_def xor_enabled_def xor_disabled_def)

lemma decode_payload_params:
  assumes "decode_params payload = Inr ps"
  shows "decode_payload payload c =
    (if texts ps \<noteq> [] \<and> (is_enabled c \<or> detect_xor ps)
     then (Inr (wire_params (xor_params ps)), enable c) else (Inr payload, c))"
proof -
  have "payload \<noteq> [] \<Longrightarrow> encode_params (xor_params ps) = Inr (wire_params (xor_params ps))"
    using assms by (auto simp: decode_params_iff intro!: encode_params_wire [of DECODE_ONLY])
  moreover have "payload = [] \<Longrightarrow> ps = []"
    using assms by (simp add: decode_params_iff)
  ultimately show ?thesis
    using assms
    by (auto simp: decode_payload_def any_text_iff st_bind_def st_lift_def st_gets_def st_return_def
        st_modify_def texts_def [of "[]"])
qed

lemma encode_payload_params:
  assumes "decode_params payload = Inr ps" "is_enabled c" "payload \<noteq> []"
  shows "encode_payload c payload = Inr (wire_params (xor_params ps))"
proof -
  have "payload = wire_params ps" "encode_params (xor_params ps) = Inr (wire_params (xor_params ps))"
    using assms by (auto simp: decode_params_iff intro!: encode_params_wire [of DECODE_ONLY])
  then show ?thesis
    using assms by (auto simp: encode_payload_def any_text_iff xor_params_no_text)
qed

lemma wire_params_inject:
  "wire_params ps = wire_params qs \<Longrightarrow> params_wf DECODE_ONLY ps \<Longrightarrow> params_wf DECODE_ONLY qs \<Longrightarrow> ps = qs"
  using decode_params_iff [of "wire_params ps" ps] decode_params_iff [of "wire_params ps" qs] by simp

lemma validate_xored:
  assumes "validate_payload_parts h payload = Inr ()" "decode_params payload = Inr ps" "payload \<noteq> []"
  shows "validate_payload_parts h (wire_params (xor_params ps)) = Inr ()"
proof -
  have wire: "payload = wire_params ps" "params_wf DECODE_ONLY ps"
    using assms(2,3) by (simp_all add: decode_params_iff)
  have "params_wf (context_from_header h) ps" if "payload = wire_params qs" "params_wf (context_from_header h) qs" for qs
    using that wire wire_params_inject [of ps qs] params_wf_decode_only [OF that(2)] by simp
  then show ?thesis
    using assms(1,3) unfolding validate_payload_parts_iff
    by (auto simp: wire(1) intro: exI [of _ "xor_params ps"])
qed

lemma decode_wire_xor:
  "decode_params payload = Inr ps \<Longrightarrow> payload \<noteq> [] \<Longrightarrow>
     decode_params (wire_params (xor_params ps)) = Inr (xor_params ps)"
  by (simp add: decode_params_iff)

lemma decode_xored:
  assumes "decode_params payload = Inr ps" "payload \<noteq> []" "is_enabled c"
  shows "decode_payload (wire_params (xor_params ps)) c = (Inr payload, c)"
proof -
  have "payload = wire_params ps"
    using assms by (simp add: decode_params_iff)
  then show ?thesis
    using decode_payload_params [OF decode_wire_xor [OF assms(1,2)], of c] assms(3)
    by (auto simp: xor_params_no_text)
qed

lemma xor_letter_invalid:
  assumes "0x40 \<le> b" "b < 0x80" shows "\<not> utf8_valid (xor_bytes (b # bs))"
proof -
  have "64 \<le> unat b" "unat b < 128"
    using assms by (simp_all add: word_le_nat_alt word_less_nat_alt)
  then have "in_range 0x80 0xBF (b XOR 0xff)"
    by (simp add: in_range_def word_le_nat_alt unat_xor_ff) arith
  then show ?thesis
    by (auto simp: xor_bytes_def in_range_def word_le_nat_alt word_less_nat_alt)
qed

text \<open>
  Clients that invert their text are understood, and others are left alone.  On a
  connection where inversion has not been seen, take any well-formed parameter list
  whose text fields are ASCII, one of them starting with a letter (or any byte from
  0x40 up).  Sent as it is, the payload reaches the dispatcher byte for byte and
  nothing is recorded.  Sent inverted, the dispatcher gets the very same payload and
  the connection is marked, so replies will be inverted too.
\<close>

lemma xor_client_understood:
  assumes "decode_params payload = Inr ps" "\<not> is_enabled c"
    and "\<forall>d\<in>set (texts ps). \<forall>b\<in>set d. b < 0x80"
    and "b # bs \<in> set (texts ps)" "0x40 \<le> b"
  shows "decode_payload payload c = (Inr payload, c)
     \<and> (\<exists>wire. encode_payload xor_enabled payload = Inr wire
           \<and> decode_payload wire c = (Inr payload, enable c))"
proof
  have valid: "\<forall>d\<in>set (texts ps). utf8_valid d"
    using assms(3) by (auto intro: utf8_valid_ascii)
  then have "\<not> detect_xor ps"
    by (auto simp: detect_xor_iff)
  with assms(2) show "decode_payload payload c = (Inr payload, c)"
    by (simp add: decode_payload_params [OF assms(1)])
  have ne: "payload \<noteq> []"
    using assms(1,4) by (auto simp: decode_params_iff texts_def)
  then have wire: "payload = wire_params ps"
    using assms(1) by (simp add: decode_params_iff)
  have "\<not> utf8_valid (xor_bytes (b # bs))"
    using assms(3-5) by (intro xor_letter_invalid) force+
  then have "detect_xor (xor_params ps)"
    using valid assms(4) by (force simp: detect_xor_iff)
  moreover have "texts (xor_params ps) \<noteq> []"
    using assms(4) by auto
  ultimately have "decode_payload (wire_params (xor_params ps)) c = (Inr payload, enable c)"
    by (simp add: decode_payload_params [OF decode_wire_xor [OF assms(1) ne]] wire)
  then show "\<exists>wire. encode_payload xor_enabled payload = Inr wire
           \<and> decode_payload wire c = (Inr payload, enable c)"
    using encode_payload_params [OF assms(1) _ ne, of xor_enabled] by simp
qed

text \<open>A login request that carries the password \<^verbatim>\<open>b\<close>.\<close>

definition password_payload :: bytes where
  "password_payload = [0, 1, 0, 106, 0, 1, 98]"

lemma decode_password_payload: "decode_params password_payload = Inr [(F_Password, [98])]"
  by (simp add: password_payload_def decode_params_iff wire_params_def field_entry_def to_be_bytes_u16_def
      params_wf_def no_repeats_def canonical_field_named)

text \<open>
  The letter is needed.  An inverted digit looks like the first byte of a two-byte
  sequence and an inverted letter like its second, so the inverted password
  \<^verbatim>\<open>1a\<close> is UTF-8 text itself and is handed on as it came.
\<close>

lemma xor_digit_letter_missed:
  "decode_payload [0, 1, 0, 106, 0, 2, 0xce, 0x9e] xor_disabled
     = (Inr [0, 1, 0, 106, 0, 2, 0xce, 0x9e], xor_disabled)
   \<and> xor_bytes [0xce, 0x9e] = ascii ''1a''"
proof -
  have "decode_params [0, 1, 0, 106, 0, 2, 0xce, 0x9e] = Inr [(F_Password, [0xce, 0x9e])]"
    by (simp add: decode_params_iff wire_params_def field_entry_def to_be_bytes_u16_def
        params_wf_def no_repeats_def canonical_field_named)
  from decode_payload_params [OF this] show ?thesis
    by (simp add: detect_xor_iff texts_def in_range_def ascii_def xor_bytes_def)
qed


definition inverted_reply :: Transaction where
  "inverted_reply =
     \<lparr> tx_header = \<lparr> fh_flags = 0, fh_is_reply = 1, fh_ty = 400, fh_id = 7, fh_error = 0,
                     fh_total_size = 7, fh_data_size = 7 \<rparr>,
       tx_payload = password_payload \<rparr>"

lemma parse_password_payload:
  assumes "fh_total_size h = 7"
  shows "parse_transaction (to_bytes \<lparr> tx_header = h, tx_payload = password_payload \<rparr>)
    = Inr \<lparr> tx_header = h, tx_payload = password_payload \<rparr>"
proof -
  have "password_payload = wire_params [(F_Password, [98])]" "params_wf ctx [(F_Password, [98])]" for ctx
    by (simp_all add: password_payload_def wire_params_def field_entry_def to_be_bytes_u16_def
        params_wf_def no_repeats_def canonical_field_named)
  moreover have "length password_payload = 7"
    by (simp add: password_payload_def)
  ultimately show ?thesis
    using assms
    by (auto simp: parse_transaction_iff transaction_wf_def validate_payload_def validate_payload_parts_iff)
qed


section \<open>The login reply of a Hotline client\<close>

definition login_extras :: "(FieldId \<times> bytes) list \<Rightarrow> (FieldId \<times> bytes) list" where
  "login_extras ps =
     (if F_BannerId \<in> fst ` set ps then [] else [(F_BannerId, [0, 0, 0, 0])])
     @ (if F_ServerName \<in> fst ` set ps then [] else [(F_ServerName, ascii ''mxd'')])"

lemma login_extras_parts:
  "length (login_extras ps) \<le> 2" "length (concat (map field_entry (login_extras ps))) \<le> 15"
  by (simp_all add: login_extras_def field_entry_def)

lemma params_wf_snoc:
  assumes "params_wf ctx ps" "length ps < u16_max" "canonical_field f" "f \<notin> fst ` set ps" "length d \<le> u16_max"
  shows "params_wf ctx (ps @ [(f, d)])"
proof -
  have "field_id_to_u16 f \<noteq> field_id_to_u16 g" if "g \<in> set (map fst ps)" for g
  proof
    assume "field_id_to_u16 f = field_id_to_u16 g"
    moreover have "canonical_field g"
      using that assms(1) by (auto simp: params_wf_def)
    ultimately have "f = g"
      using assms(3) by (metis canonical_field_def)
    with that assms(4) show False by simp
  qed
  then have "no_repeats ctx (map fst ps @ [f])"
    using assms(1) by (auto simp: params_wf_def no_repeats_def)
  then show ?thesis
    using assms by (auto simp: params_wf_def)
qed

lemma params_wf_extras:
  assumes "params_wf DECODE_ONLY ps" "length ps < 65534"
  shows "params_wf DECODE_ONLY (ps @ login_extras ps)"
proof -
  let ?qs = "ps @ (if F_BannerId \<in> fst ` set ps then [] else [(F_BannerId, [0, 0, 0, 0])])"
  have "params_wf DECODE_ONLY ?qs"
    using assms by (auto intro: params_wf_snoc canonical_field_named)
  moreover have "length ?qs < u16_max" using assms(2) by simp
  ultimately have "params_wf DECODE_ONLY (?qs @ (if F_ServerName \<in> fst ` set ps then [] else [(F_ServerName, ascii ''mxd'')]))"
    using params_wf_snoc [of DECODE_ONLY ?qs F_ServerName "ascii ''mxd''"] by (auto simp: canonical_field_named)
  then show ?thesis
    by (simp add: login_extras_def del: append_assoc add: append_assoc [symmetric])
qed

lemma augment_login_reply_params:
  assumes "decode_params (tx_payload r) = Inr ps" "length ps < 65534" "length (tx_payload r) < 4294967278"
  shows "augment c r =
    (if is_successful_login_reply r \<and> should_include_login_extras c \<and> login_extras ps \<noteq> []
     then let payload = wire_params (ps @ login_extras ps) in
       r\<lparr> tx_payload := payload,
          tx_header := (tx_header r)\<lparr> fh_total_size := of_nat (length payload),
                                      fh_data_size := of_nat (length payload) \<rparr> \<rparr>
     else r)"
proof -
  have wf: "params_wf DECODE_ONLY ps" "length (wire_params ps) \<le> length (tx_payload r) + 2"
    using assms(1) by (auto simp: decode_params_iff params_wf_def no_repeats_def wire_params_def)
  have enc: "encode_params (ps @ login_extras ps) = Inr (wire_params (ps @ login_extras ps))"
    by (rule encode_params_wire [OF params_wf_extras [OF wf(1) assms(2)]])
  have len: "length (wire_params (ps @ login_extras ps)) \<le> u32_max"
    using wf(2) assms(3) login_extras_parts(2) [of ps] by (simp add: wire_params_def)
  have has: "list_ex (\<lambda>(f, _). f = g) ps \<longleftrightarrow> g \<in> fst ` set ps" for g
    by (auto simp: list_ex_iff image_iff Bex_def)
  show ?thesis
    using enc len
    by (auto simp: augment_def augment_login_reply_def st_bind_def st_gets_def st_lift_def st_return_def
        st_modify_def assms(1) Let_def has login_extras_def i32_to_be_bytes_def DEFAULT_SERVER_NAME_def
        to_be_bytes_u32_def u32_try_from_def)
qed

text \<open>After the login request, the client is what its sub-version and its login version say.\<close>

lemma login_version_recorded: "login_version (record_login_version v c) = Some v"
proof -
  have v: "unat v < 2 ^ 32" "unat v \<noteq> u32_max"
    using unat_u16_le [of v] by (simp_all del: unat_u16_le)
  have eq: "unat (ucast v :: u32) = unat v"
    using take_bit_nat_eq_self [OF v(1)] by (simp add: unsigned_ucast_eq)
  have "(ucast v :: u32) \<noteq> 0xFFFFFFFF"
    using v(2) unfolding eq [symmetric] by auto
  then show ?thesis
    by (simp add: login_version_def record_login_version_def u16_try_from_def Let_def eq)
qed

lemma extras_wanted_recorded:
  "should_include_login_extras (record_login_version v (client_from_handshake hs)) \<longleftrightarrow>
     hm_sub_version hs \<noteq> 2 \<and> 151 \<le> v"
proof -
  have "cl_handshake_sub_version (record_login_version v (client_from_handshake hs)) = hm_sub_version hs"
    by (simp add: record_login_version_def client_from_handshake_def)
  moreover have "190 \<le> v \<Longrightarrow> 151 \<le> v"
    by (simp add: word_le_nat_alt)
  ultimately show ?thesis
    by (auto simp: should_include_login_extras_def kind_def login_version_recorded)
qed

text \<open>
  C33: what a client's login reply carries.  Once the request's version is recorded, a
  successful login reply gets the banner id and the server name appended, unless it
  has them already, exactly for the clients that are not SynHX (sub-version 2) and
  report a version of at least 151.  For every other client the reply is unchanged.
  In both cases it keeps its header but for the two sizes, and total and data size
  both stay the length of the payload.
\<close>

theorem login_reply_extras:
  fixes hs :: HandshakeMetadata and v :: u16
  defines "client \<equiv> record_login_version v (client_from_handshake hs)"
  assumes "decode_params (tx_payload r) = Inr ps" "is_successful_login_reply r"
    and "length ps < 65534" "length (tx_payload r) < 4294967278"
    and "unat (fh_total_size (tx_header r)) = length (tx_payload r)"
    and "unat (fh_data_size (tx_header r)) = length (tx_payload r)"
  shows "decode_params (tx_payload (augment client r)) =
           Inr (ps @ (if hm_sub_version hs \<noteq> 2 \<and> 151 \<le> v then login_extras ps else []))
    \<and> unat (fh_total_size (tx_header (augment client r))) = length (tx_payload (augment client r))
    \<and> unat (fh_data_size (tx_header (augment client r))) = length (tx_payload (augment client r))
    \<and> (hm_sub_version hs \<noteq> 2 \<and> 151 \<le> v \<or> augment client r = r)
    \<and> (tx_header (augment client r))\<lparr> fh_total_size := 0, fh_data_size := 0 \<rparr>
        = (tx_header r)\<lparr> fh_total_size := 0, fh_data_size := 0 \<rparr>"
proof -
  have wf: "params_wf DECODE_ONLY ps" "length (wire_params ps) \<le> length (tx_payload r) + 2"
    using assms(2) by (auto simp: decode_params_iff params_wf_def no_repeats_def wire_params_def)
  have len: "length (wire_params (ps @ login_extras ps)) \<le> u32_max"
    using wf(2) assms(5) login_extras_parts(2) [of ps] by (simp add: wire_params_def)
  have "decode_params (wire_params (ps @ login_extras ps)) = Inr (ps @ login_extras ps)"
    using params_wf_extras [OF wf(1) assms(4)] by (simp add: decode_params_iff)
  then show ?thesis
    unfolding augment_login_reply_params [OF assms(2,4,5)] client_def extras_wanted_recorded
    using assms(2,3,6,7) len
    by (auto simp: Let_def unat_of_nat take_bit_nat_eq_self)
qed

definition login_ok_reply :: Transaction where
  "login_ok_reply =
     \<lparr> tx_header = \<lparr> fh_flags = 0, fh_is_reply = 1, fh_ty = 107, fh_id = 7, fh_error = 0,
                     fh_total_size = 0, fh_data_size = 0 \<rparr>,
       tx_payload = [] \<rparr>"

theorem login_reply_extras_witness:
  "decode_params (tx_payload (augment (record_login_version 151 (client_from_handshake metadata_default)) login_ok_reply)) =
     Inr [(F_BannerId, [0, 0, 0, 0]), (F_ServerName, ascii ''mxd'')]
   \<and> unat (fh_data_size (tx_header (augment (record_login_version 151 (client_from_handshake metadata_default)) login_ok_reply))) =
       length (tx_payload (augment (record_login_version 151 (client_from_handshake metadata_default)) login_ok_reply))"
  using login_reply_extras [of login_ok_reply "[]" 151 metadata_default]
  by (simp add: login_ok_reply_def decode_params_iff is_successful_login_reply_def metadata_default_def
      login_extras_def transaction_type_from_u16_def)

end
