(* ===== verification/Db_Tables.thy ===== *)
theory Db_Tables
  imports Sessions "HOL-Library.List_Lexorder"
begin

text \<open>
  The stored data and how statements run on it.  The rows are the structs of
  \<^verbatim>\<open>src/src/models.rs\<close>, a table is the list of its rows, and a connection is the
  tables together with what the database engine decides by itself: which
  statements fail, which row id an insert gets and what the clock shows.  Those
  decisions are fields of the connection, so every theorem holds for all of them.
  \<^verbatim>\<open>ORDER BY name\<close> compares the bytes of the names, ties keep the row order.
  Time stamps are microseconds.
\<close>

section \<open>Rows\<close>

record User =
  us_id :: i32
  us_username :: rstring
  us_password :: rstring

record Category =
  ca_id :: i32
  ca_bundle_id :: "i32 option"
  ca_name :: rstring
  ca_guid :: "rstring option"
  ca_add_sn :: "i32 option"
  ca_delete_sn :: "i32 option"
  ca_created_at :: "int option"

record Bundle =
  bu_id :: i32
  bu_parent_bundle_id :: "i32 option"
  bu_name :: rstring
  bu_guid :: "rstring option"
  bu_created_at :: "int option"

record Article =
  ar_id :: i32
  ar_category_id :: i32
  ar_parent_article_id :: "i32 option"
  ar_prev_article_id :: "i32 option"
  ar_next_article_id :: "i32 option"
  ar_first_child_article_id :: "i32 option"
  ar_title :: rstring
  ar_poster :: "rstring option"
  ar_posted_at :: int
  ar_flags :: i32
  ar_data_flavor :: "rstring option"
  ar_data :: "rstring option"

datatype FileNodeKind = FNK_File | FNK_Folder | FNK_Alias

fun file_node_kind_as_str :: "FileNodeKind \<Rightarrow> rstring" where
  "file_node_kind_as_str FNK_File = ascii ''file''"
| "file_node_kind_as_str FNK_Folder = ascii ''folder''"
| "file_node_kind_as_str FNK_Alias = ascii ''alias''"

record Permission =
  pm_id :: i32
  pm_code :: i32
  pm_name :: rstring
  pm_description :: rstring

record Group =
  gr_id :: i32
  gr_name :: rstring

record FileNode =
  fn_id :: i32
  fn_kind :: rstring
  fn_name :: rstring
  fn_parent_id :: "i32 option"
  fn_alias_target_id :: "i32 option"
  fn_object_key :: "rstring option"
  fn_size :: "int option"
  fn_comment :: "rstring option"
  fn_is_dropbox :: bool
  fn_creator_id :: i32
  fn_created_at :: int
  fn_updated_at :: int

record VisibleFileNode =
  vf_id :: i32
  vf_name :: rstring
  vf_kind :: rstring

record ResourcePermission =
  rp_resource_type :: rstring
  rp_resource_id :: i32
  rp_principal_type :: rstring
  rp_principal_id :: i32
  rp_permission_id :: i32

text \<open>The rows of the legacy \<^verbatim>\<open>files\<close> table.\<close>

record LegacyFile =
  lf_id :: i32
  lf_name :: rstring
  lf_object_key :: rstring
  lf_size :: int

record Tables =
  tb_users :: "User list"
  tb_news_bundles :: "Bundle list"
  tb_news_categories :: "Category list"
  tb_news_articles :: "Article list"
  tb_file_nodes :: "FileNode list"
  tb_permissions :: "Permission list"
  tb_groups :: "Group list"
  tb_user_groups :: "(i32 \<times> i32) list"
  tb_resource_permissions :: "ResourcePermission list"
  tb_files :: "LegacyFile list"
  tb_file_acl :: "(i32 \<times> i32) list"
  tb_user_permissions :: "(i32 \<times> i32) list"

definition empty_tables :: Tables where
  "empty_tables = \<lparr> tb_users = [], tb_news_bundles = [], tb_news_categories = [],
     tb_news_articles = [], tb_file_nodes = [], tb_permissions = [], tb_groups = [],
     tb_user_groups = [], tb_resource_permissions = [], tb_files = [], tb_file_acl = [],
     tb_user_permissions = [] \<rparr>"

section \<open>Statements\<close>

type_synonym DieselError = string

record DbConn =
  dc_tables :: Tables
  dc_clock :: nat
  dc_fault :: "nat \<Rightarrow> DieselError option"
  dc_new_id :: "i32 list \<Rightarrow> i32"
  dc_now :: "nat \<Rightarrow> int"

type_synonym ('e, 'a) db = "(DbConn, 'e, 'a) st"

text \<open>One statement: it fails when the engine says so, and time passes either way.\<close>

definition run_update :: "(DbConn \<Rightarrow> Tables \<Rightarrow> 'a \<times> Tables) \<Rightarrow> (DieselError, 'a) db" where
  "run_update f c =
     (let c' = c\<lparr> dc_clock := Suc (dc_clock c) \<rparr> in
      case dc_fault c (dc_clock c) of
        Some e \<Rightarrow> (Inl e, c')
      | None \<Rightarrow> (case f c (dc_tables c) of (a, t) \<Rightarrow> (Inr a, c'\<lparr> dc_tables := t \<rparr>)))"

definition run_query :: "(Tables \<Rightarrow> 'a) \<Rightarrow> (DieselError, 'a) db" where
  "run_query f = run_update (\<lambda>_ t. (f t, t))"

text \<open>
  SQLite's \<^verbatim>\<open>last_insert_rowid()\<close>, asked for right after an insertion; the argument is the id
  that insertion generated.
\<close>

definition fetch_last_insert_rowid :: "i32 \<Rightarrow> (DieselError, i32) db" where
  "fetch_last_insert_rowid inserted_id = run_query (\<lambda>_. inserted_id)"

text \<open>
  A transaction restores the tables when its body or its commit fails.
\<close>

definition transaction :: "(DieselError \<Rightarrow> 'e) \<Rightarrow> ('e, 'a) db \<Rightarrow> ('e, 'a) db" where
  "transaction of_diesel body c =
     (case st_bind (st_map_err of_diesel (run_query (\<lambda>_. ()))) (\<lambda>_.
           st_bind body (\<lambda>a. st_bind (st_map_err of_diesel (run_query (\<lambda>_. ()))) (\<lambda>_. st_return a))) c of
        (Inl e, c') \<Rightarrow> (Inl e, c'\<lparr> dc_tables := dc_tables c \<rparr>)
      | (Inr a, c') \<Rightarrow> (Inr a, c'))"

text \<open>\<^verbatim>\<open>first(conn).optional()\<close>: the first row, or none.\<close>

fun first_row :: "'a list \<Rightarrow> 'a option" where
  "first_row [] = None"
| "first_row (x # xs) = Some x"

lemma first_row_find: "first_row (filter P xs) = find P xs"
  by (induction xs) auto

lemma first_row_mem: "first_row xs = Some x \<Longrightarrow> x \<in> set xs"
  by (cases xs) auto

lemma first_row_None [simp]: "first_row xs = None \<longleftrightarrow> xs = []"
  by (cases xs) auto

text \<open>A connection whose statements all succeed.\<close>

definition healthy :: "DbConn \<Rightarrow> bool" where
  "healthy c \<longleftrightarrow> (\<forall>n. dc_fault c n = None)"

lemma healthy_update [simp]:
  "healthy (c\<lparr> dc_clock := n \<rparr>) = healthy c" "healthy (c\<lparr> dc_tables := t \<rparr>) = healthy c"
  by (simp_all add: healthy_def)

lemma run_update_healthy:
  "healthy c \<Longrightarrow> run_update f c =
     (Inr (fst (f c (dc_tables c))),
      c\<lparr> dc_clock := Suc (dc_clock c), dc_tables := snd (f c (dc_tables c)) \<rparr>)"
  by (simp add: run_update_def healthy_def Let_def split: prod.split)

lemma run_query_healthy:
  "healthy c \<Longrightarrow> run_query f c = (Inr (f (dc_tables c)), c\<lparr> dc_clock := Suc (dc_clock c) \<rparr>)"
  by (simp add: run_query_def run_update_healthy)

lemma st_bind_query_healthy:
  "healthy c \<Longrightarrow> st_bind (st_map_err g (run_query f)) k c =
     k (f (dc_tables c)) (c\<lparr> dc_clock := Suc (dc_clock c) \<rparr>)"
  by (simp add: st_bind_def st_map_err_def run_query_healthy)

lemma run_query_Inr:
  "run_query f c = (Inr a, c') \<longleftrightarrow>
     dc_fault c (dc_clock c) = None \<and> a = f (dc_tables c) \<and> c' = c\<lparr> dc_clock := Suc (dc_clock c) \<rparr>"
  by (auto simp: run_query_def run_update_def Let_def split: option.splits)

lemma run_update_Inr:
  "run_update f c = (Inr a, c') \<longleftrightarrow>
     dc_fault c (dc_clock c) = None \<and> a = fst (f c (dc_tables c))
     \<and> c' = c\<lparr> dc_clock := Suc (dc_clock c), dc_tables := snd (f c (dc_tables c)) \<rparr>"
  by (auto simp: run_update_def Let_def split: option.splits prod.splits)

lemmas db_success =
  st_bind_Inr st_map_err_Inr st_lift_Inr st_return_Inr run_query_Inr run_update_Inr

lemma run_query_tables: "run_query f c = (r, c') \<Longrightarrow> dc_tables c' = dc_tables c"
  by (auto simp: run_query_def run_update_def Let_def split: option.splits)

lemma transaction_rolls_back:
  "transaction g m c = (Inl e, c') \<Longrightarrow> dc_tables c' = dc_tables c"
  by (auto simp: transaction_def split: prod.splits sum.splits)

text \<open>
  The engine behind a connection stays the same whatever statements run on it, and a
  program of queries leaves the tables alone.
\<close>

definition same_engine :: "DbConn \<Rightarrow> DbConn \<Rightarrow> bool" where
  "same_engine c c' \<longleftrightarrow>
     dc_fault c' = dc_fault c \<and> dc_new_id c' = dc_new_id c \<and> dc_now c' = dc_now c"

definition same_db :: "DbConn \<Rightarrow> DbConn \<Rightarrow> bool" where
  "same_db c c' \<longleftrightarrow> same_engine c c' \<and> dc_tables c' = dc_tables c"

lemma same_preorders [steps_intros]:
  "reflp same_engine" "transp same_engine" "reflp same_db" "transp same_db"
  by (auto simp: same_engine_def same_db_def reflp_def transp_def)

lemma wp_run_update [wp_simps]:
  "wp (run_update f) Q E c =
     (let c' = c\<lparr> dc_clock := Suc (dc_clock c) \<rparr> in
      case dc_fault c (dc_clock c) of
        None \<Rightarrow> Q (fst (f c (dc_tables c))) (c'\<lparr> dc_tables := snd (f c (dc_tables c)) \<rparr>)
      | Some e \<Rightarrow> E e c')"
  by (simp add: wp_def run_update_def Let_def split: option.split prod.split)

lemma steps_statements [steps_intros]:
  "steps same_engine (run_update f)" "steps same_engine (run_query q)" "steps same_db (run_query q)"
  by (simp_all add: steps_def run_query_def wp_simps Let_def same_db_def same_engine_def split: option.split)

lemma steps_transaction [steps_intros]:
  assumes "steps same_engine m" shows "steps same_engine (transaction g m)"
proof -
  have "steps same_engine (st_bind (st_map_err g (run_query (\<lambda>_. ()))) (\<lambda>_.
          st_bind m (\<lambda>a. st_bind (st_map_err g (run_query (\<lambda>_. ()))) (\<lambda>_. st_return a))))"
    by (intro steps_intros assms)
  then show ?thesis
    by (auto simp: steps_def wp_def transaction_def same_engine_def split: prod.splits sum.splits)
qed

lemma same_engine_healthy: "same_engine c c' \<Longrightarrow> healthy c \<Longrightarrow> healthy c'"
  by (auto simp: same_engine_def healthy_def)

section \<open>Users\<close>

definition get_user_by_name :: "rstring \<Rightarrow> (DieselError, User option) db" where
  "get_user_by_name name =
     run_query (\<lambda>t. first_row (filter (\<lambda>u. us_username u = name) (tb_users t)))"

definition get_user_by_id :: "i32 \<Rightarrow> (DieselError, User option) db" where
  "get_user_by_id user_id_value =
     run_query (\<lambda>t. first_row (filter (\<lambda>u. us_id u = user_id_value) (tb_users t)))"

definition create_user :: "rstring \<Rightarrow> rstring \<Rightarrow> (DieselError, nat) db" where
  "create_user username password =
     run_update (\<lambda>c t.
       (1, t\<lparr> tb_users := tb_users t @
              [\<lparr> us_id = dc_new_id c (map us_id (tb_users t)), us_username = username,
                 us_password = password \<rparr>] \<rparr>))"

end
