(* ===== verification/News_Store.thy ===== *)
theory News_Store
  imports Db_Tables
begin

text \<open>
  News queries: path preparation and the recursive path queries of
  \<^verbatim>\<open>src/src/news_path.rs\<close>, and the bundle, category and article helpers of
  \<^verbatim>\<open>src/src/db\<close>.  The recursive query is the list of its rows per depth, computed
  by the join its step text describes.  The JSON text that carries the path
  segments into the query is represented by the segments.
\<close>

section \<open>Paths\<close>

abbreviation slash :: byte where
  "slash \<equiv> 47"

definition trim_matches :: "byte \<Rightarrow> rstring \<Rightarrow> rstring" where
  "trim_matches ch s = rev (dropWhile (\<lambda>b. b = ch) (rev (dropWhile (\<lambda>b. b = ch) s)))"

fun split_on :: "byte \<Rightarrow> rstring \<Rightarrow> rstring list" where
  "split_on ch [] = [[]]"
| "split_on ch (b # bs) =
     (if b = ch then [] # split_on ch bs
      else (case split_on ch bs of
              [] \<Rightarrow> [[b]]
            | seg # segs \<Rightarrow> (b # seg) # segs))"

definition prepare_path :: "rstring \<Rightarrow> (rstring list \<times> nat) option" where
  "prepare_path path =
     (let trimmed = trim_matches slash path in
      if trimmed = [] then None
      else (let parts = split_on slash trimmed in Some (parts, length parts)))"

datatype PathLookupError = InvalidPath | PL_Diesel DieselError | PL_Serde string

definition parse_path_segments ::
  "rstring \<Rightarrow> bool \<Rightarrow> (PathLookupError, (rstring list \<times> nat) option) result" where
  "parse_path_segments path allow_empty =
     (case prepare_path path of
        None \<Rightarrow> if allow_empty then Inr None else Inl InvalidPath
      | Some (json, len) \<Rightarrow> Inr (Some (json, len)))"

definition normalize_lookup_result ::
  "i32 option \<Rightarrow> bool \<Rightarrow> (PathLookupError, i32 option) result" where
  "normalize_lookup_result found require_match =
     (if require_match \<and> found = None then Inl InvalidPath else Inr found)"

definition i32_try_from :: "nat \<Rightarrow> i32 option" where
  "i32_try_from n = (if n \<le> 2147483647 then Some (int n) else None)"

section \<open>The recursive path query\<close>

text \<open>
  The join condition: the bundle has the segment's name and hangs below the current
  row, a row without id standing for the root.
\<close>

definition bundle_matches :: "rstring \<Rightarrow> i32 option \<Rightarrow> Bundle \<Rightarrow> bool" where
  "bundle_matches seg tree_id b \<longleftrightarrow>
     bu_name b = seg \<and> (tree_id = None \<and> bu_parent_bundle_id b = None
       \<or> (tree_id \<noteq> None \<and> bu_parent_bundle_id b = tree_id))"

definition bundle_step :: "Bundle list \<Rightarrow> rstring \<Rightarrow> i32 option \<Rightarrow> i32 option list" where
  "bundle_step bundles seg tree_id =
     map (\<lambda>b. Some (bu_id b)) (filter (bundle_matches seg tree_id) bundles)"

text \<open>A left join keeps the current row, with no id, when nothing matches.\<close>

definition category_step :: "Bundle list \<Rightarrow> rstring \<Rightarrow> i32 option \<Rightarrow> i32 option list" where
  "category_step bundles seg tree_id =
     (case bundle_step bundles seg tree_id of [] \<Rightarrow> [None] | rows \<Rightarrow> rows)"

text \<open>The \<^verbatim>\<open>id\<close> column of the rows with \<^verbatim>\<open>idx\<close> equal to the number of segments consumed.\<close>

fun tree_rows :: "(rstring \<Rightarrow> i32 option \<Rightarrow> i32 option list) \<Rightarrow> rstring list \<Rightarrow> nat \<Rightarrow> i32 option list" where
  "tree_rows step segs 0 = [None]"
| "tree_rows step segs (Suc k) =
     (if k < length segs then concat (map (step (segs ! k)) (tree_rows step segs k)) else [])"

definition bundle_id_from_path :: "rstring \<Rightarrow> (PathLookupError, i32 option) db" where
  "bundle_id_from_path path =
     st_bind (st_lift (parse_path_segments path True)) (\<lambda>parsed.
       case parsed of
         None \<Rightarrow> st_return None
       | Some (json, len) \<Rightarrow>
           st_bind (st_lift (ok_or InvalidPath (i32_try_from len))) (\<lambda>_.
           st_bind (st_map_err PL_Diesel (run_query (\<lambda>t.
             first_row (tree_rows (bundle_step (tb_news_bundles t)) json len)))) (\<lambda>res.
             st_lift (normalize_lookup_result (Option.bind res id) True))))"

definition apply_parent_filter :: "('r \<Rightarrow> i32 option) \<Rightarrow> i32 option \<Rightarrow> 'r list \<Rightarrow> 'r list" where
  "apply_parent_filter column parent rows =
     (case parent of
        Some i \<Rightarrow> filter (\<lambda>r. column r = Some i) rows
      | None \<Rightarrow> filter (\<lambda>r. column r = None) rows)"

definition list_names_at_path :: "rstring option \<Rightarrow> (PathLookupError, rstring list) db" where
  "list_names_at_path path =
     st_bind (case path of Some p \<Rightarrow> bundle_id_from_path p | None \<Rightarrow> st_return None) (\<lambda>bundle_id.
     st_bind (st_map_err PL_Diesel (run_query (\<lambda>t.
       map bu_name (sort_key bu_name
         (apply_parent_filter bu_parent_bundle_id bundle_id (tb_news_bundles t)))))) (\<lambda>names.
     st_bind (st_map_err PL_Diesel (run_query (\<lambda>t.
       map ca_name (sort_key ca_name
         (apply_parent_filter ca_bundle_id bundle_id (tb_news_categories t)))))) (\<lambda>cats.
       st_return (names @ cats))))"

definition create_bundle ::
  "i32 option \<Rightarrow> rstring \<Rightarrow> rstring option \<Rightarrow> int option \<Rightarrow> (DieselError, i32) db" where
  "create_bundle parent name guid created_at =
     st_bind (run_update (\<lambda>c t.
       (let new_id = dc_new_id c (map bu_id (tb_news_bundles t)) in
        (new_id, t\<lparr> tb_news_bundles := tb_news_bundles t @
           [\<lparr> bu_id = new_id, bu_parent_bundle_id = parent, bu_name = name, bu_guid = guid,
              bu_created_at = created_at \<rparr>] \<rparr>)))) fetch_last_insert_rowid"

definition category_id_from_path :: "rstring \<Rightarrow> (PathLookupError, i32) db" where
  "category_id_from_path path =
     st_bind (st_lift (parse_path_segments path False)) (\<lambda>parsed.
       case parsed of
         None \<Rightarrow> st_fail InvalidPath
       | Some (json, len) \<Rightarrow>
           if len = 0 then st_fail InvalidPath
           else
             st_bind (st_lift (ok_or InvalidPath (i32_try_from (len - 1)))) (\<lambda>_.
             (let final_segment = last (split_on slash (trim_matches slash path)) in
              st_bind (st_map_err PL_Diesel (run_query (\<lambda>t.
                first_row (map ca_id (filter (\<lambda>c. ca_name c = final_segment
                  \<and> ca_bundle_id c =
                      Option.bind (first_row (tree_rows (category_step (tb_news_bundles t)) json (len - 1))) id)
                  (tb_news_categories t)))))) (\<lambda>res.
              st_bind (st_lift (normalize_lookup_result res True)) (\<lambda>maybe_id.
                st_lift (ok_or InvalidPath maybe_id))))))"

definition create_category :: "Category \<Rightarrow> (DieselError, i32) db" where
  "create_category cat =
     st_bind (run_update (\<lambda>c t.
       (let new_id = dc_new_id c (map ca_id (tb_news_categories t)) in
        (new_id, t\<lparr> tb_news_categories := tb_news_categories t @ [cat\<lparr> ca_id := new_id \<rparr>] \<rparr>))))
       fetch_last_insert_rowid"

section \<open>Articles\<close>

definition get_article :: "rstring \<Rightarrow> i32 \<Rightarrow> (PathLookupError, Article option) db" where
  "get_article path article_id =
     st_bind (category_id_from_path path) (\<lambda>cat_id.
       st_map_err PL_Diesel (run_query (\<lambda>t.
         first_row (filter (\<lambda>a. ar_id a = article_id)
           (filter (\<lambda>a. ar_category_id a = cat_id) (tb_news_articles t))))))"

definition root_articles :: "i32 \<Rightarrow> Tables \<Rightarrow> Article list" where
  "root_articles cat_id t =
     filter (\<lambda>a. ar_parent_article_id a = None)
       (filter (\<lambda>a. ar_category_id a = cat_id) (tb_news_articles t))"

definition list_article_titles :: "rstring \<Rightarrow> (PathLookupError, rstring list) db" where
  "list_article_titles path =
     st_bind (category_id_from_path path) (\<lambda>cat_id.
       st_map_err PL_Diesel (run_query (\<lambda>t.
         map ar_title (sort_key ar_posted_at (root_articles cat_id t)))))"

record CreateRootArticleParams =
  cp_title :: rstring
  cp_flags :: i32
  cp_data_flavor :: rstring
  cp_data :: rstring

definition get_last_root_article_id :: "i32 \<Rightarrow> (PathLookupError, i32 option) db" where
  "get_last_root_article_id cat_id =
     st_map_err PL_Diesel (run_query (\<lambda>t.
       first_row (map ar_id (sort_key (\<lambda>a. - ar_id a) (root_articles cat_id t)))))"

definition insert_new_article ::
  "i32 \<Rightarrow> i32 option \<Rightarrow> CreateRootArticleParams \<Rightarrow> (PathLookupError, i32) db" where
  "insert_new_article cat_id prev params =
     st_map_err PL_Diesel (st_bind (run_update (\<lambda>c t.
       (let new_id = dc_new_id c (map ar_id (tb_news_articles t)) in
        (new_id, t\<lparr> tb_news_articles := tb_news_articles t @
           [\<lparr> ar_id = new_id, ar_category_id = cat_id, ar_parent_article_id = None,
              ar_prev_article_id = prev, ar_next_article_id = None,
              ar_first_child_article_id = None, ar_title = cp_title params, ar_poster = None,
              ar_posted_at = dc_now c (dc_clock c), ar_flags = cp_flags params,
              ar_data_flavor = Some (cp_data_flavor params), ar_data = Some (cp_data params) \<rparr>] \<rparr>))))
       fetch_last_insert_rowid)"

definition link_prev_to_new :: "i32 \<Rightarrow> i32 \<Rightarrow> (PathLookupError, unit) db" where
  "link_prev_to_new prev new_id =
     st_map_err PL_Diesel (run_update (\<lambda>c t.
       ((), t\<lparr> tb_news_articles := map (\<lambda>a. if ar_id a = prev then a\<lparr> ar_next_article_id := Some new_id \<rparr> else a)
                 (tb_news_articles t) \<rparr>)))"

definition create_root_article ::
  "rstring \<Rightarrow> CreateRootArticleParams \<Rightarrow> (PathLookupError, i32) db" where
  "create_root_article path params =
     transaction PL_Diesel
       (st_bind (category_id_from_path path) (\<lambda>cat_id.
        st_bind (get_last_root_article_id cat_id) (\<lambda>last.
        st_bind (insert_new_article cat_id last params) (\<lambda>inserted.
        st_bind (case last of Some prev \<Rightarrow> link_prev_to_new prev inserted | None \<Rightarrow> st_return ()) (\<lambda>_.
          st_return inserted)))))"

section \<open>Path resolution\<close>

text \<open>
  The reference: follow the unique child of each name, segment by segment.  It is
  shared by every table whose rows have a name, a parent and an identifier.
\<close>

fun tree_walk ::
  "('r \<Rightarrow> rstring) \<Rightarrow> ('r \<Rightarrow> i32 option) \<Rightarrow> ('r \<Rightarrow> i32) \<Rightarrow> 'r list \<Rightarrow> i32 option \<Rightarrow> rstring list \<Rightarrow>
   i32 option option" where
  "tree_walk name parent ident rs cur [] = Some cur"
| "tree_walk name parent ident rs cur (s # ss) =
     (case find (\<lambda>r. (name r, parent r) = (s, cur)) rs of
        None \<Rightarrow> None
      | Some r \<Rightarrow> tree_walk name parent ident rs (Some (ident r)) ss)"

text \<open>The unique indexes of the schema: siblings have different names.\<close>

definition unique_siblings :: "('r \<Rightarrow> rstring) \<Rightarrow> ('r \<Rightarrow> i32 option) \<Rightarrow> 'r list \<Rightarrow> bool" where
  "unique_siblings name parent rs \<longleftrightarrow> distinct (map (\<lambda>r. (name r, parent r)) rs)"

lemma filter_key_unique:
  "distinct (map f xs) \<Longrightarrow> filter (\<lambda>x. f x = k) xs = (case find (\<lambda>x. f x = k) xs of None \<Rightarrow> [] | Some x \<Rightarrow> [x])"
proof (induction xs)
  case (Cons x xs)
  show ?case
  proof (cases "f x = k")
    case True
    then have "filter (\<lambda>x. f x = k) xs = []"
      using Cons.prems by (auto simp: filter_empty_conv image_iff)
    with True show ?thesis by simp
  qed (use Cons in simp)
qed simp

text \<open>A table with a recursive step that joins each segment with the children of the current row.\<close>

locale path_table =
  fixes name :: "'r \<Rightarrow> rstring" and parent :: "'r \<Rightarrow> i32 option" and ident :: "'r \<Rightarrow> i32"
    and step :: "'r list \<Rightarrow> rstring \<Rightarrow> i32 option \<Rightarrow> i32 option list"
  assumes step_rows: "step rs s cur =
    map (\<lambda>r. Some (ident r)) (filter (\<lambda>r. (name r, parent r) = (s, cur)) rs)"
begin

lemma step_unique:
  "unique_siblings name parent rs \<Longrightarrow> step rs s cur =
     (case find (\<lambda>r. (name r, parent r) = (s, cur)) rs of None \<Rightarrow> [] | Some r \<Rightarrow> [Some (ident r)])"
  unfolding step_rows unique_siblings_def by (subst filter_key_unique) (auto split: option.split)

lemma walk_append:
  "tree_walk name parent ident rs cur (ss @ ts) =
     Option.bind (tree_walk name parent ident rs cur ss) (\<lambda>i. tree_walk name parent ident rs i ts)"
  by (induction ss arbitrary: cur) (auto split: option.split)

lemma rows_walk:
  assumes "unique_siblings name parent rs"
  shows "k \<le> length segs \<Longrightarrow> tree_rows (step rs) segs k =
    (case tree_walk name parent ident rs None (take k segs) of None \<Rightarrow> [] | Some i \<Rightarrow> [i])"
proof (induction k)
  case (Suc k)
  then have "take (Suc k) segs = take k segs @ [segs ! k]" by (simp add: take_Suc_conv_app_nth)
  with Suc show ?case
    using step_unique [OF assms] by (auto simp: walk_append split: option.split)
qed simp

lemma walk_not_root:
  "segs \<noteq> [] \<Longrightarrow> tree_walk name parent ident rs cur segs = Some i \<Longrightarrow> i \<noteq> None"
  by (cases segs rule: rev_cases) (auto simp: walk_append bind_eq_Some_conv split: option.splits)

lemma first_row_walk:
  assumes "unique_siblings name parent rs" "segs \<noteq> []"
  shows "Option.bind (first_row (tree_rows (step rs) segs (length segs))) id =
    Option.bind (tree_walk name parent ident rs None segs) id"
  using rows_walk [OF assms(1), of "length segs" segs] by (auto split: option.split)

end

abbreviation bundle_walk :: "Bundle list \<Rightarrow> i32 option \<Rightarrow> rstring list \<Rightarrow> i32 option option" where
  "bundle_walk \<equiv> tree_walk bu_name bu_parent_bundle_id bu_id"

abbreviation siblings_unique :: "Bundle list \<Rightarrow> bool" where
  "siblings_unique \<equiv> unique_siblings bu_name bu_parent_bundle_id"

lemma bundle_matches_key:
  "bundle_matches s cur = (\<lambda>b. (bu_name b, bu_parent_bundle_id b) = (s, cur))"
  by (auto simp: bundle_matches_def fun_eq_iff)

interpretation bundles: path_table bu_name bu_parent_bundle_id bu_id bundle_step
  by unfold_locales (simp add: bundle_step_def bundle_matches_key)

text \<open>What the left join computes: an unknown segment restarts at the root.\<close>

fun category_walk :: "Bundle list \<Rightarrow> i32 option \<Rightarrow> rstring list \<Rightarrow> i32 option" where
  "category_walk bs cur [] = cur"
| "category_walk bs cur (s # ss) =
     category_walk bs (map_option bu_id (find (bundle_matches s cur) bs)) ss"

lemma category_step_eq:
  "siblings_unique bs \<Longrightarrow>
     category_step bs s cur = [map_option bu_id (find (bundle_matches s cur) bs)]"
  by (simp add: category_step_def bundles.step_unique bundle_matches_key split: option.split)

lemma category_walk_append:
  "category_walk bs cur (ss @ ts) = category_walk bs (category_walk bs cur ss) ts"
  by (induction bs cur ss rule: category_walk.induct) auto

lemma tree_rows_category:
  assumes "siblings_unique bs"
  shows "k \<le> length segs \<Longrightarrow> tree_rows (category_step bs) segs k = [category_walk bs None (take k segs)]"
proof (induction k)
  case (Suc k)
  then have "take (Suc k) segs = take k segs @ [segs ! k]" by (simp add: take_Suc_conv_app_nth)
  with Suc show ?case
    using category_step_eq [OF assms] by (simp add: category_walk_append)
qed simp

lemma split_on_not_Nil [simp]: "split_on ch s \<noteq> []"
  by (induction s) (auto split: list.split)

lemma split_on_append:
  "ch \<notin> set seg \<Longrightarrow> split_on ch (seg @ ch # rest) = seg # split_on ch rest"
  by (induction seg) auto

lemma trim_matches_append:
  assumes "seg \<noteq> []" "ch \<notin> set seg" "rest \<noteq> []" "hd rest \<noteq> ch"
  shows "trim_matches ch (seg @ ch # rest) = seg @ ch # trim_matches ch rest"
proof -
  have front: "dropWhile (\<lambda>b. b = ch) (seg @ ch # rest) = seg @ ch # rest"
    using assms(1,2) by (cases seg) auto
  have front': "dropWhile (\<lambda>b. b = ch) rest = rest"
    using assms(3,4) by (cases rest) auto
  have "hd rest \<in> set (rev rest)" using assms(3) by simp
  then have "dropWhile (\<lambda>b. b = ch) (rev rest @ ch # rev seg) =
      dropWhile (\<lambda>b. b = ch) (rev rest) @ ch # rev seg"
    using assms(4) by (rule dropWhile_append1)
  then show ?thesis
    by (simp add: trim_matches_def front front')
qed

lemma trim_matches_nonempty: "rest \<noteq> [] \<Longrightarrow> hd rest \<noteq> ch \<Longrightarrow> trim_matches ch rest \<noteq> []"
  by (cases rest) (auto simp: trim_matches_def dropWhile_append3 dropWhile_eq_Nil_conv)

lemma category_id_healthy:
  assumes "healthy c" "siblings_unique (tb_news_bundles (dc_tables c))"
    and "prepare_path path = Some (segs, n)" "n \<le> 2147483648"
  shows "fst (category_id_from_path path c) =
    (case find (\<lambda>k. ca_name k = last segs
        \<and> ca_bundle_id k = category_walk (tb_news_bundles (dc_tables c)) None (butlast segs))
       (tb_news_categories (dc_tables c)) of
       None \<Rightarrow> Inl InvalidPath | Some k \<Rightarrow> Inr (ca_id k))"
proof -
  have segs: "segs = split_on slash (trim_matches slash path)" "n = length segs"
    using assms(3) by (auto simp: prepare_path_def Let_def split: if_splits)
  then have n: "0 < n" by simp
  have rows: "tree_rows (category_step (tb_news_bundles (dc_tables c))) segs (n - Suc 0) =
      [category_walk (tb_news_bundles (dc_tables c)) None (butlast segs)]"
    using tree_rows_category [OF assms(2), of "n - Suc 0" segs] segs(2)
    by (simp add: butlast_conv_take)
  have small: "i32_try_from (n - Suc 0) = Some (int (n - Suc 0))"
    using assms(4) by (simp add: i32_try_from_def)
  have first: "first_row (map ca_id (filter P ks)) = map_option ca_id (find P ks)" for P ks
    by (induction ks) auto
  show ?thesis
    using n assms(1,3)
    by (simp add: category_id_from_path_def parse_path_segments_def small Let_def st_bind_query_healthy
        rows first flip: segs(1))
      (auto simp: normalize_lookup_result_def st_lift_def st_bind_def split: option.split)
qed

text \<open>
  C19: bundle paths resolve like names in a directory tree.  On a database whose
  sibling bundles have different names, the recursive query returns the bundle
  reached by following the path segment by segment; the empty path is the root,
  and a path with an unknown segment is rejected.
\<close>

theorem bundle_path_resolution:
  assumes "healthy c" "siblings_unique (tb_news_bundles (dc_tables c))"
  shows "fst (bundle_id_from_path path c) =
    (case prepare_path path of
       None \<Rightarrow> Inr None
     | Some (segs, n) \<Rightarrow>
         if n \<le> 2147483647
         then (case bundle_walk (tb_news_bundles (dc_tables c)) None segs of
                 None \<Rightarrow> Inl InvalidPath | Some i \<Rightarrow> Inr i)
         else Inl InvalidPath)"
proof (cases "prepare_path path")
  case None
  then show ?thesis by (simp add: bundle_id_from_path_def parse_path_segments_def st_return_def)
next
  case (Some sn)
  obtain segs n where sn: "sn = (segs, n)" by fastforce
  then have n: "n = length segs" "segs \<noteq> []"
    using Some by (auto simp: prepare_path_def Let_def split: if_splits)
  have walk: "i \<noteq> None" if "bundle_walk bs None segs = Some i" for bs i
    using bundles.walk_not_root [OF n(2) that] .
  show ?thesis
    using Some sn assms(1) bundles.rows_walk [OF assms(2), of n segs] n walk
    by (auto simp: bundle_id_from_path_def parse_path_segments_def i32_try_from_def
        st_bind_query_healthy st_lift_def normalize_lookup_result_def split: option.split)
qed

definition news_conn :: DbConn where
  "news_conn = \<lparr> dc_tables = empty_tables\<lparr>
       tb_news_bundles := [\<lparr> bu_id = 1, bu_parent_bundle_id = None, bu_name = [120], bu_guid = None,
         bu_created_at = None \<rparr>],
       tb_news_categories := [\<lparr> ca_id = 4, ca_bundle_id = None, ca_name = [103], ca_guid = None,
         ca_add_sn = None, ca_delete_sn = None, ca_created_at = None \<rparr>] \<rparr>,
     dc_clock = 0, dc_fault = (\<lambda>_. None), dc_new_id = (\<lambda>ids. fold max ids 0 + 1),
     dc_now = (\<lambda>n. int n) \<rparr>"

lemma news_conn_ok: "healthy news_conn" "siblings_unique (tb_news_bundles (dc_tables news_conn))"
  by (simp_all add: news_conn_def healthy_def unique_siblings_def)

theorem bundle_path_resolution_witness:
  "fst (bundle_id_from_path [47, 120, 47] news_conn) = Inr (Some 1)
   \<and> fst (bundle_id_from_path [120, 47, 121] news_conn) = Inl InvalidPath"
  using bundle_path_resolution [OF news_conn_ok, of "[47, 120, 47]"]
    bundle_path_resolution [OF news_conn_ok, of "[120, 47, 121]"]
  by (simp add: news_conn_def prepare_path_def trim_matches_def bundle_matches_def empty_tables_def)

lemma length_trim: "length (trim_matches ch s) \<le> length s"
proof -
  have "length (dropWhile P (rev (dropWhile P s))) \<le> length (dropWhile P s)" for P
    using length_dropWhile_le [of P "rev (dropWhile P s)"] by simp
  also have "length (dropWhile P s) \<le> length s" for P by (rule length_dropWhile_le)
  finally show ?thesis by (simp add: trim_matches_def)
qed

text \<open>
  C20: category paths do not resolve like names in a directory tree.  A first segment
  that names no root bundle is dropped: the path resolves to whatever the rest
  resolves to from the root, instead of being rejected.
\<close>

theorem unknown_bundle_skipped:
  assumes "healthy c" "siblings_unique (tb_news_bundles (dc_tables c))"
    and "seg \<noteq> []" "slash \<notin> set seg" "rest \<noteq> []" "hd rest \<noteq> slash" "length rest < 2147483647"
    and "\<forall>b\<in>set (tb_news_bundles (dc_tables c)). \<not> (bu_name b = seg \<and> bu_parent_bundle_id b = None)"
  shows "fst (category_id_from_path (seg @ slash # rest) c) = fst (category_id_from_path rest c)"
proof -
  let ?segs = "split_on slash (trim_matches slash rest)"
  have len: "length (split_on ch s) \<le> Suc (length s)" for ch s
    by (induction s) (auto split: list.split)
  have n: "length ?segs \<le> 2147483647"
    using len [of slash "trim_matches slash rest"] length_trim [of slash rest] assms(7) by linarith
  have p: "prepare_path rest = Some (?segs, length ?segs)"
    using trim_matches_nonempty [OF assms(5,6)] by (simp add: prepare_path_def Let_def)
  have q: "prepare_path (seg @ slash # rest) = Some (seg # ?segs, length (seg # ?segs))"
    using trim_matches_append [OF assms(3-6)] assms(4)
    by (simp add: prepare_path_def Let_def split_on_append)
  have "find (bundle_matches seg None) (tb_news_bundles (dc_tables c)) = None"
    using assms(8) by (auto simp: find_None_iff bundle_matches_def)
  then have "category_walk (tb_news_bundles (dc_tables c)) None (butlast (seg # ?segs)) =
      category_walk (tb_news_bundles (dc_tables c)) None (butlast ?segs)"
    by simp
  then show ?thesis
    using category_id_healthy [OF assms(1,2) p] category_id_healthy [OF assms(1,2) q] n by simp
qed

theorem unknown_bundle_skipped_witness:
  "fst (category_id_from_path [110, 111, 47, 103] news_conn) = fst (category_id_from_path [103] news_conn)
   \<and> fst (category_id_from_path [103] news_conn) = Inr 4"
proof -
  have "fst (category_id_from_path ([110, 111] @ slash # [103]) news_conn) =
      fst (category_id_from_path [103] news_conn)"
    by (rule unknown_bundle_skipped) (auto simp: news_conn_ok, simp add: news_conn_def empty_tables_def)
  moreover have "fst (category_id_from_path [103] news_conn) = Inr 4"
    by (subst category_id_healthy [OF news_conn_ok, of _ "[[103]]" 1])
      (simp_all add: prepare_path_def trim_matches_def news_conn_def empty_tables_def)
  ultimately show ?thesis by simp
qed

section \<open>The article chain\<close>

text \<open>
  The root articles of a category, in order of their identifiers, are doubly linked:
  each names the one before it and the one after it.
\<close>

fun chained :: "i32 option \<Rightarrow> Article list \<Rightarrow> bool" where
  "chained p [] \<longleftrightarrow> True"
| "chained p [a] \<longleftrightarrow> ar_prev_article_id a = p \<and> ar_next_article_id a = None"
| "chained p (a # b # as) \<longleftrightarrow>
     ar_prev_article_id a = p \<and> ar_next_article_id a = Some (ar_id b) \<and> chained (Some (ar_id a)) (b # as)"

definition articles_wf :: "Tables \<Rightarrow> bool" where
  "articles_wf t \<longleftrightarrow>
     sorted_wrt (<) (map ar_id (tb_news_articles t)) \<and> (\<forall>cat. chained None (root_articles cat t))"

text \<open>The documented behaviour of the engine's row ids: they only ever grow.\<close>

definition ids_grow :: "DbConn \<Rightarrow> bool" where
  "ids_grow c \<longleftrightarrow> (\<forall>ids. \<forall>i\<in>set ids. i < dc_new_id c ids)"

lemma sorted_wrt_filter_map:
  "sorted_wrt (<) (map f xs) \<Longrightarrow> sorted_wrt (<) (map f (filter P xs))"
  by (simp add: sorted_wrt_map sorted_wrt_filter)

lemma insort_key_last: "\<forall>y\<in>set ys. k y < k x \<Longrightarrow> insort_key k x ys = ys @ [x]"
  by (induction ys) auto

lemma sort_key_desc:
  "sorted_wrt (<) (map (f :: 'a \<Rightarrow> int) xs) \<Longrightarrow> sort_key (\<lambda>x. - f x) xs = rev xs"
  by (induction xs) (auto simp: insort_key_last)

lemma chained_snoc:
  assumes "chained p (as @ [l])" "ar_prev_article_id n = Some (ar_id l)" "ar_next_article_id n = None"
  shows "chained p (as @ [l\<lparr> ar_next_article_id := Some (ar_id n) \<rparr>, n])"
  using assms(1)
proof (induction as arbitrary: p)
  case (Cons a as)
  then show ?case using assms(2,3) by (cases as) auto
qed (use assms(2,3) in simp)

definition set_next :: "i32 \<Rightarrow> i32 \<Rightarrow> Article \<Rightarrow> Article" where
  "set_next prev new_id a = (if ar_id a = prev then a\<lparr> ar_next_article_id := Some new_id \<rparr> else a)"

lemma set_next_simps [simp]:
  "ar_id (set_next p n a) = ar_id a" "ar_category_id (set_next p n a) = ar_category_id a"
  "ar_parent_article_id (set_next p n a) = ar_parent_article_id a"
  by (simp_all add: set_next_def)

lemma set_root_articles:
  "set (root_articles cat t) =
     {a \<in> set (tb_news_articles t). ar_category_id a = cat \<and> ar_parent_article_id a = None}"
  by (auto simp: root_articles_def)

lemma root_articles_map:
  "root_articles cat (t\<lparr> tb_news_articles := map (set_next p n) as \<rparr>) =
     map (set_next p n) (root_articles cat (t\<lparr> tb_news_articles := as \<rparr>))"
  by (induction as) (simp_all add: root_articles_def)

lemma root_articles_snoc:
  "root_articles cat (t\<lparr> tb_news_articles := tb_news_articles t @ [a] \<rparr>) =
     root_articles cat t @ (if ar_category_id a = cat \<and> ar_parent_article_id a = None then [a] else [])"
  by (simp add: root_articles_def)

lemma last_root_id:
  assumes "articles_wf t"
  shows "first_row (map ar_id (sort_key (\<lambda>a. - ar_id a) (root_articles cat t))) =
    (if root_articles cat t = [] then None else Some (ar_id (last (root_articles cat t))))"
proof -
  have "sorted_wrt (<) (map ar_id (root_articles cat t))"
    using assms unfolding articles_wf_def root_articles_def by (blast intro: sorted_wrt_filter_map)
  then show ?thesis
    by (cases "root_articles cat t" rule: rev_cases) (simp_all add: sort_key_desc)
qed

text \<open>Appending a root article and linking the last one to it.\<close>

lemma append_root_article:
  assumes wf: "articles_wf t" and new: "\<forall>a\<in>set (tb_news_articles t). ar_id a < ar_id n"
    and n: "ar_category_id n = cat" "ar_parent_article_id n = None" "ar_next_article_id n = None"
      "ar_prev_article_id n =
         (if root_articles cat t = [] then None else Some (ar_id (last (root_articles cat t))))"
  defines "upd \<equiv> case ar_prev_article_id n of None \<Rightarrow> (\<lambda>a. a) | Some p \<Rightarrow> set_next p (ar_id n)"
  shows "articles_wf (t\<lparr> tb_news_articles := map upd (tb_news_articles t @ [n]) \<rparr>)"
  unfolding articles_wf_def
proof (intro conjI allI)
  let ?t = "t\<lparr> tb_news_articles := map upd (tb_news_articles t @ [n]) \<rparr>"
  have id: "ar_id (upd a) = ar_id a" for a by (simp add: upd_def split: option.split)
  show "sorted_wrt (<) (map ar_id (tb_news_articles ?t))"
    using wf new by (simp add: articles_wf_def id comp_def sorted_wrt_append)
  fix k
  have roots: "root_articles k ?t = map upd (root_articles k t @ (if k = cat then [n] else []))"
    using n(1,2) root_articles_map [where cat = k and t = t and as = "tb_news_articles t @ [n]"]
    by (auto simp: upd_def root_articles_snoc split: option.split)
  have dist: "distinct (map ar_id (tb_news_articles t))"
    using wf by (simp add: articles_wf_def strict_sorted_iff)
  show "chained None (root_articles k ?t)"
  proof (cases "root_articles cat t" rule: rev_cases)
    case Nil
    then have "upd = (\<lambda>a. a)" using n(4) by (simp add: upd_def)
    then show ?thesis using roots Nil n(3,4) wf by (auto simp: articles_wf_def)
  next
    case (snoc as l)
    then have upd: "upd = set_next (ar_id l) (ar_id n)" and prev: "ar_prev_article_id n = Some (ar_id l)"
      using n(4) by (simp_all add: upd_def)
    have l: "l \<in> set (tb_news_articles t)" "ar_category_id l = cat"
      using set_root_articles [of cat t] by (auto simp: snoc)
    have other: "upd a = a" if "a \<in> set (tb_news_articles t)" "a \<noteq> l" for a
      using that l dist unfolding upd set_next_def by (auto simp: distinct_map inj_on_def)
    have un: "upd n = n" using new l(1) by (auto simp: upd set_next_def)
    have sub: "set (root_articles k t) \<subseteq> set (tb_news_articles t)" for k
      by (auto simp: root_articles_def)
    show ?thesis
    proof (cases "k = cat")
      case True
      have "distinct (root_articles cat t)"
        using dist by (simp add: root_articles_def distinct_map)
      then have "l \<notin> set as" by (simp add: snoc)
      then have "map upd as = as" using other sub [of cat] by (auto simp: snoc intro!: map_idI)
      then have "root_articles k ?t = as @ [l\<lparr> ar_next_article_id := Some (ar_id n) \<rparr>, n]"
        using roots True un by (simp add: snoc) (simp add: upd set_next_def)
      then show ?thesis
        using wf chained_snoc [of None as l n] prev n(3) snoc by (simp add: articles_wf_def) metis
    next
      case False
      then have "l \<notin> set (root_articles k t)" using l(2) by (auto simp: root_articles_def)
      then have "map upd (root_articles k t) = root_articles k t"
        using other sub [of k] by (auto intro!: map_idI)
      then show ?thesis using roots False wf by (simp add: articles_wf_def)
    qed
  qed
qed


lemma category_id_steps [steps_intros]: "steps same_db (category_id_from_path path)"
  unfolding category_id_from_path_def Let_def by (intro steps_intros)

lemma same_db_engine: "steps same_db m \<Longrightarrow> steps same_engine m"
  by (auto simp: steps_def same_db_def intro: wp_mono)

lemma category_id_from_path_tables:
  "category_id_from_path path c = (r, c') \<Longrightarrow>
     dc_tables c' = dc_tables c \<and> dc_new_id c' = dc_new_id c \<and> dc_fault c' = dc_fault c \<and> dc_now c' = dc_now c"
  using steps_run [OF category_id_steps] by (auto simp: same_db_def same_engine_def)

lemma transaction_Inr:
  assumes "transaction g m c = (Inr a, c')"
  obtains c1 where "m (c\<lparr> dc_clock := Suc (dc_clock c) \<rparr>) = (Inr a, c1)" "dc_tables c' = dc_tables c1"
  using assms by (auto simp: transaction_def db_success split: prod.splits sum.splits)

text \<open>What a successful post does to the tables.\<close>

definition posted_article ::
  "i32 \<Rightarrow> i32 \<Rightarrow> int \<Rightarrow> CreateRootArticleParams \<Rightarrow> Tables \<Rightarrow> Article" where
  "posted_article i cat now params t =
     \<lparr> ar_id = i, ar_category_id = cat, ar_parent_article_id = None,
        ar_prev_article_id = first_row (map ar_id (sort_key (\<lambda>a. - ar_id a) (root_articles cat t))),
        ar_next_article_id = None, ar_first_child_article_id = None, ar_title = cp_title params,
        ar_poster = None, ar_posted_at = now, ar_flags = cp_flags params,
        ar_data_flavor = Some (cp_data_flavor params), ar_data = Some (cp_data params) \<rparr>"

lemma posted_article_simps [simp]:
  "ar_id (posted_article i cat now params t) = i"
  "ar_category_id (posted_article i cat now params t) = cat"
  "ar_parent_article_id (posted_article i cat now params t) = None"
  "ar_next_article_id (posted_article i cat now params t) = None"
  "ar_prev_article_id (posted_article i cat now params t) =
     first_row (map ar_id (sort_key (\<lambda>a. - ar_id a) (root_articles cat t)))"
  "ar_title (posted_article i cat now params t) = cp_title params"
  "ar_flags (posted_article i cat now params t) = cp_flags params"
  "ar_data_flavor (posted_article i cat now params t) = Some (cp_data_flavor params)"
  "ar_data (posted_article i cat now params t) = Some (cp_data params)"
  by (simp_all add: posted_article_def)

lemma create_root_article_success:
  assumes "create_root_article path params c = (Inr i, c')"
  obtains cat c1 now where
    "category_id_from_path path (c\<lparr> dc_clock := Suc (dc_clock c) \<rparr>) = (Inr cat, c1)"
    "i = dc_new_id c (map ar_id (tb_news_articles (dc_tables c)))"
    "dc_tables c' = (let t = dc_tables c; a = posted_article i cat now params t in
       t\<lparr> tb_news_articles := map (case ar_prev_article_id a of None \<Rightarrow> (\<lambda>b. b) | Some p \<Rightarrow> set_next p i)
            (tb_news_articles t @ [a]) \<rparr>)"
proof -
  have set_next: "(\<lambda>a. if ar_id a = p then a\<lparr> ar_next_article_id := Some i \<rparr> else a) = set_next p i" for p i
    by (simp add: fun_eq_iff set_next_def)
  from assms obtain cat c1 c2 where
    cat: "category_id_from_path path (c\<lparr> dc_clock := Suc (dc_clock c) \<rparr>) = (Inr cat, c1)"
    and rest: "st_bind (get_last_root_article_id cat) (\<lambda>last.
        st_bind (insert_new_article cat last params) (\<lambda>inserted.
        st_bind (case last of Some prev \<Rightarrow> link_prev_to_new prev inserted | None \<Rightarrow> st_return ()) (\<lambda>_.
          st_return inserted))) c1 = (Inr i, c2)" and c': "dc_tables c' = dc_tables c2"
    by (auto simp: create_root_article_def st_bind_Inr [of "category_id_from_path path"] elim!: transaction_Inr)
  have c1: "dc_tables c1 = dc_tables c" "dc_new_id c1 = dc_new_id c"
    using category_id_from_path_tables [OF cat] by simp_all
  show thesis
  proof (rule that [OF cat])
    show "i = dc_new_id c (map ar_id (tb_news_articles (dc_tables c)))"
      using rest c1 by (auto simp: get_last_root_article_id_def insert_new_article_def fetch_last_insert_rowid_def db_success Let_def)
    show "dc_tables c' = (let t = dc_tables c; a = posted_article i cat (dc_now c1 (Suc (dc_clock c1))) params t in
       t\<lparr> tb_news_articles := map (case ar_prev_article_id a of None \<Rightarrow> (\<lambda>b. b) | Some p \<Rightarrow> set_next p i)
            (tb_news_articles t @ [a]) \<rparr>)"
      using rest c1 c'
      by (auto simp: get_last_root_article_id_def insert_new_article_def fetch_last_insert_rowid_def link_prev_to_new_def
          db_success Let_def posted_article_def set_next split: option.splits)
  qed
qed

lemma create_root_article_keeps:
  assumes "articles_wf (dc_tables c)" "ids_grow c" "create_root_article path params c = (r, c')"
  shows "articles_wf (dc_tables c')
    \<and> (case r of
         Inl e \<Rightarrow> dc_tables c' = dc_tables c
       | Inr i \<Rightarrow> (\<forall>a\<in>set (tb_news_articles (dc_tables c)). ar_id a < i)
           \<and> map (\<lambda>a. (ar_id a, ar_title a, ar_data a)) (tb_news_articles (dc_tables c')) =
               map (\<lambda>a. (ar_id a, ar_title a, ar_data a)) (tb_news_articles (dc_tables c))
                 @ [(i, cp_title params, Some (cp_data params))])"
proof (cases r)
  case (Inl e)
  then show ?thesis
    using assms transaction_rolls_back unfolding create_root_article_def by fastforce
next
  case (Inr i)
  let ?t = "dc_tables c"
  obtain cat c1 now where i: "i = dc_new_id c (map ar_id (tb_news_articles ?t))"
    and t: "dc_tables c' = (let t = ?t; a = posted_article i cat now params t in
       t\<lparr> tb_news_articles := map (case ar_prev_article_id a of None \<Rightarrow> (\<lambda>b. b) | Some p \<Rightarrow> set_next p i)
            (tb_news_articles t @ [a]) \<rparr>)"
    using assms(3) unfolding Inr by (rule create_root_article_success)
  let ?n = "posted_article i cat now params ?t"
  have grow: "\<forall>a\<in>set (tb_news_articles ?t). ar_id a < ar_id ?n"
    using assms(2) by (auto simp: i ids_grow_def posted_article_def)
  have "articles_wf (dc_tables c')"
    unfolding t Let_def
    using append_root_article [OF assms(1) grow, of cat] last_root_id [OF assms(1), of cat]
    by (cases "root_articles cat ?t = []") (simp_all del: map_append)
  then show ?thesis
    using Inr t grow by (auto simp: Let_def posted_article_def set_next_def split: option.split)
qed

text \<open>
  C17: posting never breaks the chain.  Whatever statement of
  \<^verbatim>\<open>create_root_article\<close> fails, the tables are as before; when it succeeds, exactly
  one article with the given content is added after all others, and every category's
  root articles still form a doubly linked chain in order of their ids.
\<close>

theorem article_chain_invariant:
  assumes "articles_wf (dc_tables c)" "ids_grow c" "create_root_article path params c = (r, c')"
  shows "articles_wf (dc_tables c')
    \<and> (case r of
         Inl e \<Rightarrow> dc_tables c' = dc_tables c
       | Inr i \<Rightarrow> (\<forall>a\<in>set (tb_news_articles (dc_tables c)). ar_id a < i)
           \<and> map (\<lambda>a. (ar_id a, ar_title a, ar_data a)) (tb_news_articles (dc_tables c')) =
               map (\<lambda>a. (ar_id a, ar_title a, ar_data a)) (tb_news_articles (dc_tables c))
                 @ [(i, cp_title params, Some (cp_data params))])"
  using assms by (rule create_root_article_keeps)

definition article_params :: CreateRootArticleParams where
  "article_params = \<lparr> cp_title = [72], cp_flags = 0, cp_data_flavor = [116], cp_data = [98] \<rparr>"

lemma max_fold_ge: "y \<le> fold max xs (y :: int) \<and> (\<forall>x\<in>set xs. x \<le> fold max xs y)"
proof (induction xs arbitrary: y)
  case (Cons a xs)
  from Cons.IH [of "max a y"] show ?case by auto
qed simp

lemma news_conn_articles: "articles_wf (dc_tables news_conn)" "ids_grow news_conn"
  using max_fold_ge [of 0]
  by (auto simp: news_conn_def empty_tables_def articles_wf_def root_articles_def ids_grow_def
      intro: le_imp_less_Suc simp flip: zless_add1_eq)

lemma news_conn_simps [simp]:
  "tb_news_articles (dc_tables news_conn) = []" "cp_title article_params = [72]"
  "cp_data article_params = [98]"
  by (simp_all add: news_conn_def empty_tables_def article_params_def)

lemma news_conn_post: "fst (create_root_article [103] article_params news_conn) = Inr 1"
  by (simp add: create_root_article_def transaction_def st_bind_def st_map_err_def st_lift_def
      category_id_from_path_def parse_path_segments_def prepare_path_def trim_matches_def i32_try_from_def
      get_last_root_article_id_def insert_new_article_def fetch_last_insert_rowid_def news_conn_def empty_tables_def root_articles_def
      run_query_def run_update_def Let_def st_return_def normalize_lookup_result_def article_params_def)

theorem article_chain_invariant_witness:
  "map ar_title (tb_news_articles (dc_tables (snd (create_root_article [103] article_params news_conn)))) = [[72]]
   \<and> articles_wf (dc_tables (snd (create_root_article [103] article_params news_conn)))"
proof -
  obtain c' where c': "create_root_article [103] article_params news_conn = (Inr 1, c')"
    using news_conn_post by (cases "create_root_article [103] article_params news_conn") auto
  show ?thesis
    using article_chain_invariant [OF news_conn_articles c']
    by (auto simp: c')
qed

lemma create_root_article_healthy:
  assumes "healthy c" "create_root_article path params c = (r, c')" shows "healthy c'"
proof -
  have "steps same_engine (create_root_article path params)"
    unfolding create_root_article_def get_last_root_article_id_def insert_new_article_def fetch_last_insert_rowid_def
      link_prev_to_new_def
    by (intro steps_intros same_db_engine [OF category_id_steps])
  from steps_run [OF this assms(2)] show ?thesis using assms(1) by (rule same_engine_healthy)
qed

lemma category_id_pure:
  assumes "healthy c" "healthy d" "tb_news_bundles (dc_tables c) = tb_news_bundles (dc_tables d)"
    "tb_news_categories (dc_tables c) = tb_news_categories (dc_tables d)"
  shows "fst (category_id_from_path path c) = fst (category_id_from_path path d)"
  using assms
  by (auto simp: category_id_from_path_def parse_path_segments_def st_lift_def st_map_err_def st_bind_query_healthy Let_def
      st_bind_def run_query_healthy st_return_def st_fail_def split: option.split sum.split prod.split)

text \<open>
  C18: a posted article can be read back.  On a connection whose statements succeed,
  \<^verbatim>\<open>get_article\<close> with the path it was posted under and the id the post
  returned finds it, with the title, flags, flavour and body that were posted, and
  with no successor yet.
\<close>

theorem post_then_get_article:
  assumes "healthy c" "ids_grow c" "create_root_article path params c = (Inr i, c')"
  shows "\<exists>a. fst (get_article path i c') = Inr (Some a) \<and> ar_title a = cp_title params
    \<and> ar_flags a = cp_flags params \<and> ar_data_flavor a = Some (cp_data_flavor params)
    \<and> ar_data a = Some (cp_data params) \<and> ar_parent_article_id a = None \<and> ar_next_article_id a = None"
proof -
  let ?t = "dc_tables c"
  obtain cat c1 now where cat: "category_id_from_path path (c\<lparr> dc_clock := Suc (dc_clock c) \<rparr>) = (Inr cat, c1)"
    and i: "i = dc_new_id c (map ar_id (tb_news_articles ?t))"
    and t: "dc_tables c' = (let t = ?t; a = posted_article i cat now params t in
       t\<lparr> tb_news_articles := map (case ar_prev_article_id a of None \<Rightarrow> (\<lambda>b. b) | Some p \<Rightarrow> set_next p i)
            (tb_news_articles t @ [a]) \<rparr>)"
    using assms(3) by (rule create_root_article_success)
  let ?n = "posted_article i cat now params ?t"
  have "healthy c'" by (rule create_root_article_healthy [OF assms(1,3)])
  have old: "ar_id a < i" if "a \<in> set (tb_news_articles ?t)" for a
    using assms(2) that by (auto simp: i ids_grow_def)
  have un: "set_next p i ?n = ?n" if "ar_prev_article_id ?n = Some p" for p
  proof -
    have "p < i" using that old by (auto simp: set_root_articles dest!: first_row_mem)
    then show ?thesis by (simp add: set_next_def)
  qed
  have "fst (category_id_from_path path c') = Inr cat"
    using category_id_pure [of c' "c\<lparr> dc_clock := Suc (dc_clock c) \<rparr>" path] cat assms(1) \<open>healthy c'\<close>
    by (simp add: t Let_def)
  then obtain c2 where c2: "category_id_from_path path c' = (Inr cat, c2)"
    by (cases "category_id_from_path path c'") auto
  then have c2': "healthy c2" "dc_tables c2 = dc_tables c'"
    using category_id_from_path_tables [OF c2] \<open>healthy c'\<close> by (auto simp: healthy_def)
  have "filter (\<lambda>a. ar_id a = i) (filter (\<lambda>a. ar_category_id a = cat) (tb_news_articles (dc_tables c'))) = [?n]"
    using un old by (auto simp: t Let_def filter_map comp_def filter_empty_conv split: option.split)
  then show ?thesis
    using c2 c2' by (simp add: get_article_def st_bind_def st_map_err_def run_query_healthy)
qed

theorem post_then_get_article_witness:
  "\<exists>a. fst (get_article [103] 1 (snd (create_root_article [103] article_params news_conn))) = Inr (Some a)
     \<and> ar_title a = [72] \<and> ar_data a = Some [98]"
proof -
  obtain c' where c': "create_root_article [103] article_params news_conn = (Inr 1, c')"
    using news_conn_post by (cases "create_root_article [103] article_params news_conn") auto
  show ?thesis
    using post_then_get_article [OF news_conn_ok(1) news_conn_articles(2) c']
    by (auto simp: c')
qed

end
