(* ===== verification/Commands.thy ===== *)
theory Commands
  imports Presence News_Store Handshake_Protocol Outbound
begin

text \<open>
  From transactions to commands: the command type, its error codes and the parsers
  of \<^verbatim>\<open>src/src/commands/mod.rs\<close>, \<^verbatim>\<open>parsing.rs\<close> and \<^verbatim>\<open>support.rs\<close>.
\<close>

section \<open>Commands\<close>

definition ERR_NOT_AUTHENTICATED :: u32 where [simp]: "ERR_NOT_AUTHENTICATED = 1"
definition ERR_INVALID_PAYLOAD :: u32 where [simp]: "ERR_INVALID_PAYLOAD = 2"
definition ERR_INTERNAL_SERVER :: u32 where [simp]: "ERR_INTERNAL_SERVER = 3"
definition ERR_INSUFFICIENT_PRIVILEGES :: u32 where [simp]: "ERR_INSUFFICIENT_PRIVILEGES = 4"
definition NEWS_ERR_PATH_UNSUPPORTED :: u32 where [simp]: "NEWS_ERR_PATH_UNSUPPORTED = 5"
definition NEWS_ERR_ARTICLE_NOT_FOUND :: u32 where [simp]: "NEWS_ERR_ARTICLE_NOT_FOUND = 6"

type_synonym RunError = string

datatype CommandError =
    CE_Database DieselError
  | CE_Pool RunError
  | CE_Transaction TransactionError
  | CE_Privilege PrivilegeError
  | CE_Invariant string
  | CE_Outbound OutboundError

record LoginCredentials =
  lc_username :: rstring
  lc_password :: rstring

record LoginRequest =
  lr_username :: rstring
  lr_password :: rstring
  lr_header :: FrameHeader

record UserInfoUpdate =
  uu_display_name :: "rstring option"
  uu_icon_id :: "u16 option"
  uu_options :: "ConnectionFlags option"
  uu_auto_response :: "rstring option"

record ArticleDataRequest =
  ad_path :: rstring
  ad_article_id :: i32

record PostArticleRequest =
  pa_path :: rstring
  pa_title :: rstring
  pa_flags :: i32
  pa_data_flavor :: rstring
  pa_data :: rstring

datatype Command =
    Login LoginRequest
  | GetUserNameList FrameHeader
  | GetClientInfoText FrameHeader i32
  | SetClientUserInfo FrameHeader UserInfoUpdate
  | GetFileNameList FrameHeader
  | GetNewsCategoryNameList "rstring option" FrameHeader
  | GetNewsArticleNameList rstring FrameHeader
  | GetNewsArticleData rstring i32 FrameHeader
  | PostNewsArticle PostArticleRequest FrameHeader
  | InvalidPayload FrameHeader
  | Unknown FrameHeader

fun command_header :: "Command \<Rightarrow> FrameHeader" where
  "command_header (Login req) = lr_header req"
| "command_header (GetUserNameList h) = h"
| "command_header (GetClientInfoText h _) = h"
| "command_header (SetClientUserInfo h _) = h"
| "command_header (GetFileNameList h) = h"
| "command_header (GetNewsCategoryNameList _ h) = h"
| "command_header (GetNewsArticleNameList _ h) = h"
| "command_header (GetNewsArticleData _ _ h) = h"
| "command_header (PostNewsArticle _ h) = h"
| "command_header (InvalidPayload h) = h"
| "command_header (Unknown h) = h"

section \<open>Parsing\<close>

definition parse_login_params :: "bytes \<Rightarrow> LoginCredentials tx_result" where
  "parse_login_params payload =
     rbind (decode_params_map payload) (\<lambda>params.
     rbind (required_param_string params F_Login) (\<lambda>username.
     rbind (required_param_string params F_Password) (\<lambda>password.
       Inr \<lparr> lc_username = username, lc_password = password \<rparr>)))"

definition parse_news_category_name_list_params :: "bytes \<Rightarrow> FrameHeader \<Rightarrow> Command tx_result" where
  "parse_news_category_name_list_params payload header =
     rbind (decode_params_map payload) (\<lambda>params.
     rbind (first_param_string params F_NewsPath) (\<lambda>path.
       Inr (GetNewsCategoryNameList path header)))"

definition parse_news_article_name_list_params :: "bytes \<Rightarrow> FrameHeader \<Rightarrow> Command tx_result" where
  "parse_news_article_name_list_params payload header =
     rbind (decode_params_map payload) (\<lambda>params.
     rbind (required_param_string params F_NewsPath) (\<lambda>path.
       Inr (GetNewsArticleNameList path header)))"

definition parse_news_article_data_params :: "bytes \<Rightarrow> FrameHeader \<Rightarrow> Command tx_result" where
  "parse_news_article_data_params payload header =
     rbind (decode_params_map payload) (\<lambda>params.
     rbind (required_param_string params F_NewsPath) (\<lambda>path.
     rbind (required_param_i32 params F_NewsArticleId) (\<lambda>article_id.
       Inr (GetNewsArticleData path article_id header))))"

definition parse_get_client_info_text_params :: "bytes \<Rightarrow> FrameHeader \<Rightarrow> Command tx_result" where
  "parse_get_client_info_text_params payload header =
     rbind (decode_params_map payload) (\<lambda>params.
     rbind (required_param_u32 params F_UserId) (\<lambda>v.
     rbind (ok_or (InvalidParamValue F_UserId) (i32_try_from (unat v))) (\<lambda>target_user_id.
       Inr (GetClientInfoText header target_user_id))))"

text \<open>\<^verbatim>\<open>Option::map(try_from).transpose()\<close>: absent, converted, or an error.\<close>

definition narrow_param :: "FieldId \<Rightarrow> (nat \<Rightarrow> 'a option) \<Rightarrow> u32 option \<Rightarrow> 'a option tx_result" where
  "narrow_param field try_from v =
     (case v of
        None \<Rightarrow> Inr None
      | Some n \<Rightarrow> rbind (ok_or (InvalidParamValue field) (try_from (unat n))) (\<lambda>a. Inr (Some a)))"

definition u8_try_from :: "nat \<Rightarrow> byte option" where
  "u8_try_from n = (if n \<le> 255 then Some (of_nat n) else None)"

definition parse_set_client_user_info_params :: "bytes \<Rightarrow> FrameHeader \<Rightarrow> Command tx_result" where
  "parse_set_client_user_info_params payload header =
     rbind (decode_params_map payload) (\<lambda>params.
     rbind (first_param_string params F_Name) (\<lambda>display_name.
     rbind (rbind (first_param_u32 params F_IconId) (narrow_param F_IconId u16_try_from)) (\<lambda>icon_id.
     rbind (rbind (first_param_u32 params F_Options) (narrow_param F_Options u8_try_from)) (\<lambda>options.
     rbind (first_param_string params F_AutoResponse) (\<lambda>auto_response.
       Inr (SetClientUserInfo header \<lparr> uu_display_name = display_name, uu_icon_id = icon_id,
         uu_options = map_option connection_flags_truncate options,
         uu_auto_response = auto_response \<rparr>))))))"

definition parse_post_news_article_params :: "bytes \<Rightarrow> FrameHeader \<Rightarrow> Command tx_result" where
  "parse_post_news_article_params payload header =
     rbind (decode_params_map payload) (\<lambda>params.
     rbind (required_param_string params F_NewsPath) (\<lambda>path.
     rbind (required_param_string params F_NewsTitle) (\<lambda>title.
     rbind (first_param_i32 params F_NewsArticleFlags) (\<lambda>flags.
     rbind (required_param_string params F_NewsDataFlavor) (\<lambda>data_flavor.
     rbind (required_param_string params F_NewsArticleData) (\<lambda>data.
       Inr (PostNewsArticle \<lparr> pa_path = path, pa_title = title,
         pa_flags = (case flags of None \<Rightarrow> 0 | Some f \<Rightarrow> f),
         pa_data_flavor = data_flavor, pa_data = data \<rparr> header)))))))"

definition parse_command :: "Transaction \<Rightarrow> Command tx_result" where
  "parse_command tx =
     (let ty = transaction_type_from_u16 (fh_ty (tx_header tx)); h = tx_header tx in
      if rejects_payload ty (tx_payload tx = []) then Inr (InvalidPayload h)
      else
        (case ty of
           T_Login \<Rightarrow>
             rbind (parse_login_params (tx_payload tx)) (\<lambda>creds.
               Inr (Login \<lparr> lr_username = lc_username creds, lr_password = lc_password creds, lr_header = h \<rparr>))
         | T_GetUserNameList \<Rightarrow> Inr (GetUserNameList h)
         | T_GetClientInfoText \<Rightarrow> parse_get_client_info_text_params (tx_payload tx) h
         | T_SetClientUserInfo \<Rightarrow> parse_set_client_user_info_params (tx_payload tx) h
         | T_GetFileNameList \<Rightarrow> Inr (GetFileNameList h)
         | T_NewsCategoryNameList \<Rightarrow> parse_news_category_name_list_params (tx_payload tx) h
         | T_NewsArticleNameList \<Rightarrow> parse_news_article_name_list_params (tx_payload tx) h
         | T_NewsArticleData \<Rightarrow> parse_news_article_data_params (tx_payload tx) h
         | T_PostNewsArticle \<Rightarrow> parse_post_news_article_params (tx_payload tx) h
         | _ \<Rightarrow> Inr (Unknown h)))"

definition from_transaction :: "Transaction \<Rightarrow> Command tx_result" where
  "from_transaction tx = parse_command tx"

section \<open>Privilege errors\<close>

text \<open>A reply without a payload: its length always fits, so nothing panics.\<close>

definition bare_reply :: "FrameHeader \<Rightarrow> u32 \<Rightarrow> Transaction" where
  "bare_reply header error =
     \<lparr> tx_header = the (reply_header header error 0), tx_payload = [] \<rparr>"

definition privilege_error_reply :: "FrameHeader \<Rightarrow> PrivilegeError \<Rightarrow> Transaction" where
  "privilege_error_reply header err =
     (let error_code = (case err of
            NotAuthenticated \<Rightarrow> ERR_NOT_AUTHENTICATED
          | InsufficientPrivileges _ \<Rightarrow> ERR_INSUFFICIENT_PRIVILEGES) in
      bare_reply header error_code)"

definition check_privilege_and_run ::
  "Session \<Rightarrow> FrameHeader \<Rightarrow> Privileges \<Rightarrow> ('s, 'e, Transaction) st \<Rightarrow> ('s, 'e, Transaction) st" where
  "check_privilege_and_run session header privilege handler =
     (case require_privilege session privilege of
        Inl error \<Rightarrow> st_return (privilege_error_reply header error)
      | Inr _ \<Rightarrow> handler)"

section \<open>The connection pool\<close>

text \<open>
  The pool hands out connections to one database; whether it can is decided outside
  the program, at every moment anew.
\<close>

record DbPool =
  pl_conn :: DbConn
  pl_refuse :: "nat \<Rightarrow> RunError option"

definition on_conn :: "('e, 'a) db \<Rightarrow> (DbPool, 'e, 'a) st" where
  "on_conn = zoom pl_conn (\<lambda>c p. p\<lparr> pl_conn := c \<rparr>)"

definition pool_get :: "(DbPool, RunError, unit) st" where
  "pool_get p =
     (let c = pl_conn p; p' = p\<lparr> pl_conn := c\<lparr> dc_clock := Suc (dc_clock c) \<rparr> \<rparr> in
      case pl_refuse p (dc_clock c) of
        Some e \<Rightarrow> (Inl e, p')
      | None \<Rightarrow> (Inr (), p'))"

abbreviation pool_tables :: "DbPool \<Rightarrow> Tables" where
  "pool_tables p \<equiv> dc_tables (pl_conn p)"

lemma pool_get_tables [simp]: "pool_tables (snd (pool_get p)) = pool_tables p"
  by (simp add: pool_get_def Let_def split: option.split)

lemma bare_reply_eq:
  "bare_reply h e = \<lparr> tx_header = \<lparr> fh_flags = 0, fh_is_reply = 1, fh_ty = fh_ty h, fh_id = fh_id h,
     fh_error = e, fh_total_size = 0, fh_data_size = 0 \<rparr>, tx_payload = [] \<rparr>"
  by (simp add: bare_reply_def reply_header_def u32_try_from_def)

lemma parse_command_header: "parse_command tx = Inr cmd \<Longrightarrow> command_header cmd = tx_header tx"
  by (auto simp: parse_command_def Let_def parse_get_client_info_text_params_def
      parse_set_client_user_info_params_def parse_news_category_name_list_params_def
      parse_news_article_name_list_params_def parse_news_article_data_params_def
      parse_post_news_article_params_def split: if_splits TransactionType.splits)

end
