(* ===== verification/News_Handlers.thy ===== *)
theory News_Handlers
  imports Commands
begin

text \<open>
  The news commands, \<^verbatim>\<open>src/src/news_handlers/mod.rs\<close>: every handler runs one
  query behind a privilege check and always answers with a reply, whatever the
  pool or the database does.
\<close>

section \<open>Replies\<close>

type_synonym params = "(FieldId \<times> bytes) list"

datatype NewsHandlerError = NH_Path PathLookupError | NH_ArticleNotFound

definition to_db_params :: "PostArticleRequest \<Rightarrow> CreateRootArticleParams" where
  "to_db_params req = \<lparr> cp_title = pa_title req, cp_flags = pa_flags req,
     cp_data_flavor = pa_data_flavor req, cp_data = pa_data req \<rparr>"

definition push_optional_i32 :: "params \<Rightarrow> FieldId \<Rightarrow> i32 option \<Rightarrow> params" where
  "push_optional_i32 params field value =
     (case value of Some v \<Rightarrow> params @ [(field, i32_to_be_bytes v)] | None \<Rightarrow> params)"

definition push_optional_str :: "params \<Rightarrow> FieldId \<Rightarrow> rstring option \<Rightarrow> params" where
  "push_optional_str params field value =
     (case value of Some s \<Rightarrow> params @ [(field, s)] | None \<Rightarrow> params)"

text \<open>Milliseconds of a time stamp, as a big-endian \<^verbatim>\<open>i64\<close>.\<close>

definition timestamp_millis :: "int \<Rightarrow> int" where
  "timestamp_millis posted_at = posted_at div 1000"

definition i64_to_be_bytes :: "int \<Rightarrow> bytes" where
  "i64_to_be_bytes v = to_be_bytes_u64 (of_int v)"

definition article_to_params :: "Article \<Rightarrow> params" where
  "article_to_params article =
     (let p1 = [(F_NewsTitle, ar_title article)];
          p2 = push_optional_str p1 F_NewsPoster (ar_poster article);
          p3 = p2 @ [(F_NewsDate, i64_to_be_bytes (timestamp_millis (ar_posted_at article)))];
          p4 = push_optional_i32 p3 F_NewsPrevId (ar_prev_article_id article);
          p5 = push_optional_i32 p4 F_NewsNextId (ar_next_article_id article);
          p6 = push_optional_i32 p5 F_NewsParentId (ar_parent_article_id article);
          p7 = push_optional_i32 p6 F_NewsFirstChildId (ar_first_child_article_id article);
          p8 = p7 @ [(F_NewsArticleFlags, i32_to_be_bytes (ar_flags article))];
          p9 = p8 @ [(F_NewsDataFlavor,
                 case ar_data_flavor article of Some f \<Rightarrow> f | None \<Rightarrow> ascii ''text/plain'')]
      in push_optional_str p9 F_NewsArticleData (ar_data article))"

definition internal_error_reply :: "FrameHeader \<Rightarrow> Transaction" where
  "internal_error_reply header = bare_reply header ERR_INTERNAL_SERVER"

definition logged_internal_error :: "FrameHeader \<Rightarrow> Transaction" where
  "logged_internal_error header = internal_error_reply header"

definition unsupported_path_reply :: "FrameHeader \<Rightarrow> Transaction" where
  "unsupported_path_reply header = bare_reply header NEWS_ERR_PATH_UNSUPPORTED"

definition path_error_reply :: "FrameHeader \<Rightarrow> PathLookupError \<Rightarrow> Transaction" where
  "path_error_reply header err =
     (case err of
        InvalidPath \<Rightarrow> unsupported_path_reply header
      | PL_Diesel e \<Rightarrow> logged_internal_error header
      | PL_Serde e \<Rightarrow> logged_internal_error header)"

definition article_not_found_reply :: "FrameHeader \<Rightarrow> Transaction" where
  "article_not_found_reply header = bare_reply header NEWS_ERR_ARTICLE_NOT_FOUND"

definition news_error_reply :: "FrameHeader \<Rightarrow> NewsHandlerError \<Rightarrow> Transaction" where
  "news_error_reply header err =
     (case err of
        NH_ArticleNotFound \<Rightarrow> article_not_found_reply header
      | NH_Path path_err \<Rightarrow> path_error_reply header path_err)"

definition encode_reply :: "FrameHeader \<Rightarrow> params \<Rightarrow> (fault, Transaction) result" where
  "encode_reply header params =
     (case encode_params params of
        Inr payload \<Rightarrow> reply_with header 0 payload
      | Inl e \<Rightarrow> Inr (internal_error_reply header))"

definition pool_error_reply :: "FrameHeader \<Rightarrow> Transaction" where
  "pool_error_reply header = internal_error_reply header"

definition handle_news_result ::
  "FrameHeader \<Rightarrow> (NewsHandlerError, params) result \<Rightarrow> (fault, Transaction) result" where
  "handle_news_result header r =
     (case r of
        Inr params \<Rightarrow> encode_reply header params
      | Inl err \<Rightarrow> Inr (news_error_reply header err))"

definition run_news_tx ::
  "FrameHeader \<Rightarrow> (NewsHandlerError, params) db \<Rightarrow> (DbPool, fault, Transaction) st" where
  "run_news_tx header op pool =
     (case pool_get pool of
        (Inl err, pool') \<Rightarrow> (Inr (pool_error_reply header), pool')
      | (Inr _, pool') \<Rightarrow>
          (case on_conn op pool' of (r, pool'') \<Rightarrow> (handle_news_result header r, pool'')))"

section \<open>Handlers\<close>

definition handle_list ::
  "FrameHeader \<Rightarrow> FieldId \<Rightarrow> (PathLookupError, rstring list) db \<Rightarrow> (DbPool, fault, Transaction) st" where
  "handle_list header field fetch =
     run_news_tx header
       (st_bind (st_map_err NH_Path fetch) (\<lambda>names. st_return (map (\<lambda>name. (field, name)) names)))"

definition handle_category_list ::
  "FrameHeader \<Rightarrow> rstring option \<Rightarrow> (DbPool, fault, Transaction) st" where
  "handle_category_list header path = handle_list header F_NewsCategory (list_names_at_path path)"

definition handle_article_titles :: "FrameHeader \<Rightarrow> rstring \<Rightarrow> (DbPool, fault, Transaction) st" where
  "handle_article_titles header path = handle_list header F_NewsArticle (list_article_titles path)"

definition handle_article_data ::
  "FrameHeader \<Rightarrow> ArticleDataRequest \<Rightarrow> (DbPool, fault, Transaction) st" where
  "handle_article_data header req =
     run_news_tx header
       (st_bind (st_map_err NH_Path (get_article (ad_path req) (ad_article_id req))) (\<lambda>maybe_article.
          case maybe_article of
            None \<Rightarrow> st_fail NH_ArticleNotFound
          | Some found_article \<Rightarrow> st_return (article_to_params found_article)))"

definition handle_post_article ::
  "FrameHeader \<Rightarrow> PostArticleRequest \<Rightarrow> (DbPool, fault, Transaction) st" where
  "handle_post_article header req =
     run_news_tx header
       (st_bind (st_map_err NH_Path (create_root_article (pa_path req) (to_db_params req))) (\<lambda>i.
          st_return [(F_NewsArticleId, i32_to_be_bytes i)]))"

definition process_category_name_list ::
  "Session \<Rightarrow> FrameHeader \<Rightarrow> rstring option \<Rightarrow> (DbPool, fault, Transaction) st" where
  "process_category_name_list session header path =
     check_privilege_and_run session header NEWS_READ_ARTICLE (handle_category_list header path)"

definition process_article_name_list ::
  "Session \<Rightarrow> FrameHeader \<Rightarrow> rstring \<Rightarrow> (DbPool, fault, Transaction) st" where
  "process_article_name_list session header path =
     check_privilege_and_run session header NEWS_READ_ARTICLE (handle_article_titles header path)"

definition process_article_data ::
  "Session \<Rightarrow> FrameHeader \<Rightarrow> ArticleDataRequest \<Rightarrow> (DbPool, fault, Transaction) st" where
  "process_article_data session header req =
     check_privilege_and_run session header NEWS_READ_ARTICLE (handle_article_data header req)"

definition process_post_article ::
  "Session \<Rightarrow> FrameHeader \<Rightarrow> PostArticleRequest \<Rightarrow> (DbPool, fault, Transaction) st" where
  "process_post_article session header req =
     check_privilege_and_run session header NEWS_POST_ARTICLE (handle_post_article header req)"

end
