(* ===== verification/File_Store.thy ===== *)
theory File_Store
  imports News_Store "HOL-Library.Product_Lexorder"
begin

text \<open>
  The file hierarchy and its access rules: \<^verbatim>\<open>src/src/db/files.rs\<close>,
  \<^verbatim>\<open>file_path.rs\<close> and \<^verbatim>\<open>file_legacy_visibility.rs\<close>.
\<close>

section \<open>Groups, permissions, grants\<close>

definition RESOURCE_TYPE_FILE_NODE :: rstring where
  "RESOURCE_TYPE_FILE_NODE = ascii ''file_node''"
definition PRINCIPAL_USER :: rstring where "PRINCIPAL_USER = ascii ''user''"
definition PRINCIPAL_GROUP :: rstring where "PRINCIPAL_GROUP = ascii ''group''"
definition DOWNLOAD_FILE_PERMISSION_CODE :: i32 where [simp]: "DOWNLOAD_FILE_PERMISSION_CODE = 2"
definition DOWNLOAD_FILE_PERMISSION_NAME :: rstring where
  "DOWNLOAD_FILE_PERMISSION_NAME = ascii ''download_file''"
definition DOWNLOAD_FILE_PERMISSION_DESCRIPTION :: rstring where
  "DOWNLOAD_FILE_PERMISSION_DESCRIPTION = ascii ''List or download a file node''"

datatype FileNodeLookupError = FL_InvalidPath | FL_Diesel DieselError | FL_Serde string

record NewPermission =
  np_code :: i32
  np_name :: rstring
  np_description :: rstring

definition download_file_permission :: NewPermission where
  "download_file_permission =
     \<lparr> np_code = DOWNLOAD_FILE_PERMISSION_CODE, np_name = DOWNLOAD_FILE_PERMISSION_NAME,
        np_description = DOWNLOAD_FILE_PERMISSION_DESCRIPTION \<rparr>"

text \<open>
  \<^verbatim>\<open>first(conn)\<close> without \<^verbatim>\<open>optional\<close>: no row is an error.
\<close>

definition first_or_not_found :: "'a option \<Rightarrow> (DieselError, 'a) db" where
  "first_or_not_found r = st_lift (ok_or ''NotFound'' r)"

definition insert_or_get_id ::
  "(DbConn \<Rightarrow> Tables \<Rightarrow> unit \<times> Tables) \<Rightarrow> (Tables \<Rightarrow> i32 option) \<Rightarrow> (DieselError, i32) db" where
  "insert_or_get_id insert_unless_conflict select_id =
     st_bind (run_update insert_unless_conflict) (\<lambda>_.
     st_bind (run_query select_id) first_or_not_found)"

definition seed_permission :: "NewPermission \<Rightarrow> (DieselError, i32) db" where
  "seed_permission permission =
     insert_or_get_id
       (\<lambda>c t. ((),
          if \<exists>p\<in>set (tb_permissions t). pm_code p = np_code permission then t
          else t\<lparr> tb_permissions := tb_permissions t @
                 [\<lparr> pm_id = dc_new_id c (map pm_id (tb_permissions t)), pm_code = np_code permission,
                    pm_name = np_name permission, pm_description = np_description permission \<rparr>] \<rparr>))
       (\<lambda>t. first_row (map pm_id (filter (\<lambda>p. pm_code p = np_code permission) (tb_permissions t))))"

definition create_group :: "rstring \<Rightarrow> (DieselError, i32) db" where
  "create_group name =
     insert_or_get_id
       (\<lambda>c t. ((),
          if \<exists>g\<in>set (tb_groups t). gr_name g = name then t
          else t\<lparr> tb_groups := tb_groups t @
                 [\<lparr> gr_id = dc_new_id c (map gr_id (tb_groups t)), gr_name = name \<rparr>] \<rparr>))
       (\<lambda>t. first_row (map gr_id (filter (\<lambda>g. gr_name g = name) (tb_groups t))))"

definition add_user_to_group :: "i32 \<Rightarrow> i32 \<Rightarrow> (DieselError, bool) db" where
  "add_user_to_group user_id group_id =
     run_update (\<lambda>c t.
       if (user_id, group_id) \<in> set (tb_user_groups t) then (False, t)
       else (True, t\<lparr> tb_user_groups := tb_user_groups t @ [(user_id, group_id)] \<rparr>))"

record NewFileNode =
  nf_kind :: rstring
  nf_name :: rstring
  nf_parent_id :: "i32 option"
  nf_alias_target_id :: "i32 option"
  nf_object_key :: "rstring option"
  nf_size :: "int option"
  nf_comment :: "rstring option"
  nf_is_dropbox :: bool
  nf_creator_id :: i32

text \<open>The two time stamps are column defaults of the schema.\<close>

text \<open>
  Violations of the schema's unique, foreign-key and check constraints are among the failures the
  engine decides on.
\<close>

definition create_file_node :: "NewFileNode \<Rightarrow> (DieselError, i32) db" where
  "create_file_node node =
     st_bind (run_update (\<lambda>c t.
       (let new_id = dc_new_id c (map fn_id (tb_file_nodes t)) in
        (new_id, t\<lparr> tb_file_nodes := tb_file_nodes t @
           [\<lparr> fn_id = new_id, fn_kind = nf_kind node, fn_name = nf_name node,
              fn_parent_id = nf_parent_id node, fn_alias_target_id = nf_alias_target_id node,
              fn_object_key = nf_object_key node, fn_size = nf_size node, fn_comment = nf_comment node,
              fn_is_dropbox = nf_is_dropbox node, fn_creator_id = nf_creator_id node,
              fn_created_at = dc_now c (dc_clock c), fn_updated_at = dc_now c (dc_clock c) \<rparr>] \<rparr>))))
       fetch_last_insert_rowid"

definition grant_resource_permission :: "ResourcePermission \<Rightarrow> (DieselError, bool) db" where
  "grant_resource_permission permission =
     run_update (\<lambda>c t.
       if permission \<in> set (tb_resource_permissions t) then (False, t)
       else (True, t\<lparr> tb_resource_permissions := tb_resource_permissions t @ [permission] \<rparr>))"

section \<open>Paths and aliases\<close>

definition file_prepare_path :: "rstring \<Rightarrow> (FileNodeLookupError, (rstring list \<times> nat) option) result" where
  "file_prepare_path path =
     (let trimmed = trim_matches slash path in
      if trimmed = [] then Inr None
      else
        (let parts = split_on slash trimmed in
         if \<exists>part\<in>set parts. part = [] then Inl FL_InvalidPath
         else Inr (Some (parts, length parts))))"

definition node_matches :: "rstring \<Rightarrow> i32 option \<Rightarrow> FileNode \<Rightarrow> bool" where
  "node_matches value cur f \<longleftrightarrow>
     fn_name f = value \<and> (cur = None \<and> fn_parent_id f = None \<or> (\<exists>i. cur = Some i \<and> fn_parent_id f = Some i))"

definition file_node_step :: "FileNode list \<Rightarrow> rstring \<Rightarrow> i32 option \<Rightarrow> i32 option list" where
  "file_node_step nodes value cur = map (\<lambda>f. Some (fn_id f)) (filter (node_matches value cur) nodes)"

definition file_node_id_from_path :: "rstring \<Rightarrow> (FileNodeLookupError, i32 option) db" where
  "file_node_id_from_path path =
     st_bind (st_lift (file_prepare_path path)) (\<lambda>parsed.
       case parsed of
         None \<Rightarrow> st_return None
       | Some (json, len) \<Rightarrow>
           st_bind (st_lift (ok_or FL_InvalidPath (i32_try_from len))) (\<lambda>_.
           st_bind (st_map_err FL_Diesel (run_query (\<lambda>t.
             first_row (tree_rows (file_node_step (tb_file_nodes t)) json len)))) (\<lambda>result.
             st_return (Option.bind result id))))"

definition get_file_node :: "i32 \<Rightarrow> (DieselError, FileNode option) db" where
  "get_file_node node_id =
     run_query (\<lambda>t. first_row (filter (\<lambda>f. fn_id f = node_id) (tb_file_nodes t)))"

definition resolve_file_node_path :: "rstring \<Rightarrow> (FileNodeLookupError, FileNode option) db" where
  "resolve_file_node_path path =
     st_bind (file_node_id_from_path path) (\<lambda>found.
       case found of
         Some node_id \<Rightarrow> st_map_err FL_Diesel (get_file_node node_id)
       | None \<Rightarrow> st_return None)"

definition list_child_file_nodes :: "i32 option \<Rightarrow> (DieselError, FileNode list) db" where
  "list_child_file_nodes parent_id =
     run_query (\<lambda>t. sort_key fn_name (filter (\<lambda>f. fn_parent_id f = parent_id) (tb_file_nodes t)))"

definition resolve_alias_target :: "i32 \<Rightarrow> (DieselError, FileNode option) db" where
  "resolve_alias_target node_id =
     st_bind (run_query (\<lambda>t.
       Option.bind (first_row (map fn_alias_target_id (filter (\<lambda>f. fn_id f = node_id) (tb_file_nodes t)))) id))
     (\<lambda>target_id.
       case target_id of
         Some alias_target_id \<Rightarrow> get_file_node alias_target_id
       | None \<Rightarrow> st_return None)"

section \<open>Visibility\<close>

definition list_legacy_visible_root_files_for_user :: "i32 \<Rightarrow> (DieselError, VisibleFileNode list) db" where
  "list_legacy_visible_root_files_for_user user_id =
     run_query (\<lambda>t.
       map (\<lambda>f. \<lparr> vf_id = lf_id f, vf_name = lf_name f, vf_kind = ascii ''file'' \<rparr>)
         (sort_key lf_name
           [f. f \<leftarrow> tb_files t, (file_id, uid) \<leftarrow> tb_file_acl t, file_id = lf_id f, uid = user_id]))"

definition visible_nodes_query :: "i32 \<Rightarrow> Tables \<Rightarrow> VisibleFileNode list" where
  "visible_nodes_query user_id t =
     (let group_ids = map snd (filter (\<lambda>(u, g). u = user_id) (tb_user_groups t)) in
      sort_key vf_name (remdups
        [\<lparr> vf_id = fn_id f, vf_name = fn_name f, vf_kind = fn_kind f \<rparr>.
           f \<leftarrow> tb_file_nodes t, r \<leftarrow> tb_resource_permissions t,
           rp_resource_type r = RESOURCE_TYPE_FILE_NODE \<and> rp_resource_id r = fn_id f,
           p \<leftarrow> tb_permissions t, pm_id p = rp_permission_id r,
           fn_parent_id f = None, pm_code p = DOWNLOAD_FILE_PERMISSION_CODE,
           rp_principal_type r = PRINCIPAL_USER \<and> rp_principal_id r = user_id
             \<or> rp_principal_type r = PRINCIPAL_GROUP \<and> rp_principal_id r \<in> set group_ids]))"

definition list_visible_root_file_nodes_for_user :: "i32 \<Rightarrow> (DieselError, VisibleFileNode list) db" where
  "list_visible_root_file_nodes_for_user user_id =
     st_bind (run_query (visible_nodes_query user_id)) (\<lambda>visible.
     st_bind (list_legacy_visible_root_files_for_user user_id) (\<lambda>legacy_visible.
       (let modern_keys = set (map (\<lambda>node. (vf_name node, vf_kind node)) visible) in
        st_return (sort_key (\<lambda>node. (vf_name node, vf_kind node))
          (visible @ filter (\<lambda>node. (vf_name node, vf_kind node) \<notin> modern_keys) legacy_visible)))))"

section \<open>Path resolution\<close>

lemma node_matches_key: "node_matches s cur = (\<lambda>f. (fn_name f, fn_parent_id f) = (s, cur))"
  by (auto simp: node_matches_def fun_eq_iff)

interpretation nodes: path_table fn_name fn_parent_id fn_id file_node_step
  by unfold_locales (simp add: file_node_step_def node_matches_key)

abbreviation node_walk :: "FileNode list \<Rightarrow> i32 option \<Rightarrow> rstring list \<Rightarrow> i32 option option" where
  "node_walk \<equiv> tree_walk fn_name fn_parent_id fn_id"

lemma file_node_id_healthy:
  assumes "healthy c" "unique_siblings fn_name fn_parent_id (tb_file_nodes (dc_tables c))"
  shows "fst (file_node_id_from_path path c) =
    rbind (file_prepare_path path) (\<lambda>parsed. case parsed of
        None \<Rightarrow> Inr None
      | Some (segs, n) \<Rightarrow>
          if n \<le> 2147483647 then Inr (Option.bind (node_walk (tb_file_nodes (dc_tables c)) None segs) id)
          else Inl FL_InvalidPath)"
proof (cases "file_prepare_path path")
  case (Inr parsed)
  show ?thesis
  proof (cases parsed)
    case (Some sn)
    obtain segs n where sn: "sn = (segs, n)" by fastforce
    then have n: "n = length segs" "segs \<noteq> []"
      using Inr Some by (auto simp: file_prepare_path_def Let_def split: if_splits)
    show ?thesis
      using Inr Some sn n assms(1) nodes.first_row_walk [OF assms(2) n(2)]
      by (simp add: file_node_id_from_path_def i32_try_from_def st_bind_query_healthy st_return_def)
  qed (simp add: Inr file_node_id_from_path_def st_return_def)
qed (simp add: file_node_id_from_path_def)

section \<open>Who sees what\<close>

text \<open>
  The access rule: a node is open to a user when a grant of a permission with the
  download code names the node and either the user or one of the user's groups.
\<close>

definition may_download :: "Tables \<Rightarrow> i32 \<Rightarrow> FileNode \<Rightarrow> bool" where
  "may_download t uid f \<longleftrightarrow>
     (\<exists>r\<in>set (tb_resource_permissions t).
        rp_resource_type r = RESOURCE_TYPE_FILE_NODE \<and> rp_resource_id r = fn_id f
        \<and> (\<exists>p\<in>set (tb_permissions t). pm_id p = rp_permission_id r \<and> pm_code p = 2)
        \<and> (rp_principal_type r = PRINCIPAL_USER \<and> rp_principal_id r = uid
           \<or> rp_principal_type r = PRINCIPAL_GROUP \<and> (uid, rp_principal_id r) \<in> set (tb_user_groups t)))"

definition node_view :: "FileNode \<Rightarrow> VisibleFileNode" where
  "node_view f = \<lparr> vf_id = fn_id f, vf_name = fn_name f, vf_kind = fn_kind f \<rparr>"

definition legacy_view :: "LegacyFile \<Rightarrow> VisibleFileNode" where
  "legacy_view f = \<lparr> vf_id = lf_id f, vf_name = lf_name f, vf_kind = ascii ''file'' \<rparr>"

lemma comprehension_mem:
  "x \<in> set (concat (map F xs)) \<longleftrightarrow> (\<exists>y\<in>set xs. x \<in> set (F y))"
  "x \<in> set (if P then A else []) \<longleftrightarrow> P \<and> x \<in> set A"
  "x \<in> set [y] \<longleftrightarrow> x = y"
  by auto

lemma set_visible_nodes_query:
  "set (visible_nodes_query uid t) =
     node_view ` {f \<in> set (tb_file_nodes t). fn_parent_id f = None \<and> may_download t uid f}"
proof (rule set_eqI)
  fix x
  have groups: "g \<in> set (map snd (filter (\<lambda>(u, g). u = uid) (tb_user_groups t))) \<longleftrightarrow>
      (uid, g) \<in> set (tb_user_groups t)" for g
    by force
  have "x \<in> set (visible_nodes_query uid t) \<longleftrightarrow>
      (\<exists>f\<in>set (tb_file_nodes t). \<exists>r\<in>set (tb_resource_permissions t).
         (rp_resource_type r = RESOURCE_TYPE_FILE_NODE \<and> rp_resource_id r = fn_id f)
         \<and> (\<exists>p\<in>set (tb_permissions t). pm_id p = rp_permission_id r \<and> fn_parent_id f = None \<and> pm_code p = 2
           \<and> (rp_principal_type r = PRINCIPAL_USER \<and> rp_principal_id r = uid
              \<or> rp_principal_type r = PRINCIPAL_GROUP \<and> (uid, rp_principal_id r) \<in> set (tb_user_groups t))
           \<and> x = node_view f))"
    unfolding visible_nodes_query_def Let_def groups node_view_def [symmetric]
    by (simp only: comprehension_mem set_sort set_remdups DOWNLOAD_FILE_PERMISSION_CODE_def)
  then show "x \<in> set (visible_nodes_query uid t) \<longleftrightarrow>
      x \<in> node_view ` {f \<in> set (tb_file_nodes t). fn_parent_id f = None \<and> may_download t uid f}"
    unfolding may_download_def by blast
qed

lemma list_visible_healthy:
  assumes "healthy c"
  defines "t \<equiv> dc_tables c"
  shows "fst (list_visible_root_file_nodes_for_user uid c) =
    Inr (sort_key (\<lambda>n. (vf_name n, vf_kind n)) (visible_nodes_query uid t @
      filter (\<lambda>n. (vf_name n, vf_kind n) \<notin> set (map (\<lambda>n. (vf_name n, vf_kind n)) (visible_nodes_query uid t)))
        (map legacy_view (sort_key lf_name
           [f. f \<leftarrow> tb_files t, (file_id, u) \<leftarrow> tb_file_acl t, file_id = lf_id f, u = uid]))))"
  using assms(1)
  by (simp add: list_visible_root_file_nodes_for_user_def list_legacy_visible_root_files_for_user_def
      st_bind_def run_query_healthy st_return_def Let_def t_def legacy_view_def [abs_def])

text \<open>
  C22: the file list shows a user exactly what the access rules open.  It contains
  the root nodes the user may download, directly or through a group, and the legacy
  files whose access list names the user unless such a node already has that name,
  and nothing else; it is sorted by name.
\<close>

theorem visible_files_exact:
  assumes "healthy c" "fst (list_visible_root_file_nodes_for_user uid c) = r"
  shows "\<exists>l. r = Inr l \<and> sorted (map vf_name l)
    \<and> set l =
        node_view ` {f \<in> set (tb_file_nodes (dc_tables c)). fn_parent_id f = None
           \<and> may_download (dc_tables c) uid f}
        \<union> legacy_view ` {g \<in> set (tb_files (dc_tables c)). (lf_id g, uid) \<in> set (tb_file_acl (dc_tables c))
           \<and> \<not> (\<exists>f\<in>set (tb_file_nodes (dc_tables c)). fn_parent_id f = None \<and> may_download (dc_tables c) uid f
                  \<and> fn_name f = lf_name g \<and> fn_kind f = ascii ''file'')}"
proof -
  let ?t = "dc_tables c"
  let ?key = "\<lambda>n. (vf_name n, vf_kind n)"
  define l where "l = sort_key ?key (visible_nodes_query uid ?t @
      filter (\<lambda>n. ?key n \<notin> set (map ?key (visible_nodes_query uid ?t)))
        (map legacy_view (sort_key lf_name
           [f. f \<leftarrow> tb_files ?t, (file_id, u) \<leftarrow> tb_file_acl ?t, file_id = lf_id f, u = uid])))"
  have r: "r = Inr l" using list_visible_healthy [OF assms(1)] assms(2) by (simp add: l_def)
  have "sorted (map ?key l)" by (simp only: l_def sorted_sort_key)
  then have "sorted (map vf_name l)"
    by (auto simp: sorted_map less_eq_prod_def elim!: sorted_wrt_mono_rel [rotated])
  moreover have legacy: "set [f. f \<leftarrow> tb_files ?t, (file_id, u) \<leftarrow> tb_file_acl ?t, file_id = lf_id f, u = uid] =
      {g \<in> set (tb_files ?t). (lf_id g, uid) \<in> set (tb_file_acl ?t)}"
    by auto
  have "set l = set (visible_nodes_query uid ?t) \<union>
      {x \<in> legacy_view ` {g \<in> set (tb_files ?t). (lf_id g, uid) \<in> set (tb_file_acl ?t)}.
         ?key x \<notin> ?key ` set (visible_nodes_query uid ?t)}"
    by (simp only: l_def set_sort set_append set_filter set_map legacy)
  moreover have "?key (legacy_view g) \<in> ?key ` set (visible_nodes_query uid ?t) \<longleftrightarrow>
      (\<exists>f\<in>set (tb_file_nodes ?t). fn_parent_id f = None \<and> may_download ?t uid f
            \<and> fn_name f = lf_name g \<and> fn_kind f = ascii ''file'')" for g
    unfolding set_visible_nodes_query image_image
    by (auto simp: node_view_def legacy_view_def image_iff)
  moreover have "{x \<in> v ` A. P x} = v ` {g \<in> A. P (v g)}" for P and v :: "LegacyFile \<Rightarrow> VisibleFileNode" and A
    by auto
  ultimately show ?thesis
    by (simp add: r set_visible_nodes_query)
qed

text \<open>A user with one direct grant, one through a group, one legacy file and one node out of reach.\<close>

definition files_conn :: DbConn where
  "files_conn = news_conn\<lparr> dc_tables := empty_tables\<lparr>
     tb_file_nodes := map (\<lambda>(i, n, p). \<lparr> fn_id = i, fn_kind = ascii ''file'', fn_name = n, fn_parent_id = p,
         fn_alias_target_id = None, fn_object_key = None, fn_size = None, fn_comment = None,
         fn_is_dropbox = False, fn_creator_id = 1, fn_created_at = 0, fn_updated_at = 0 \<rparr>)
       [(1, [98], None), (2, [97], None), (3, [99], None)],
     tb_permissions := [\<lparr> pm_id = 8, pm_code = 2, pm_name = [], pm_description = [] \<rparr>],
     tb_user_groups := [(7, 70)],
     tb_resource_permissions :=
       [\<lparr> rp_resource_type = RESOURCE_TYPE_FILE_NODE, rp_resource_id = 1, rp_principal_type = PRINCIPAL_USER,
          rp_principal_id = 7, rp_permission_id = 8 \<rparr>,
        \<lparr> rp_resource_type = RESOURCE_TYPE_FILE_NODE, rp_resource_id = 2, rp_principal_type = PRINCIPAL_GROUP,
          rp_principal_id = 70, rp_permission_id = 8 \<rparr>],
     tb_files := [\<lparr> lf_id = 5, lf_name = [100], lf_object_key = [], lf_size = 0 \<rparr>],
     tb_file_acl := [(5, 7)] \<rparr> \<rparr>"

lemma principals_differ: "PRINCIPAL_USER \<noteq> PRINCIPAL_GROUP"
  by (simp add: PRINCIPAL_USER_def PRINCIPAL_GROUP_def ascii_def)

theorem visible_files_exact_witness:
  "\<exists>l. fst (list_visible_root_file_nodes_for_user 7 files_conn) = Inr l \<and> sorted (map vf_name l)
     \<and> vf_name ` set l = {[97], [98], [100]}"
proof -
  have "healthy files_conn" by (simp add: files_conn_def news_conn_def healthy_def)
  from visible_files_exact [OF this refl, of 7] obtain l where
    l: "fst (list_visible_root_file_nodes_for_user 7 files_conn) = Inr l" "sorted (map vf_name l)"
    and set: "set l = node_view ` {f \<in> set (tb_file_nodes (dc_tables files_conn)). fn_parent_id f = None
        \<and> may_download (dc_tables files_conn) 7 f}
      \<union> legacy_view ` {g \<in> set (tb_files (dc_tables files_conn)). (lf_id g, 7) \<in> set (tb_file_acl (dc_tables files_conn))
        \<and> \<not> (\<exists>f\<in>set (tb_file_nodes (dc_tables files_conn)). fn_parent_id f = None
               \<and> may_download (dc_tables files_conn) 7 f \<and> fn_name f = lf_name g \<and> fn_kind f = ascii ''file'')}"
    by blast
  have guard: "{x. x = a \<and> P x} = (if P a then {a} else {})"
    "{x. (x = a \<or> Q x) \<and> P x} = (if P a then {a} else {}) \<union> {x. Q x \<and> P x}" for a :: 'b and P Q by auto
  have "vf_name ` set l = {[97], [98], [100]}"
    unfolding set using principals_differ
    by (simp add: files_conn_def empty_tables_def may_download_def node_view_def legacy_view_def guard)
      auto
  then show ?thesis using l by blast
qed

end
