(* ===== verification/Handlers.thy ===== *)
theory Handlers
  imports News_Handlers File_Store
begin

text \<open>
  Command execution: \<^verbatim>\<open>src/src/commands/handlers.rs\<close>, the dispatch of
  \<^verbatim>\<open>src/src/commands/mod.rs\<close>, \<^verbatim>\<open>src/src/login.rs\<close>, the password check of
  \<^verbatim>\<open>src/src/users.rs\<close> and \<^verbatim>\<open>handle_request\<close> of \<^verbatim>\<open>src/src/handler.rs\<close>.  The mutable
  parts of \<^verbatim>\<open>CommandContext\<close> are the state every handler threads; the messaging
  adapter, the connection identifier and the Argon2 functions are arguments.
\<close>

section \<open>The context\<close>

record 'w CommandContext =
  cx_pool :: DbPool
  cx_session :: Session
  cx_transport :: ReplyBuffer
  cx_presence :: PresenceState
  cx_world :: 'w

text \<open>
  What a command can end with besides success: an error of the source, or the panic
  of \<^verbatim>\<open>reply_header\<close>.
\<close>

datatype cmd_fault = CmdError CommandError | CmdPanic

fun cmd_fault_of :: "fault \<Rightarrow> cmd_fault" where
  "cmd_fault_of (Fault e) = CmdError (CE_Transaction e)"
| "cmd_fault_of Panic = CmdPanic"

type_synonym ('w, 'a) cmd = "('w CommandContext, cmd_fault, 'a) st"

definition on_pool :: "(DbPool, 'e, 'a) st \<Rightarrow> ('w CommandContext, 'e, 'a) st" where
  "on_pool = zoom cx_pool (\<lambda>p cx. cx\<lparr> cx_pool := p \<rparr>)"

definition get_conn :: "('w, unit) cmd" where
  "get_conn = on_pool (st_map_err (\<lambda>e. CmdError (CE_Pool e)) pool_get)"

definition query :: "(DieselError, 'a) db \<Rightarrow> ('w, 'a) cmd" where
  "query m = on_pool (st_map_err (\<lambda>e. CmdError (CE_Database e)) (on_conn m))"

definition tx_result :: "'a tx_result \<Rightarrow> ('w, 'a) cmd" where
  "tx_result r = st_lift (map_err (\<lambda>e. CmdError (CE_Transaction e)) r)"

definition reply :: "(fault, Transaction) result \<Rightarrow> ('w, Transaction) cmd" where
  "reply r = st_lift (map_err cmd_fault_of r)"

definition transport_send :: "Transaction \<Rightarrow> ('w, unit) cmd" where
  "transport_send tx =
     st_map_err (\<lambda>e. CmdError (CE_Outbound e))
       (zoom cx_transport (\<lambda>b cx. cx\<lparr> cx_transport := b \<rparr>) (send_reply tx))"

definition presence_upsert :: "PresenceSnapshot \<Rightarrow> ('w, PresenceUpsert) cmd" where
  "presence_upsert snapshot =
     st_map_err (\<lambda>e. CmdError (CE_Transaction e))
       (zoom cx_presence (\<lambda>p cx. cx\<lparr> cx_presence := p \<rparr>) (\<lambda>p. upsert p snapshot))"

section \<open>Login\<close>

text \<open>The Argon2 crate: reading a stored hash, and checking a password against it.\<close>

record 'h Argon2 =
  a2_parse :: "rstring \<Rightarrow> 'h option"
  a2_verify :: "bytes \<Rightarrow> 'h \<Rightarrow> bool"

definition verify_password :: "'h Argon2 \<Rightarrow> rstring \<Rightarrow> rstring \<Rightarrow> bool" where
  "verify_password argon2 hash pw =
     (case a2_parse argon2 hash of
        None \<Rightarrow> False
      | Some parsed_hash \<Rightarrow> a2_verify argon2 pw parsed_hash)"

definition handle_login :: "'h Argon2 \<Rightarrow> LoginRequest \<Rightarrow> ('w, Transaction) cmd" where
  "handle_login argon2 req =
     st_bind get_conn (\<lambda>_.
     st_bind (query (get_user_by_name (lr_username req))) (\<lambda>user.
     st_bind
       (case user of
          Some u \<Rightarrow>
            if verify_password argon2 (us_password u) (lr_password req) then
              st_bind (st_modify (\<lambda>cx. cx\<lparr> cx_session :=
                apply_login (cx_session cx) (us_id u) (us_username u) (or default_user NO_AGREEMENT) \<rparr>)) (\<lambda>_.
              st_bind (tx_result (encode_params [(F_Version, to_be_bytes_u16 CLIENT_VERSION)])) (\<lambda>params.
                st_return (0, params)))
            else st_return (1, [])
        | None \<Rightarrow> st_return (1, []))
       (\<lambda>(error, payload). reply (reply_with (lr_header req) error payload))))"

definition process_login :: "'h Argon2 \<Rightarrow> LoginRequest \<Rightarrow> ('w, Transaction) cmd" where
  "process_login argon2 req = handle_login argon2 req"

section \<open>Notifying the peers\<close>

definition PRESENCE_PUSH_RETRY_ATTEMPTS :: nat where [simp]: "PRESENCE_PUSH_RETRY_ATTEMPTS = 5"
definition PRESENCE_PUSH_RETRY_DELAY :: nat where "PRESENCE_PUSH_RETRY_DELAY = 50"

text \<open>The loop of \<^verbatim>\<open>push_with_retry\<close> with the given number of attempts left.\<close>

fun push_attempts ::
  "'w OutboundMessaging \<Rightarrow> OutboundConnectionId \<Rightarrow> Transaction \<Rightarrow> nat \<Rightarrow> 'w \<Rightarrow> (OutboundError, unit) result \<times> 'w" where
  "push_attempts m connection_id message 0 w = (Inl TargetUnavailable, w)"
| "push_attempts m connection_id message (Suc left) w =
     (case om_push m (Connection connection_id) message High w of
        (Inr _, w') \<Rightarrow> (Inr (), w')
      | (Inl e, w') \<Rightarrow>
          if e = TargetUnavailable \<and> 0 < left
          then push_attempts m connection_id message left (om_sleep m PRESENCE_PUSH_RETRY_DELAY w')
          else (Inl e, w'))"

definition push_with_retry ::
  "'w OutboundMessaging \<Rightarrow> OutboundConnectionId \<Rightarrow> Transaction \<Rightarrow> 'w \<Rightarrow> (OutboundError, unit) result \<times> 'w" where
  "push_with_retry m connection_id message =
     push_attempts m connection_id message PRESENCE_PUSH_RETRY_ATTEMPTS"

definition push_with_retry_to_peer ::
  "'w OutboundMessaging \<Rightarrow> Transaction \<Rightarrow> OutboundConnectionId \<Rightarrow> 'w \<Rightarrow> 'w" where
  "push_with_retry_to_peer m message connection_id w = snd (push_with_retry m connection_id message w)"

definition push_with_retry_to_peers ::
  "'w OutboundMessaging \<Rightarrow> OutboundConnectionId list \<Rightarrow> Transaction \<Rightarrow> 'w \<Rightarrow> 'w" where
  "push_with_retry_to_peers m connection_ids message =
     fold (push_with_retry_to_peer m message) connection_ids"

text \<open>The tail of the two handlers that publish a snapshot.\<close>

definition publish_snapshot :: "'w OutboundMessaging \<Rightarrow> PresenceSnapshot \<Rightarrow> ('w, unit) cmd" where
  "publish_snapshot m snapshot =
     st_bind (presence_upsert snapshot) (\<lambda>up.
       if up_peer_ids up = [] then st_return ()
       else
         st_bind (tx_result (build_notify_change_user (up_snapshot up))) (\<lambda>notification.
           st_modify (\<lambda>cx. cx\<lparr> cx_world :=
             push_with_retry_to_peers m (up_peer_ids up) notification (cx_world cx) \<rparr>)))"

section \<open>Presence commands\<close>

definition process_login_with_presence ::
  "'h Argon2 \<Rightarrow> 'w OutboundMessaging \<Rightarrow> OutboundConnectionId option \<Rightarrow> LoginRequest \<Rightarrow> ('w, unit) cmd" where
  "process_login_with_presence argon2 m presence_connection_id req =
     st_bind (handle_login argon2 req) (\<lambda>rep.
     st_bind (transport_send rep) (\<lambda>_.
       case presence_connection_id of
         None \<Rightarrow> st_return ()
       | Some connection_id \<Rightarrow>
           st_bind (st_gets (\<lambda>cx. presence_snapshot (cx_session cx) connection_id)) (\<lambda>maybe_snapshot.
             case maybe_snapshot of
               None \<Rightarrow> st_return ()
             | Some snapshot \<Rightarrow>
                 st_bind (tx_result (build_notify_change_user snapshot)) (\<lambda>_.
                   publish_snapshot m snapshot))))"

definition process_get_user_name_list :: "FrameHeader \<Rightarrow> ('w, unit) cmd" where
  "process_get_user_name_list header =
     st_bind (st_gets (\<lambda>cx. is_online (cx_session cx))) (\<lambda>online.
       if \<not> online then transport_send (privilege_error_reply header NotAuthenticated)
       else
         st_bind (st_gets (\<lambda>cx. online_snapshots (cx_presence cx))) (\<lambda>snapshots.
         st_bind (reply (build_user_name_list_reply header snapshots)) transport_send))"

definition process_get_client_info_text :: "FrameHeader \<Rightarrow> i32 \<Rightarrow> ('w, unit) cmd" where
  "process_get_client_info_text header target_user_id =
     st_bind (st_gets cx_session) (\<lambda>session.
     st_bind
       (check_privilege_and_run session header GET_CLIENT_INFO
         (st_bind (st_gets (\<lambda>cx. snapshot_for_user_id (cx_presence cx) target_user_id)) (\<lambda>maybe_snapshot.
            case maybe_snapshot of
              Some snapshot \<Rightarrow> reply (build_client_info_text_reply header (ps_display_name snapshot) [])
            | None \<Rightarrow>
                st_bind get_conn (\<lambda>_.
                st_bind (query (get_user_by_id target_user_id)) (\<lambda>user.
                  case user of
                    Some u \<Rightarrow> reply (build_client_info_text_reply header (us_username u) [])
                  | None \<Rightarrow> st_return (bare_reply header ERR_INTERNAL_SERVER))))))
       transport_send)"

definition empty_success_reply :: "FrameHeader \<Rightarrow> Transaction" where
  "empty_success_reply header = bare_reply header 0"

definition apply_user_info_update :: "UserInfoUpdate \<Rightarrow> Session \<Rightarrow> Session" where
  "apply_user_info_update update s0 =
     (let s1 = (case uu_display_name update of Some name \<Rightarrow> s0\<lparr> se_display_name := name \<rparr> | None \<Rightarrow> s0);
          s2 = (case uu_icon_id update of Some icon \<Rightarrow> s1\<lparr> se_icon_id := icon \<rparr> | None \<Rightarrow> s1);
          final_flags = (case uu_options update of Some options \<Rightarrow> options | None \<Rightarrow> se_connection_flags s2);
          s3 = (case uu_options update of
                  Some options \<Rightarrow> s2\<lparr> se_connection_flags := options \<rparr> | None \<Rightarrow> s2)
      in if has_auto_response final_flags
         then (case uu_auto_response update of
                 Some auto_response \<Rightarrow> s3\<lparr> se_auto_response := Some auto_response \<rparr> | None \<Rightarrow> s3)
         else s3\<lparr> se_auto_response := None \<rparr>)"

definition process_set_client_user_info ::
  "'w OutboundMessaging \<Rightarrow> OutboundConnectionId option \<Rightarrow> FrameHeader \<Rightarrow> UserInfoUpdate \<Rightarrow> ('w, unit) cmd" where
  "process_set_client_user_info m presence_connection_id header update =
     st_bind (st_gets cx_session) (\<lambda>session.
       case require_authenticated session of
         Inl error \<Rightarrow> transport_send (privilege_error_reply header error)
       | Inr _ \<Rightarrow>
           st_bind (st_modify (\<lambda>cx. cx\<lparr> cx_session := apply_user_info_update update (cx_session cx) \<rparr>)) (\<lambda>_.
           st_bind (st_gets (\<lambda>cx. Option.bind presence_connection_id (presence_snapshot (cx_session cx))))
             (\<lambda>maybe_snapshot.
           st_bind
             (case maybe_snapshot of
                Some candidate_snapshot \<Rightarrow>
                  st_bind (tx_result (build_notify_change_user candidate_snapshot)) (\<lambda>_. st_return ())
              | None \<Rightarrow> st_return ()) (\<lambda>_.
           st_bind (transport_send (empty_success_reply header)) (\<lambda>_.
             case maybe_snapshot of
               None \<Rightarrow> st_return ()
             | Some snapshot \<Rightarrow> publish_snapshot m snapshot)))))"

section \<open>Other commands\<close>

definition process_get_file_name_list :: "FrameHeader \<Rightarrow> ('w, Transaction) cmd" where
  "process_get_file_name_list header =
     st_bind (st_gets cx_session) (\<lambda>session.
       check_privilege_and_run session header DOWNLOAD_FILE
         (case se_user_id session of
            None \<Rightarrow> st_fail (CmdError (CE_Invariant ''authenticated session missing user id''))
          | Some uid \<Rightarrow>
              st_bind get_conn (\<lambda>_.
              st_bind (query (list_visible_root_file_nodes_for_user uid)) (\<lambda>files.
              st_bind (tx_result (encode_params (map (\<lambda>f. (F_FileName, vf_name f)) files))) (\<lambda>payload.
                reply (reply_with header 0 payload))))))"

definition process_invalid_payload :: "FrameHeader \<Rightarrow> Transaction" where
  "process_invalid_payload header = bare_reply header ERR_INVALID_PAYLOAD"

definition handle_unknown :: "FrameHeader \<Rightarrow> Transaction" where
  "handle_unknown header = bare_reply header ERR_INTERNAL_SERVER"

definition process_unknown :: "FrameHeader \<Rightarrow> Transaction" where
  "process_unknown header = handle_unknown header"

section \<open>Dispatch\<close>

definition on_news :: "(DbPool, fault, Transaction) st \<Rightarrow> ('w, Transaction) cmd" where
  "on_news m = st_map_err cmd_fault_of (on_pool m)"

fun execute :: "'h Argon2 \<Rightarrow> Command \<Rightarrow> ('w, Transaction) cmd" where
  "execute argon2 (Login req) = process_login argon2 req"
| "execute argon2 (GetFileNameList header) = process_get_file_name_list header"
| "execute argon2 (GetNewsCategoryNameList path header) =
     st_bind (st_gets cx_session) (\<lambda>session. on_news (process_category_name_list session header path))"
| "execute argon2 (GetNewsArticleNameList path header) =
     st_bind (st_gets cx_session) (\<lambda>session. on_news (process_article_name_list session header path))"
| "execute argon2 (GetNewsArticleData path article_id header) =
     st_bind (st_gets cx_session) (\<lambda>session.
       on_news (process_article_data session header \<lparr> ad_path = path, ad_article_id = article_id \<rparr>))"
| "execute argon2 (PostNewsArticle req header) =
     st_bind (st_gets cx_session) (\<lambda>session. on_news (process_post_article session header req))"
| "execute argon2 (InvalidPayload header) = st_return (process_invalid_payload header)"
| "execute argon2 (Unknown header) = st_return (process_unknown header)"
| "execute argon2 _ = st_fail (CmdError (CE_Invariant ''presence command should be handled before execute''))"

fun process_presence_command ::
  "'h Argon2 \<Rightarrow> 'w OutboundMessaging \<Rightarrow> OutboundConnectionId option \<Rightarrow> Command \<Rightarrow> ('w, unit) cmd" where
  "process_presence_command argon2 m cid (Login req) = process_login_with_presence argon2 m cid req"
| "process_presence_command argon2 m cid (GetUserNameList header) = process_get_user_name_list header"
| "process_presence_command argon2 m cid (GetClientInfoText header target_user_id) =
     process_get_client_info_text header target_user_id"
| "process_presence_command argon2 m cid (SetClientUserInfo header update) =
     process_set_client_user_info m cid header update"
| "process_presence_command argon2 m cid _ =
     st_fail (CmdError (CE_Invariant ''non-presence command passed to presence dispatcher''))"

fun is_presence_command :: "Command \<Rightarrow> bool" where
  "is_presence_command (Login _) = True"
| "is_presence_command (GetUserNameList _) = True"
| "is_presence_command (GetClientInfoText _ _) = True"
| "is_presence_command (SetClientUserInfo _ _) = True"
| "is_presence_command _ = False"

definition process_with_outbound ::
  "'h Argon2 \<Rightarrow> 'w OutboundMessaging \<Rightarrow> OutboundConnectionId option \<Rightarrow> Command \<Rightarrow> ('w, unit) cmd" where
  "process_with_outbound argon2 m cid command =
     (if is_presence_command command then process_presence_command argon2 m cid command
      else st_bind (execute argon2 command) transport_send)"

definition process ::
  "'h Argon2 \<Rightarrow> (nat \<Rightarrow> 'w \<Rightarrow> 'w) \<Rightarrow> OutboundConnectionId option \<Rightarrow> Command \<Rightarrow> ('w, Transaction) cmd" where
  "process argon2 sleep cid command =
     st_bind (st_modify (\<lambda>cx. cx\<lparr> cx_transport := reply_buffer_new \<rparr>)) (\<lambda>_.
     st_bind (process_with_outbound argon2 (noop_messaging sleep) cid command) (\<lambda>_.
     st_bind (zoom cx_transport (\<lambda>b cx. cx\<lparr> cx_transport := b \<rparr>) (\<lambda>b. case take_reply b of (r, b') \<Rightarrow> (Inr r, b')))
       (\<lambda>r. st_lift (ok_or (CmdError (CE_Outbound ReplyMissing)) r))))"

definition handle_request ::
  "'h Argon2 \<Rightarrow> (nat \<Rightarrow> 'w \<Rightarrow> 'w) \<Rightarrow> OutboundConnectionId \<Rightarrow> bytes \<Rightarrow> ('w, Transaction) cmd" where
  "handle_request argon2 sleep presence_connection_id frame =
     st_bind (tx_result (parse_transaction frame)) (\<lambda>tx.
     st_bind (tx_result (from_transaction tx)) (\<lambda>cmd.
       process argon2 sleep (Some presence_connection_id) cmd))"

end
