(* ===== verification/Server_Invariant.thy ===== *)
theory Server_Invariant
  imports Handlers
begin

text \<open>
  The invariant of the server's state and the proof that every command keeps it,
  by walking the handlers combinator by combinator.
\<close>

section \<open>The state of the server stays well formed\<close>

text \<open>
  What every command may rely on: a consistent session, a consistent presence
  registry, and article chains that are linked correctly on an engine whose ids grow.
\<close>

definition server_wf :: "'w CommandContext \<Rightarrow> bool" where
  "server_wf cx \<longleftrightarrow> session_wf (cx_session cx) \<and> presence_wf (cx_presence cx)
     \<and> articles_wf (pool_tables (cx_pool cx)) \<and> ids_grow (pl_conn (cx_pool cx))"

text \<open>
  All commands but one are quiet: they leave the tables alone and keep the session and
  the registry consistent.  The exception is posting an article.
\<close>

definition pool_quiet :: "DbPool \<Rightarrow> DbPool \<Rightarrow> bool" where
  "pool_quiet p p' \<longleftrightarrow> same_db (pl_conn p) (pl_conn p')"

definition quiet :: "'w CommandContext \<Rightarrow> 'w CommandContext \<Rightarrow> bool" where
  "quiet cx cx' \<longleftrightarrow> pool_quiet (cx_pool cx) (cx_pool cx')
     \<and> (session_wf (cx_session cx) \<longrightarrow> session_wf (cx_session cx'))
     \<and> (presence_wf (cx_presence cx) \<longrightarrow> presence_wf (cx_presence cx'))"

definition conn_keeps :: "DbConn \<Rightarrow> DbConn \<Rightarrow> bool" where
  "conn_keeps c c' \<longleftrightarrow> (articles_wf (dc_tables c) \<and> ids_grow c \<longrightarrow> articles_wf (dc_tables c') \<and> ids_grow c')"

definition pool_keeps :: "DbPool \<Rightarrow> DbPool \<Rightarrow> bool" where
  "pool_keeps p p' \<longleftrightarrow> conn_keeps (pl_conn p) (pl_conn p')"

lemma quiet_preorders [steps_intros]:
  "reflp pool_quiet" "transp pool_quiet" "reflp quiet" "transp quiet" "reflp pool_keeps" "transp pool_keeps"
  "reflp conn_keeps" "transp conn_keeps"
  by (auto simp: quiet_def pool_quiet_def pool_keeps_def conn_keeps_def same_db_def same_engine_def
      reflp_def transp_def)

lemma steps_check_privilege [steps_intros]:
  "reflp R \<Longrightarrow> steps R h \<Longrightarrow> steps R (check_privilege_and_run s hdr p h)"
  by (auto simp: check_privilege_and_run_def intro: steps_intros split: sum.split)

lemma ids_grow_same: "same_engine c c' \<Longrightarrow> ids_grow c' = ids_grow c"
  by (simp add: same_engine_def ids_grow_def)

lemma steps_on_conn [steps_intros]:
  "steps same_db m \<Longrightarrow> steps pool_quiet (on_conn m)"
  "steps conn_keeps n \<Longrightarrow> steps pool_keeps (on_conn n)"
  unfolding on_conn_def by (erule steps_zoom; simp add: pool_quiet_def pool_keeps_def)+

lemma steps_pool_get [steps_intros]: "steps pool_quiet pool_get"
  by (auto simp: steps_def wp_def pool_get_def pool_quiet_def same_db_def same_engine_def Let_def split: option.split)

lemma pool_quiet_keeps: "pool_quiet p p' \<Longrightarrow> pool_keeps p p'"
  by (auto simp: pool_quiet_def pool_keeps_def conn_keeps_def same_db_def ids_grow_same)

lemma quiet_keeps_wf: "quiet cx cx' \<Longrightarrow> server_wf cx \<Longrightarrow> server_wf cx'"
  using pool_quiet_keeps by (auto simp: quiet_def server_wf_def pool_keeps_def conn_keeps_def)

lemma steps_on_pool [steps_intros]: "steps pool_quiet m \<Longrightarrow> steps quiet (on_pool m)"
  unfolding on_pool_def by (erule steps_zoom) (simp add: quiet_def)

lemma steps_get_conn [steps_intros]: "steps quiet get_conn"
  unfolding get_conn_def by (intro steps_intros)

lemma steps_query [steps_intros]: "steps same_db m \<Longrightarrow> steps quiet (query m)"
  unfolding query_def by (intro steps_intros)

lemma steps_results [steps_intros]: "steps quiet (tx_result r)" "steps quiet (reply q)"
  unfolding tx_result_def reply_def by (intro steps_intros)+

lemma steps_transport_send [steps_intros]: "steps quiet (transport_send tx)"
  unfolding transport_send_def
  by (intro steps_intros steps_zoom [where R' = "\<lambda>_ _. True"])
    (auto simp: steps_def wp_def quiet_def pool_quiet_def same_db_def same_engine_def split: prod.split sum.split)

lemma steps_presence_upsert [steps_intros]: "steps quiet (presence_upsert snapshot)"
  unfolding presence_upsert_def
proof (intro steps_intros steps_zoom [where R' = "\<lambda>p p'. presence_wf p \<longrightarrow> presence_wf p'"])
  show "steps (\<lambda>p p'. presence_wf p \<longrightarrow> presence_wf p') (\<lambda>p. upsert p snapshot)"
    using upsert_spec(1) by (fastforce simp: steps_def wp_def split: prod.split sum.split)
qed (simp add: quiet_def pool_quiet_def same_db_def same_engine_def)

lemma steps_publish [steps_intros]: "steps quiet (publish_snapshot m snapshot)"
proof -
  have "steps quiet (st_modify (\<lambda>cx. cx\<lparr> cx_world := f (cx_world cx) \<rparr>))" for f :: "'a \<Rightarrow> 'a"
    by (simp add: steps_def wp_simps quiet_def pool_quiet_def same_db_def same_engine_def)
  then show ?thesis
    unfolding publish_snapshot_def by (intro steps_intros)
qed

lemma steps_users [steps_intros]:
  "steps same_db (get_user_by_name n)" "steps same_db (get_user_by_id i)"
  unfolding get_user_by_name_def get_user_by_id_def by (intro steps_intros)+

lemma steps_files [steps_intros]: "steps same_db (list_visible_root_file_nodes_for_user uid)"
  unfolding list_visible_root_file_nodes_for_user_def list_legacy_visible_root_files_for_user_def Let_def
  by (intro steps_intros)

lemma steps_session: 
  "(\<And>s. session_wf s \<Longrightarrow> session_wf (f s)) \<Longrightarrow>
     steps quiet (st_modify (\<lambda>cx. cx\<lparr> cx_session := f (cx_session cx) \<rparr>))"
  by (simp add: steps_def wp_simps quiet_def pool_quiet_def same_db_def same_engine_def)

lemma steps_handle_login [steps_intros]: "steps quiet (handle_login argon2 req)"
  unfolding handle_login_def by (intro steps_intros steps_session apply_login_wf)

lemma apply_user_info_update_wf [wf_intros]:
  assumes "session_wf s" shows "session_wf (apply_user_info_update u s)"
  using assms
  by (auto simp: session_wf_def apply_user_info_update_def Let_def requires_agreement_def split: option.split)

lemma steps_lists [steps_intros]:
  "steps same_db (list_names_at_path path)" "steps same_db (list_article_titles p)" "steps same_db (get_article p i)"
  unfolding list_names_at_path_def bundle_id_from_path_def list_article_titles_def get_article_def
  by (intro steps_intros)+

lemma steps_create_root_article [steps_intros]: "steps conn_keeps (create_root_article path params)"
  unfolding steps_def wp_def
proof
  fix c
  obtain r c' where run: "create_root_article path params c = (r, c')" by fastforce
  have "steps same_engine (create_root_article path params)"
    unfolding create_root_article_def get_last_root_article_id_def insert_new_article_def fetch_last_insert_rowid_def link_prev_to_new_def
    by (intro steps_intros same_db_engine [OF category_id_steps])
  from ids_grow_same [OF steps_run [OF this run]] have "conn_keeps c c'"
    using create_root_article_keeps [OF _ _ run] by (auto simp: conn_keeps_def)
  then show "case create_root_article path params c of (Inr a, s') \<Rightarrow> conn_keeps c s' | (Inl e, s') \<Rightarrow> conn_keeps c s'"
    by (simp add: run split: sum.split)
qed

lemma run_news_tx_steps:
  assumes "steps R (on_conn op)" "\<And>p p'. pool_quiet p p' \<Longrightarrow> R p p'" "transp R"
  shows "steps R (run_news_tx header op)"
proof -
  have get: "R p p1" if "pool_get p = (q, p1)" for p p1 q
    using assms(2) steps_run [OF steps_pool_get that] .
  have "R p p2" if "pool_get p = (q, p1)" "on_conn op p1 = (r, p2)" for p p1 p2 q r
    using transpD [OF assms(3) get [OF that(1)] steps_run [OF assms(1) that(2)]] .
  with get show ?thesis
    by (auto simp: steps_def wp_def run_news_tx_def split: prod.splits sum.splits)
qed

lemma steps_news_tx [steps_intros]: "steps same_db op \<Longrightarrow> steps pool_quiet (run_news_tx header op)"
  by (rule run_news_tx_steps) (intro steps_intros | assumption)+

lemma steps_news [steps_intros]:
  "steps pool_quiet (process_category_name_list s h path)"
  "steps pool_quiet (process_article_name_list s h p)"
  "steps pool_quiet (process_article_data s h req)"
  unfolding process_category_name_list_def process_article_name_list_def process_article_data_def
    handle_category_list_def handle_article_titles_def handle_list_def handle_article_data_def
  by (intro steps_intros)+

lemma steps_post [steps_intros]: "steps pool_keeps (process_post_article s h post)"
  unfolding process_post_article_def handle_post_article_def
  by (intro steps_intros run_news_tx_steps pool_quiet_keeps)

fun is_post :: "Command \<Rightarrow> bool" where
  "is_post (PostNewsArticle _ _) = True"
| "is_post _ = False"

lemma steps_execute: "\<not> is_post command \<Longrightarrow> steps quiet (execute argon2 command)"
  by (cases command) (auto simp: process_login_def process_get_file_name_list_def on_news_def intro!: steps_intros)

lemma steps_presence_command [steps_intros]: "steps quiet (process_presence_command argon2 m cid command)"
  by (cases command)
    (auto simp: process_login_with_presence_def process_get_user_name_list_def process_get_client_info_text_def
      process_set_client_user_info_def intro!: steps_intros steps_session apply_user_info_update_wf)

lemma quiet_commands:
  "\<not> is_post command \<Longrightarrow> steps quiet (process_with_outbound argon2 m cid command)"
  unfolding process_with_outbound_def
  by (auto intro!: steps_intros steps_execute)

lemma post_keeps_wf:
  "steps (\<lambda>cx cx'. server_wf cx \<longrightarrow> server_wf cx') (process_with_outbound argon2 m cid (PostNewsArticle req h))"
proof -
  have "reflp (\<lambda>cx cx'. server_wf cx \<longrightarrow> server_wf cx')" "transp (\<lambda>cx cx'. server_wf cx \<longrightarrow> server_wf cx')"
    by (auto simp: reflp_def transp_def)
  moreover have "steps (\<lambda>cx cx'. server_wf cx \<longrightarrow> server_wf cx') (on_news (process_post_article s h req))" for s
    unfolding on_news_def on_pool_def
    by (intro steps_intros steps_zoom [OF steps_post]) (auto simp: pool_keeps_def conn_keeps_def server_wf_def)
  moreover have "steps (\<lambda>cx cx'. server_wf cx \<longrightarrow> server_wf cx') (transport_send tx)" for tx
    by (rule steps_mono [OF steps_transport_send]) (simp add: quiet_keeps_wf)
  ultimately show ?thesis
    unfolding process_with_outbound_def by (simp, intro steps_intros)
qed

text \<open>
  C23: whatever the client sends and whatever the database, the pool and the other
  connections do, a command leaves the session, the presence registry and the
  article chains well formed, also when it ends in an error or a panic.
\<close>

theorem commands_keep_server_wf:
  assumes "server_wf cx" "process_with_outbound argon2 m cid command cx = (r, cx')"
  shows "server_wf cx'"
proof (cases "is_post command")
  case True
  then obtain req h where "command = PostNewsArticle req h" by (cases command) auto
  then show ?thesis using steps_run [OF post_keeps_wf] assms by blast
next
  case False
  then show ?thesis using steps_run [OF quiet_commands assms(2)] quiet_keeps_wf assms(1) by blast
qed

text \<open>A server with one account, two users online and one empty news category.\<close>

definition plain_argon2 :: "rstring Argon2" where
  "plain_argon2 = \<lparr> a2_parse = Some, a2_verify = (\<lambda>pw h. pw = h) \<rparr>"

definition sample_tables :: Tables where
  "sample_tables = (dc_tables news_conn)\<lparr> tb_users := [\<lparr> us_id = 7, us_username = [97], us_password = [98] \<rparr>] \<rparr>"

definition sample_context :: "unit CommandContext" where
  "sample_context = \<lparr> cx_pool = \<lparr> pl_conn = news_conn\<lparr> dc_tables := sample_tables \<rparr>, pl_refuse = (\<lambda>_. None) \<rparr>,
     cx_session = session_default, cx_transport = reply_buffer_new, cx_presence = sample_registry, cx_world = () \<rparr>"

definition login_header :: FrameHeader where
  "login_header = \<lparr> fh_flags = 0, fh_is_reply = 0, fh_ty = 107, fh_id = 9, fh_error = 0,
     fh_total_size = 0, fh_data_size = 0 \<rparr>"

definition sample_login :: LoginRequest where
  "sample_login = \<lparr> lr_username = [97], lr_password = [98], lr_header = login_header \<rparr>"

abbreviation silent :: "unit OutboundMessaging" where
  "silent \<equiv> noop_messaging (\<lambda>_ w. w)"

lemma sample_context_wf: "server_wf sample_context"
  using news_conn_articles presence_reachable_wf [OF sample_registry_reachable] session_default_wf
  by (simp add: server_wf_def sample_context_def sample_tables_def articles_wf_def root_articles_def ids_grow_def)

theorem commands_keep_server_wf_witness:
  "server_wf (snd (process_with_outbound plain_argon2 silent (Some 3) (Login sample_login) sample_context))"
  by (rule commands_keep_server_wf [OF sample_context_wf]) (rule prod.collapse [symmetric])

end
