(* ===== verification/Replies.thy ===== *)
theory Replies
  imports Server_Invariant
begin

text \<open>
  One request, one reply: that every handler sends exactly one reply, to the request
  it was called for, and how a command can fail.
\<close>

section \<open>Every command is answered once\<close>

definition reply_for :: "FrameHeader \<Rightarrow> Transaction \<Rightarrow> bool" where
  "reply_for h tx \<longleftrightarrow> fh_is_reply (tx_header tx) = 1 \<and> fh_flags (tx_header tx) = 0
     \<and> fh_ty (tx_header tx) = fh_ty h \<and> fh_id (tx_header tx) = fh_id h
     \<and> unat (fh_total_size (tx_header tx)) = length (tx_payload tx)
     \<and> fh_data_size (tx_header tx) = fh_total_size (tx_header tx)"

text \<open>The ways a command can fail: the database, the pool, an encoding, or the length panic.\<close>

fun outside_fault :: "cmd_fault \<Rightarrow> bool" where
  "outside_fault (CmdError (CE_Database _)) = True"
| "outside_fault (CmdError (CE_Pool _)) = True"
| "outside_fault (CmdError (CE_Transaction _)) = True"
| "outside_fault (CmdError _) = False"
| "outside_fault CmdPanic = True"

definition leaves_transport :: "('w, 'a) cmd \<Rightarrow> bool" where
  "leaves_transport m \<longleftrightarrow>
     (\<forall>cx. wp m (\<lambda>_ cx'. cx_transport cx' = cx_transport cx) (\<lambda>e _. outside_fault e) cx)"

definition answers :: "('a \<Rightarrow> bool) \<Rightarrow> ('w, 'a) cmd \<Rightarrow> bool" where
  "answers P m \<longleftrightarrow>
     (\<forall>cx. wp m (\<lambda>tx cx'. P tx \<and> cx_transport cx' = cx_transport cx) (\<lambda>e _. outside_fault e) cx)"

definition answered :: "(Transaction \<Rightarrow> bool) \<Rightarrow> ('w, unit) cmd \<Rightarrow> bool" where
  "answered P m \<longleftrightarrow>
     (\<forall>cx. rb_reply (cx_transport cx) = None \<longrightarrow>
        wp m (\<lambda>_ cx'. \<exists>tx. rb_reply (cx_transport cx') = Some tx \<and> P tx) (\<lambda>e _. outside_fault e) cx)"

named_theorems answer_intros

lemma leaves_primitive [answer_intros]:
  "leaves_transport (st_return a)" "leaves_transport (st_gets f)" "leaves_transport (tx_result r)"
  by (auto simp: leaves_transport_def wp_simps tx_result_def split: sum.split elim: map_err.elims)

lemma leaves_modify [answer_intros]:
  "leaves_transport (st_modify (\<lambda>cx. cx\<lparr> cx_session := f cx \<rparr>))"
  "leaves_transport (st_modify (\<lambda>cx. cx\<lparr> cx_world := g cx \<rparr>))"
  by (simp_all add: leaves_transport_def wp_simps)

lemma leaves_db [answer_intros]: "leaves_transport get_conn" "leaves_transport (query m)"
  "leaves_transport (presence_upsert p)"
  by (auto simp: leaves_transport_def get_conn_def query_def on_pool_def presence_upsert_def wp_simps
      intro: wp_trivial)

lemma leaves_bind [answer_intros]:
  assumes "leaves_transport m" "\<And>a. leaves_transport (k a)" shows "leaves_transport (st_bind m k)"
  unfolding leaves_transport_def wp_bind
proof
  fix cx :: "'a CommandContext"
  have "wp (k a) (\<lambda>_ cx'. cx_transport cx' = cx_transport cx) (\<lambda>e _. outside_fault e) s'"
    if "cx_transport s' = cx_transport cx" for a s'
    using assms(2) [of a] that by (simp add: leaves_transport_def flip: that)
  then show "wp m (\<lambda>a. wp (k a) (\<lambda>_ cx'. cx_transport cx' = cx_transport cx) (\<lambda>e _. outside_fault e))
      (\<lambda>e _. outside_fault e) cx"
    using assms(1) by (auto simp: leaves_transport_def intro: wp_mono)
qed

lemma leaves_cases [answer_intros]:
  "leaves_transport m \<Longrightarrow> (\<And>x. leaves_transport (k x)) \<Longrightarrow> leaves_transport (case opt of None \<Rightarrow> m | Some x \<Rightarrow> k x)"
  "leaves_transport m \<Longrightarrow> leaves_transport n \<Longrightarrow> leaves_transport (if b then m else n)"
  by (simp_all split: option.split)

lemma reply_for_bare [answer_intros]: "reply_for h (bare_reply h e)"
  by (simp add: reply_for_def bare_reply_eq)

lemma reply_for_reply_with: "reply_with h e payload = Inr tx \<Longrightarrow> reply_for h tx"
  by (auto simp: reply_with_iff reply_for_def unat_of_nat take_bit_nat_eq_self)

lemma answers_bind [answer_intros]:
  assumes "leaves_transport m" "\<And>a. answers P (k a)" shows "answers P (st_bind m k)"
  unfolding answers_def wp_bind
proof
  fix cx :: "'a CommandContext"
  have "wp (k a) (\<lambda>tx cx'. P tx \<and> cx_transport cx' = cx_transport cx) (\<lambda>e _. outside_fault e) s'"
    if "cx_transport s' = cx_transport cx" for a s'
    using assms(2) [of a] that by (simp add: answers_def flip: that)
  then show "wp m (\<lambda>a. wp (k a) (\<lambda>tx cx'. P tx \<and> cx_transport cx' = cx_transport cx) (\<lambda>e _. outside_fault e))
      (\<lambda>e _. outside_fault e) cx"
    using assms(1) by (auto simp: leaves_transport_def intro: wp_mono)
qed

lemma answers_return [answer_intros]: "P tx \<Longrightarrow> answers P (st_return tx)"
  by (simp add: answers_def wp_simps)

lemma answers_cases [answer_intros]:
  "answers P m \<Longrightarrow> (\<And>x. answers P (k x)) \<Longrightarrow> answers P (case opt of None \<Rightarrow> m | Some x \<Rightarrow> k x)"
  "(\<And>x y. answers P (f x y)) \<Longrightarrow> answers P (case p of (x, y) \<Rightarrow> f x y)"
  by (simp_all split: option.split prod.split)

lemma outside_cmd_fault_of [simp]: "outside_fault (cmd_fault_of f)"
  by (cases f) simp_all

lemma answers_replyI: "(\<And>tx. r = Inr tx \<Longrightarrow> P tx) \<Longrightarrow> answers P (reply r)"
  by (cases r) (simp_all add: answers_def reply_def wp_simps)

lemma answers_reply [answer_intros]:
  "answers (reply_for h) (reply (reply_with h e payload))"
  "answers (reply_for h) (reply (build_user_name_list_reply h ps))"
  "answers (reply_for h) (reply (build_client_info_text_reply h name info))"
  by (rule answers_replyI, auto simp: build_user_name_list_reply_def build_client_info_text_reply_def
      intro: reply_for_reply_with)+

lemma answers_check_privilege [answer_intros]:
  "answers (reply_for h) m \<Longrightarrow> answers (reply_for h) (check_privilege_and_run s h p m)"
  by (auto simp: check_privilege_and_run_def privilege_error_reply_def intro!: answer_intros split: sum.split)

lemma news_replies:
  "wp (run_news_tx h op) (\<lambda>tx _. reply_for h tx) (\<lambda>_ _. True) pool"
proof -
  have "reply_for h tx" if "handle_news_result h r = Inr tx" for r tx
    using that
    by (auto simp: handle_news_result_def encode_reply_def news_error_reply_def path_error_reply_def
        article_not_found_reply_def unsupported_path_reply_def logged_internal_error_def internal_error_reply_def
        intro!: reply_for_bare reply_for_reply_with split: sum.splits NewsHandlerError.splits PathLookupError.splits)
  then show ?thesis
    by (auto simp: wp_def run_news_tx_def pool_error_reply_def internal_error_reply_def reply_for_bare
        split: prod.splits sum.splits)
qed

lemma answers_news [answer_intros]:
  "answers (reply_for h) (on_news (run_news_tx h op))"
  by (simp add: answers_def on_news_def on_pool_def wp_simps wp_mono [OF news_replies])

lemma answers_on_news_check [answer_intros]:
  "answers (reply_for h) (on_news m :: ('w, Transaction) cmd) \<Longrightarrow>
     answers (reply_for h) (on_news (check_privilege_and_run s h p m) :: ('w, Transaction) cmd)"
  by (auto simp: check_privilege_and_run_def privilege_error_reply_def answers_def on_news_def on_pool_def wp_simps
      reply_for_bare split: sum.split)

lemma answers_handle_login [answer_intros]: "answers (reply_for (lr_header req)) (handle_login argon2 req)"
  unfolding handle_login_def by (intro answer_intros)

lemma answers_file_list [answer_intros]: "answers (reply_for h) (process_get_file_name_list h)"
  unfolding answers_def
proof
  fix cx :: "'a CommandContext"
  let ?run = "check_privilege_and_run (cx_session cx) h DOWNLOAD_FILE
     (case se_user_id (cx_session cx) of
        None \<Rightarrow> st_fail (CmdError (CE_Invariant ''authenticated session missing user id''))
      | Some uid \<Rightarrow>
          st_bind get_conn (\<lambda>_.
          st_bind (query (list_visible_root_file_nodes_for_user uid)) (\<lambda>files.
          st_bind (tx_result (encode_params (map (\<lambda>f. (F_FileName, vf_name f)) files))) (\<lambda>payload.
            reply (reply_with h 0 payload))))) :: ('a, Transaction) cmd"
  have "answers (reply_for h) ?run"
  proof (cases "se_user_id (cx_session cx)")
    case None
    then have "require_privilege (cx_session cx) DOWNLOAD_FILE = Inl NotAuthenticated"
      by (simp add: require_privilege_def)
    then show ?thesis
      by (simp add: check_privilege_and_run_def privilege_error_reply_def answers_return reply_for_bare)
  next
    case (Some uid)
    show ?thesis unfolding Some option.case by (intro answer_intros)
  qed
  then show "wp (process_get_file_name_list h)
      (\<lambda>tx cx'. reply_for h tx \<and> cx_transport cx' = cx_transport cx) (\<lambda>e _. outside_fault e) cx"
    by (simp add: process_get_file_name_list_def wp_bind wp_primitive answers_def)
qed

lemma answers_execute:
  "\<not> is_presence_command command \<Longrightarrow> answers (reply_for (command_header command)) (execute argon2 command)"
  by (cases command)
    (auto simp: process_category_name_list_def process_article_name_list_def process_article_data_def
      process_post_article_def handle_category_list_def handle_article_titles_def handle_list_def
      handle_article_data_def handle_post_article_def process_invalid_payload_def process_unknown_def
      handle_unknown_def intro!: answer_intros)

lemma answered_send [answer_intros]: "answers P m \<Longrightarrow> answered P (st_bind m transport_send)"
  by (auto simp: answers_def answered_def wp_bind transport_send_def wp_map_err wp_zoom wp_def [of "send_reply _"]
      send_reply_def intro: wp_mono)

lemma answered_first [answer_intros]:
  assumes "P tx" "leaves_transport k"
  shows "answered P (st_bind (transport_send tx) (\<lambda>_. k))"
  using assms
  by (auto simp: answered_def leaves_transport_def wp_bind transport_send_def wp_map_err wp_zoom
      wp_def [of "send_reply _"] send_reply_def intro: wp_mono)

lemma answered_plain [answer_intros]: "P tx \<Longrightarrow> answered P (transport_send tx)"
  by (simp add: answered_def transport_send_def wp_map_err wp_zoom wp_def [of "send_reply _"] send_reply_def)

lemma answered_bind [answer_intros]:
  assumes "leaves_transport m" "\<And>a. answered P (k a)" shows "answered P (st_bind m k)"
  unfolding answered_def wp_bind
proof (intro allI impI)
  fix cx :: "'a CommandContext" assume "rb_reply (cx_transport cx) = None"
  then have "wp (k a) (\<lambda>_ cx'. \<exists>tx. rb_reply (cx_transport cx') = Some tx \<and> P tx) (\<lambda>e _. outside_fault e) s'"
    if "cx_transport s' = cx_transport cx" for a s'
    using assms(2) [of a] that by (simp add: answered_def)
  then show "wp m (\<lambda>a. wp (k a) (\<lambda>_ cx'. \<exists>tx. rb_reply (cx_transport cx') = Some tx \<and> P tx)
      (\<lambda>e _. outside_fault e)) (\<lambda>e _. outside_fault e) cx"
    using assms(1) by (auto simp: leaves_transport_def intro: wp_mono)
qed

lemma answered_after [answer_intros]:
  assumes "answers P m" "\<And>tx. leaves_transport (k tx)"
  shows "answered P (st_bind m (\<lambda>tx. st_bind (transport_send tx) (\<lambda>_. k tx)))"
  unfolding answered_def wp_bind [of m]
proof (intro allI impI)
  fix cx :: "'a CommandContext" assume "rb_reply (cx_transport cx) = None"
  then have "wp (st_bind (transport_send tx) (\<lambda>_. k tx))
      (\<lambda>_ cx'. \<exists>tx. rb_reply (cx_transport cx') = Some tx \<and> P tx) (\<lambda>e _. outside_fault e) s'"
    if "P tx \<and> cx_transport s' = cx_transport cx" for tx s'
    using answered_first [OF _ assms(2) [of tx], of P tx] that by (simp add: answered_def)
  then show "wp m (\<lambda>tx. wp (st_bind (transport_send tx) (\<lambda>_. k tx))
      (\<lambda>_ cx'. \<exists>tx. rb_reply (cx_transport cx') = Some tx \<and> P tx) (\<lambda>e _. outside_fault e))
      (\<lambda>e _. outside_fault e) cx"
    using assms(1) by (auto simp: answers_def intro: wp_mono)
qed

lemma leaves_publish [answer_intros]: "leaves_transport (publish_snapshot m snapshot)"
  unfolding publish_snapshot_def by (intro answer_intros)

lemma answered_presence:
  assumes "is_presence_command command"
  shows "answered (reply_for (command_header command)) (process_presence_command argon2 m cid command)"
proof (cases command)
  case (Login req)
  show ?thesis
    unfolding Login process_presence_command.simps command_header.simps process_login_with_presence_def
    by (rule answered_after) (intro answer_intros)+
next
  case (SetClientUserInfo h u)
  have guard: "answered (reply_for h) (case require_authenticated s of
      Inl error \<Rightarrow> transport_send (privilege_error_reply h error) | Inr a \<Rightarrow> g a)"
    if "\<And>a. answered (reply_for h) (g a)" for s and g :: "unit \<Rightarrow> ('a, unit) cmd"
    using that
    by (auto simp: privilege_error_reply_def intro!: answered_plain reply_for_bare split: sum.split)
  show ?thesis
    unfolding SetClientUserInfo process_presence_command.simps command_header.simps process_set_client_user_info_def
      empty_success_reply_def
    by (intro answered_bind guard answered_first answer_intros)
next
  case (GetUserNameList h)
  then show ?thesis
    by (auto simp: process_get_user_name_list_def privilege_error_reply_def intro!: answer_intros)
next
  case (GetClientInfoText h i)
  then show ?thesis
    by (auto simp: process_get_client_info_text_def intro!: answered_bind [of "st_gets _"] answered_send answer_intros)
qed (use assms in simp_all)

lemma process_answered:
  "answered (reply_for (command_header command)) (process_with_outbound argon2 m cid command)"
  unfolding process_with_outbound_def
  by (auto intro: answered_presence answered_send answers_execute)

text \<open>
  C24: every command is answered exactly once, to the request it came with.  Run with
  an empty reply buffer, a command either ends with one buffered reply that carries
  the request's type and transaction id, the reply mark and the true payload length,
  or fails for an outside reason: the database, the pool, an encoding that does not
  fit, or the length panic.  It never finds the buffer occupied, and never ends in
  one of the internal invariant errors.
\<close>

theorem command_answered_once:
  assumes "rb_reply (cx_transport cx) = None" "process_with_outbound argon2 m cid command cx = (r, cx')"
  shows "case r of
      Inr _ \<Rightarrow> (\<exists>tx. rb_reply (cx_transport cx') = Some tx \<and> reply_for (command_header command) tx)
    | Inl e \<Rightarrow> outside_fault e"
proof -
  have "wp (process_with_outbound argon2 m cid command)
      (\<lambda>_ cx'. \<exists>tx. rb_reply (cx_transport cx') = Some tx \<and> reply_for (command_header command) tx)
      (\<lambda>e _. outside_fault e) cx"
    using assms(1) process_answered [of command argon2 m cid] by (simp add: answered_def)
  from wp_run [OF this assms(2)] show ?thesis .
qed

theorem command_answered_once_witness:
  "case process_with_outbound plain_argon2 silent (Some 3) (Login sample_login) sample_context of
     (Inr _, cx') \<Rightarrow> (\<exists>tx. rb_reply (cx_transport cx') = Some tx \<and> reply_for login_header tx)
   | (Inl e, _) \<Rightarrow> outside_fault e"
  using command_answered_once [of sample_context plain_argon2 silent "Some 3" "Login sample_login"]
  by (auto simp: sample_context_def sample_login_def reply_buffer_new_def split: prod.splits sum.splits)

end
