(* ===== verification/Access_Control.thy ===== *)
theory Access_Control
  imports Replies
begin

text \<open>
  Who may do what: the commands of a client that has not logged in, and which
  sessions can change the database.
\<close>


section \<open>Before login\<close>

text \<open>The error code a client that has not logged in gets for everything but a login.\<close>

fun denial_code :: "Command \<Rightarrow> u32" where
  "denial_code (InvalidPayload _) = ERR_INVALID_PAYLOAD"
| "denial_code (Unknown _) = ERR_INTERNAL_SERVER"
| "denial_code _ = ERR_NOT_AUTHENTICATED"

fun is_login :: "Command \<Rightarrow> bool" where
  "is_login (Login _) = True"
| "is_login _ = False"

lemma not_authenticated_checks:
  assumes "\<not> is_authenticated s"
  shows "require_privilege s p = Inl NotAuthenticated" "require_authenticated s = Inl NotAuthenticated"
  using assms by (simp_all add: require_privilege_def require_authenticated_def is_authenticated_def split: option.splits)

lemma check_denied:
  "\<not> is_authenticated s \<Longrightarrow>
     check_privilege_and_run s h p m = st_return (bare_reply h ERR_NOT_AUTHENTICATED)"
  by (simp add: check_privilege_and_run_def not_authenticated_checks privilege_error_reply_def)

lemma transport_send_empty:
  "rb_reply (cx_transport cx) = None \<Longrightarrow>
     transport_send tx cx = (Inr (), cx\<lparr> cx_transport := \<lparr> rb_reply = Some tx \<rparr> \<rparr>)"
  by (simp add: transport_send_def st_map_err_def zoom_def send_reply_def)

lemma on_news_return: "on_news (st_return tx) cx = (Inr tx, cx)"
  by (simp add: on_news_def on_pool_def zoom_def st_map_err_def st_return_def)

lemma st_bind_gets: "st_bind (st_gets f) k s = k (f s) s"
  by (simp add: st_bind_def st_gets_def)

text \<open>
  C25: a client that has not logged in can do nothing but log in.  Every other
  command is answered with an error code and changes nothing else: not the session,
  not the registry, not a table, and no message is pushed to anyone.
\<close>

theorem unauthenticated_changes_nothing:
  assumes "session_wf (cx_session cx)" "\<not> is_authenticated (cx_session cx)"
    and "rb_reply (cx_transport cx) = None" "\<not> is_login command"
  shows "process_with_outbound argon2 m cid command cx =
    (Inr (), cx\<lparr> cx_transport := \<lparr> rb_reply = Some (bare_reply (command_header command) (denial_code command)) \<rparr> \<rparr>)"
proof -
  have offline: "\<not> is_online (cx_session cx)"
    using assms(1,2) by (auto simp: session_wf_def is_online_def is_authenticated_def)
  show ?thesis
    using assms(4)
    by (cases command)
      (simp_all add: process_with_outbound_def st_bind_gets transport_send_empty [OF assms(3)]
        process_get_user_name_list_def offline privilege_error_reply_def
        process_get_client_info_text_def check_denied [OF assms(2)]
        process_set_client_user_info_def not_authenticated_checks [OF assms(2)]
        process_get_file_name_list_def process_category_name_list_def process_article_name_list_def
        process_article_data_def process_post_article_def on_news_return st_bind_def [of "on_news _"]
        st_bind_def [of "st_bind _ _"] st_return_def
        process_invalid_payload_def process_unknown_def handle_unknown_def)
qed

definition post_request :: PostArticleRequest where
  "post_request = \<lparr> pa_path = [103], pa_title = [72], pa_flags = 0, pa_data_flavor = [116], pa_data = [98] \<rparr>"

lemma sample_context_simps [simp]:
  "cx_session sample_context = session_default" "rb_reply (cx_transport sample_context) = None"
  "\<not> is_authenticated session_default"
  by (simp_all add: sample_context_def reply_buffer_new_def is_authenticated_def session_default_def)

theorem unauthenticated_changes_nothing_witness:
  "process_with_outbound plain_argon2 silent (Some 3) (PostNewsArticle post_request login_header) sample_context =
     (Inr (), sample_context\<lparr> cx_transport := \<lparr> rb_reply = Some (bare_reply login_header 1) \<rparr> \<rparr>)"
  using unauthenticated_changes_nothing
    [of sample_context "PostNewsArticle post_request login_header" plain_argon2 silent "Some 3"]
  by (simp add: session_default_wf)

section \<open>Who may write\<close>

text \<open>
  C26: only a session that holds the posting privilege changes the database.  If a
  command of any kind leaves any table different from what it was, the command posted
  a news article and the session held \<^verbatim>\<open>NEWS_POST_ARTICLE\<close> when it arrived.
\<close>

theorem writes_need_post_privilege:
  assumes "process_with_outbound argon2 m cid command cx = (r, cx')"
    and "pool_tables (cx_pool cx') \<noteq> pool_tables (cx_pool cx)"
  shows "\<exists>req h. command = PostNewsArticle req h \<and> has_privilege (cx_session cx) NEWS_POST_ARTICLE"
proof -
  have "is_post command"
    using steps_run [OF quiet_commands assms(1)] assms(2) by (auto simp: quiet_def pool_quiet_def same_db_def)
  then obtain req h where post: "command = PostNewsArticle req h" by (cases command) auto
  have "has_privilege (cx_session cx) NEWS_POST_ARTICLE"
  proof (rule ccontr)
    assume "\<not> ?thesis"
    then obtain e where "require_privilege (cx_session cx) NEWS_POST_ARTICLE = Inl e"
      by (cases "require_privilege (cx_session cx) NEWS_POST_ARTICLE") auto
    then have "execute argon2 command cx = (Inr (privilege_error_reply h e), cx)"
      by (simp add: post st_bind_gets process_post_article_def check_privilege_and_run_def on_news_return)
    then have "transport_send (privilege_error_reply h e) cx = (r, cx')"
      using assms(1) by (simp add: process_with_outbound_def post st_bind_def)
    from steps_run [OF steps_transport_send this] show False
      using assms(2) by (simp add: quiet_def pool_quiet_def same_db_def)
  qed
  with post show ?thesis by blast
qed

definition member_context :: "unit CommandContext" where
  "member_context = sample_context\<lparr> cx_session := apply_login session_default 7 [97] (or default_user NO_AGREEMENT) \<rparr>"

lemma member_privileges: "contains (or default_user NO_AGREEMENT) NEWS_POST_ARTICLE"
  unfolding default_user_def from_bits_truncate_def privileges_all_eq privilege_defs contains_def
  by (simp add: mask_eq_exp_minus_1)

lemma sample_post:
  "\<exists>tx p. handle_post_article login_header post_request (cx_pool member_context) = (Inr tx, p)
     \<and> pool_tables p \<noteq> pool_tables (cx_pool member_context)"
  by (simp add: handle_post_article_def run_news_tx_def pool_get_def on_conn_def zoom_def
      create_root_article_def transaction_def st_bind_def st_map_err_def st_lift_def st_return_def
      category_id_from_path_def parse_path_segments_def prepare_path_def trim_matches_def i32_try_from_def
      get_last_root_article_id_def insert_new_article_def fetch_last_insert_rowid_def news_conn_def empty_tables_def root_articles_def
      run_query_def run_update_def Let_def normalize_lookup_result_def to_db_params_def post_request_def
      member_context_def sample_context_def sample_tables_def handle_news_result_def encode_reply_def
      encode_params_eq i32_to_be_bytes_def to_be_bytes_u32_def reply_with_def reply_header_def u32_try_from_def
      wire_params_def field_entry_def to_be_bytes_u16_def)

theorem writes_need_post_privilege_witness:
  "pool_tables (cx_pool (snd (process_with_outbound plain_argon2 silent (Some 3)
       (PostNewsArticle post_request login_header) member_context))) \<noteq> pool_tables (cx_pool member_context)
   \<and> has_privilege (cx_session member_context) NEWS_POST_ARTICLE"
proof -
  let ?run = "process_with_outbound plain_argon2 silent (Some 3) (PostNewsArticle post_request login_header) member_context"
  have may: "require_privilege (cx_session member_context) NEWS_POST_ARTICLE = Inr ()"
    by (simp add: member_context_def apply_login_def has_privilege_def Let_def member_privileges)
  obtain tx p where post: "handle_post_article login_header post_request (cx_pool member_context) = (Inr tx, p)"
    "pool_tables p \<noteq> pool_tables (cx_pool member_context)"
    using sample_post by blast
  have "execute plain_argon2 (PostNewsArticle post_request login_header) member_context =
      (Inr tx, member_context\<lparr> cx_pool := p \<rparr>)"
    by (simp add: st_bind_gets process_post_article_def check_privilege_and_run_def may on_news_def on_pool_def
        zoom_def st_map_err_def post(1))
  then have "pool_tables (cx_pool (snd ?run)) \<noteq> pool_tables (cx_pool member_context)"
    using post(2) by (simp add: process_with_outbound_def st_bind_def transport_send_def st_map_err_def zoom_def
        split: prod.split)
  then show ?thesis
    using writes_need_post_privilege [OF prod.collapse [symmetric], of plain_argon2 silent "Some 3"
        "PostNewsArticle post_request login_header" member_context] by auto
qed

end
