(* ===== verification/Login_Flow.thy ===== *)
theory Login_Flow
  imports Access_Control
begin

text \<open>
  Logging in, from the bytes on the wire to the session, the registry and the reply.
\<close>


section \<open>Login\<close>

definition available :: "DbPool \<Rightarrow> bool" where
  "available p \<longleftrightarrow> healthy (pl_conn p) \<and> (\<forall>n. pl_refuse p n = None)"

definition pool_tick :: "DbPool \<Rightarrow> DbPool" where
  "pool_tick p = p\<lparr> pl_conn := (pl_conn p)\<lparr> dc_clock := Suc (dc_clock (pl_conn p)) \<rparr> \<rparr>"

lemma pool_tick_simps [simp]:
  "available (pool_tick p) = available p" "pool_tables (pool_tick p) = pool_tables p"
  by (simp_all add: available_def pool_tick_def)

lemma get_conn_available:
  "available (cx_pool cx) \<Longrightarrow> get_conn cx = (Inr (), cx\<lparr> cx_pool := pool_tick (cx_pool cx) \<rparr>)"
  by (simp add: get_conn_def on_pool_def zoom_def st_map_err_def pool_get_def pool_tick_def available_def Let_def)

lemma query_available:
  "available (cx_pool cx) \<Longrightarrow>
     query (run_query f) cx = (Inr (f (pool_tables (cx_pool cx))), cx\<lparr> cx_pool := pool_tick (cx_pool cx) \<rparr>)"
  by (simp add: query_def on_pool_def on_conn_def zoom_def st_map_err_def run_query_healthy available_def pool_tick_def)

text \<open>The account a login names, when its password is right.\<close>

definition login_account :: "'h Argon2 \<Rightarrow> Tables \<Rightarrow> LoginRequest \<Rightarrow> User option" where
  "login_account argon2 t req =
     (case find (\<lambda>u. us_username u = lr_username req) (tb_users t) of
        Some u \<Rightarrow> if verify_password argon2 (us_password u) (lr_password req) then Some u else None
      | None \<Rightarrow> None)"

definition logged_in :: "Session \<Rightarrow> User option \<Rightarrow> Session" where
  "logged_in s acct = (case acct of
       Some u \<Rightarrow> apply_login s (us_id u) (us_username u) (or default_user NO_AGREEMENT) | None \<Rightarrow> s)"

definition login_reply :: "FrameHeader \<Rightarrow> User option \<Rightarrow> Transaction" where
  "login_reply h acct = (let payload = (case acct of
         Some u \<Rightarrow> wire_params [(F_Version, to_be_bytes_u16 CLIENT_VERSION)] | None \<Rightarrow> []) in
     \<lparr> tx_header = \<lparr> fh_flags = 0, fh_is_reply = 1, fh_ty = fh_ty h, fh_id = fh_id h,
          fh_error = (if acct = None then 1 else 0), fh_total_size = of_nat (length payload),
          fh_data_size = of_nat (length payload) \<rparr>, tx_payload = payload \<rparr>)"

lemma handle_login_available:
  assumes "available (cx_pool cx)" and acct_def: "acct = login_account argon2 (pool_tables (cx_pool cx)) req"
  shows "handle_login argon2 req cx =
    (Inr (login_reply (lr_header req) acct),
     cx\<lparr> cx_pool := pool_tick (pool_tick (cx_pool cx)), cx_session := logged_in (cx_session cx) acct \<rparr>)"
proof -
  have "reply_with h e payload = Inr tx \<longleftrightarrow>
      tx = \<lparr> tx_header = \<lparr> fh_flags = 0, fh_is_reply = 1, fh_ty = fh_ty h, fh_id = fh_id h,
          fh_error = e, fh_total_size = of_nat (length payload), fh_data_size = of_nat (length payload) \<rparr>,
        tx_payload = payload \<rparr>" if "length payload \<le> 100" for h e payload tx
    using that by (auto simp: reply_with_iff)
  then have small: "reply_with h e payload =
      Inr \<lparr> tx_header = \<lparr> fh_flags = 0, fh_is_reply = 1, fh_ty = fh_ty h, fh_id = fh_id h,
          fh_error = e, fh_total_size = of_nat (length payload), fh_data_size = of_nat (length payload) \<rparr>,
        tx_payload = payload \<rparr>" if "length payload \<le> 100" for h e payload
    using that by blast
  have version: "encode_params [(F_Version, to_be_bytes_u16 151)] =
      Inr (wire_params [(F_Version, to_be_bytes_u16 151)])"
    "length (wire_params [(F_Version, to_be_bytes_u16 151)]) \<le> 100"
    by (simp_all add: encode_params_eq to_be_bytes_u16_def wire_params_def field_entry_def)
  show ?thesis
    using assms(1)
    by (simp add: handle_login_def st_bind_def get_conn_available get_user_by_name_def query_available
        first_row_find st_return_def st_modify_def tx_result_def st_lift_def version small reply_def
        acct_def login_account_def logged_in_def login_reply_def Let_def split: option.split)
qed

definition login_params :: "rstring \<Rightarrow> rstring \<Rightarrow> params" where
  "login_params u p = [(F_Login, u), (F_Password, p)]"

lemma login_params_wf:
  "length u \<le> u16_max \<Longrightarrow> length p \<le> u16_max \<Longrightarrow> params_wf ctx (login_params u p)"
  by (auto simp: login_params_def params_wf_def no_repeats_def canonical_field_named)

lemma login_parses:
  assumes "length u \<le> u16_max" "length p \<le> u16_max" "utf8_valid u" "utf8_valid p"
    and "fh_ty h = 107" "unat (fh_total_size h) = length (wire_params (login_params u p))"
  defines "tx \<equiv> \<lparr> tx_header = h, tx_payload = wire_params (login_params u p) \<rparr>"
  shows "parse_transaction (to_bytes tx) = Inr tx"
    and "from_transaction tx = Inr (Login \<lparr> lr_username = u, lr_password = p, lr_header = h \<rparr>)"
proof -
  note wf = login_params_wf [OF assms(1,2)]
  have "length (wire_params (login_params u p)) = 10 + length u + length p"
    by (simp add: wire_params_def login_params_def field_entry_def to_be_bytes_u16_def)
  then show "parse_transaction (to_bytes tx) = Inr tx"
    using assms(1,2,6) wf
    by (auto simp: tx_def parse_transaction_iff transaction_wf_def validate_payload_def validate_payload_parts_iff)
  have "decode_params_map (wire_params (login_params u p)) = Inr (params_to_map (login_params u p))"
    using decode_params_iff [of "wire_params (login_params u p)" "login_params u p"] wf
    by (simp add: decode_params_map_def)
  then show "from_transaction tx = Inr (Login \<lparr> lr_username = u, lr_password = p, lr_header = h \<rparr>)"
    using assms(3-5)
    by (simp add: tx_def from_transaction_def parse_command_def Let_def transaction_type_from_u16_def
        rejects_payload_def parse_login_params_def required_param_string_def first_param_string_def
        first_value_map_of) (simp add: login_params_def from_utf8_def)
qed

lemma member_flags:
  "contains (or default_user NO_AGREEMENT) SHOW_IN_LIST" "contains (or default_user NO_AGREEMENT) NO_AGREEMENT"
  unfolding default_user_def from_bits_truncate_def privileges_all_eq privilege_defs contains_def
  by (simp_all add: mask_eq_exp_minus_1)

lemma member_snapshot:
  "\<exists>sn. presence_snapshot (apply_login s uid name (or default_user NO_AGREEMENT)) cid = Some sn
     \<and> ps_connection_id sn = cid \<and> ps_display_name sn = name"
  using member_flags
  by (auto simp: presence_snapshot_def apply_login_def Let_def shows_in_user_list_def is_online_def
      requires_agreement_def has_privilege_def)

lemma notify_encodes:
  "length (ps_display_name sn) \<le> u16_max \<Longrightarrow> \<exists>tx. build_notify_change_user sn = Inr tx"
  by (auto simp: build_notify_change_user_def encode_params_eq notify_change_fields_def i32_to_be_bytes_def
      to_be_bytes_u32_def to_be_bytes_u16_def)

lemma publish_snapshot_ok:
  assumes "upsert (cx_presence cx) sn = (Inr up, pr')" "length (ps_display_name (up_snapshot up)) \<le> u16_max"
  shows "\<exists>w'. publish_snapshot m sn cx = (Inr (), cx\<lparr> cx_presence := pr', cx_world := w' \<rparr>)"
proof -
  obtain tx where "build_notify_change_user (up_snapshot up) = Inr tx"
    using notify_encodes [OF assms(2)] by blast
  then show ?thesis
    using assms(1)
    by (cases "up_peer_ids up = []")
      (auto simp: publish_snapshot_def st_bind_def presence_upsert_def st_map_err_def zoom_def st_return_def
        tx_result_def st_lift_def st_modify_def intro: exI [of _ "cx_world cx"])
qed

lemma login_reply_for: "reply_for h (login_reply h acct)"
  by (simp add: reply_for_def login_reply_def Let_def wire_params_def field_entry_def to_be_bytes_u16_def
      split: option.split)

text \<open>
  C28: logging in over the wire.  The bytes of a login transaction with the name and
  password of an account, handed to \<^verbatim>\<open>handle_request\<close> while the database answers and
  an identifier is free, produce a success reply with the request's id; the session
  is then that account's, online with the default privileges, the registry lists the
  connection under the account's name, and no table has changed.
\<close>

theorem login_over_the_wire:
  assumes "available (cx_pool cx)" "presence_wf (cx_presence cx)"
    and "1 \<le> free" "free \<le> 65535" "\<forall>c sn. presence_at (cx_presence cx) c = Some sn \<longrightarrow> ps_user_id sn \<noteq> free"
    and "length u \<le> u16_max" "length p \<le> u16_max" "utf8_valid u" "utf8_valid p"
    and "fh_ty h = 107" "unat (fh_total_size h) = length (wire_params (login_params u p))"
    and "login_account argon2 (pool_tables (cx_pool cx))
           \<lparr> lr_username = u, lr_password = p, lr_header = h \<rparr> = Some acct"
    and "handle_request argon2 sleep cid (to_bytes \<lparr> tx_header = h, tx_payload = wire_params (login_params u p) \<rparr>) cx
           = (r, cx')"
  shows "(\<exists>tx. r = Inr tx \<and> reply_for h tx \<and> fh_error (tx_header tx) = 0)
    \<and> cx_session cx' = apply_login (cx_session cx) (us_id acct) u (or default_user NO_AGREEMENT)
    \<and> (\<exists>sn. presence_at (cx_presence cx') cid = Some sn \<and> ps_display_name sn = u)
    \<and> pool_tables (cx_pool cx') = pool_tables (cx_pool cx)"
proof -
  let ?req = "\<lparr> lr_username = u, lr_password = p, lr_header = h \<rparr>"
  let ?s = "apply_login (cx_session cx) (us_id acct) u (or default_user NO_AGREEMENT)"
  let ?cx = "cx\<lparr> cx_pool := pool_tick (pool_tick (cx_pool cx)), cx_session := ?s,
      cx_transport := \<lparr> rb_reply = Some (login_reply h (Some acct)) \<rparr> \<rparr>"
  note parse = login_parses [OF assms(6-11)]
  have name: "us_username acct = u"
    using assms(12) by (auto simp: login_account_def find_Some_iff split: option.splits if_splits)
  obtain sn where sn: "presence_snapshot ?s cid = Some sn" "ps_connection_id sn = cid" "ps_display_name sn = u"
    using member_snapshot by blast
  obtain up pr' where up: "upsert (cx_presence cx) sn = (Inr up, pr')"
  proof (cases "upsert (cx_presence cx) sn")
    case (Pair q pr')
    then show ?thesis using that upsert_spec(2) [OF assms(2) Pair] assms(3-5) by (cases q) (auto, blast)
  qed
  note spec = upsert_spec(3) [OF assms(2) up refl]
  have login: "handle_login argon2 ?req (cx\<lparr> cx_transport := reply_buffer_new \<rparr>) =
      (Inr (login_reply h (Some acct)), ?cx\<lparr> cx_transport := reply_buffer_new \<rparr>)"
    using handle_login_available [of "cx\<lparr> cx_transport := reply_buffer_new \<rparr>" "Some acct" argon2 ?req] assms(1,12) name
    by (simp add: logged_in_def)
  obtain w' where pub: "publish_snapshot (noop_messaging sleep) sn ?cx =
      (Inr (), ?cx\<lparr> cx_presence := pr', cx_world := w' \<rparr>)"
    using publish_snapshot_ok [of ?cx sn up pr' "noop_messaging sleep"] up spec assms(6) sn(3) by auto
  obtain ntx where ntx: "build_notify_change_user sn = Inr ntx"
    using notify_encodes [of sn] sn(3) assms(6) by auto
  have "process_with_outbound argon2 (noop_messaging sleep) (Some cid) (Login ?req) (cx\<lparr> cx_transport := reply_buffer_new \<rparr>) =
      (Inr (), ?cx\<lparr> cx_presence := pr', cx_world := w' \<rparr>)"
    by (simp add: process_with_outbound_def process_login_with_presence_def st_bind_def login [unfolded reply_buffer_new_def] transport_send_empty
        reply_buffer_new_def st_gets_def sn(1) tx_result_def ntx st_lift_def pub)
  then have "handle_request argon2 sleep cid (to_bytes \<lparr> tx_header = h, tx_payload = wire_params (login_params u p) \<rparr>) cx =
      (Inr (login_reply h (Some acct)), ?cx\<lparr> cx_presence := pr', cx_world := w', cx_transport := \<lparr> rb_reply = None \<rparr> \<rparr>)"
    by (simp add: handle_request_def tx_result_def parse process_def st_bind_def st_modify_def st_lift_def
        zoom_def take_reply_def)
  then show ?thesis
    using assms(13) spec sn by (auto simp: login_reply_for) (simp add: login_reply_def Let_def)
qed

abbreviation wire_login :: bytes where
  "wire_login \<equiv> to_bytes \<lparr> tx_header = login_header\<lparr> fh_total_size := 12 \<rparr>,
     tx_payload = wire_params (login_params [97] [98]) \<rparr>"

theorem login_over_the_wire_witness:
  "\<exists>tx cx'. handle_request plain_argon2 (\<lambda>_ w. w) 3 wire_login sample_context = (Inr tx, cx')
     \<and> fh_error (tx_header tx) = 0 \<and> fh_id (tx_header tx) = 9 \<and> se_user_id (cx_session cx') = Some 7
     \<and> (\<exists>sn. presence_at (cx_presence cx') 3 = Some sn \<and> ps_display_name sn = [97])"
proof -
  obtain r cx' where run: "handle_request plain_argon2 (\<lambda>_ w. w) 3 wire_login sample_context = (r, cx')"
    by fastforce
  have free: "\<forall>c sn. presence_at (cx_presence sample_context) c = Some sn \<longrightarrow> ps_user_id sn \<noteq> 3"
    by (auto simp: sample_context_def presence_at_def sample_registry_eq split: if_splits)
  have "(\<exists>tx. r = Inr tx \<and> reply_for (login_header\<lparr> fh_total_size := 12 \<rparr>) tx \<and> fh_error (tx_header tx) = 0)
    \<and> cx_session cx' = apply_login (cx_session sample_context) 7 [97] (or default_user NO_AGREEMENT)
    \<and> (\<exists>sn. presence_at (cx_presence cx') 3 = Some sn \<and> ps_display_name sn = [97])
    \<and> pool_tables (cx_pool cx') = pool_tables (cx_pool sample_context)"
    by (rule login_over_the_wire [where acct = "\<lparr> us_id = 7, us_username = [97], us_password = [98] \<rparr>",
          simplified, OF _ _ _ _ free _ _ _ _ _ _ _ run])
      (simp_all add: sample_context_def available_def healthy_def news_conn_def
        presence_reachable_wf [OF sample_registry_reachable] utf8_valid.simps login_header_def wire_params_def
        login_params_def field_entry_def to_be_bytes_u16_def login_account_def sample_tables_def
        verify_password_def plain_argon2_def)
  then show ?thesis
    using run by (auto simp: reply_for_def login_header_def apply_login_def Let_def)
qed

end
