(* ===== verification/Push_Independence.thy ===== *)
theory Push_Independence
  imports Handlers
begin

text \<open>
  What a command answers and stores does not depend on the messaging adapter.  Two runs of a
  command, with different adapters and in contexts that differ at most in the world of pushed
  messages, end with the same result and in contexts that differ at most in that world.
\<close>

section \<open>Runs that differ in the world only\<close>

definition push_blind ::
  "('w CommandContext, 'e, 'a) st \<Rightarrow> ('w CommandContext, 'e, 'a) st \<Rightarrow> bool" where
  "push_blind c d \<longleftrightarrow>
     (\<forall>cx w. \<exists>w'. d (cx\<lparr> cx_world := w \<rparr>) = (fst (c cx), (snd (c cx))\<lparr> cx_world := w' \<rparr>))"

named_theorems blind_intros

lemma push_blindD:
  assumes "push_blind c d" "c cx = (r, cx')"
  obtains w' where "d (cx\<lparr> cx_world := w \<rparr>) = (r, cx'\<lparr> cx_world := w' \<rparr>)"
  using assms unfolding push_blind_def by (metis fst_conv snd_conv)

lemma push_blindI:
  "(\<And>cx w. d (cx\<lparr> cx_world := w \<rparr>) = (fst (c cx), (snd (c cx))\<lparr> cx_world := w \<rparr>)) \<Longrightarrow> push_blind c d"
  unfolding push_blind_def by blast

lemma blind_basic [blind_intros]:
  "push_blind (st_return a) (st_return a)" "push_blind (st_fail e) (st_fail e)" "push_blind (st_lift r) (st_lift r)"
  by (simp_all add: push_blindI st_return_def st_fail_def st_lift_def)

lemma blind_bind [blind_intros]:
  assumes "push_blind c d" "\<And>a. push_blind (k a) (l a)"
  shows "push_blind (st_bind c k) (st_bind d l)"
  unfolding push_blind_def
proof (intro allI)
  fix cx w
  obtain r cx1 where c: "c cx = (r, cx1)" by fastforce
  obtain w1 where d: "d (cx\<lparr> cx_world := w \<rparr>) = (r, cx1\<lparr> cx_world := w1 \<rparr>)"
    by (rule push_blindD [OF assms(1) c])
  show "\<exists>w'. st_bind d l (cx\<lparr> cx_world := w \<rparr>) = (fst (st_bind c k cx), (snd (st_bind c k cx))\<lparr> cx_world := w' \<rparr>)"
  proof (cases r)
    case (Inl e)
    with c d show ?thesis by (auto simp: st_bind_def)
  next
    case (Inr a)
    with c d assms(2) [of a] show ?thesis by (simp add: st_bind_def push_blind_def)
  qed
qed

lemma blind_map_err [blind_intros]:
  assumes "push_blind c d" shows "push_blind (st_map_err f c) (st_map_err f d)"
  unfolding push_blind_def
proof (intro allI)
  fix cx w
  obtain r cx1 where c: "c cx = (r, cx1)" by fastforce
  obtain w1 where "d (cx\<lparr> cx_world := w \<rparr>) = (r, cx1\<lparr> cx_world := w1 \<rparr>)"
    by (rule push_blindD [OF assms c])
  with c show "\<exists>w'. st_map_err f d (cx\<lparr> cx_world := w \<rparr>) =
      (fst (st_map_err f c cx), (snd (st_map_err f c cx))\<lparr> cx_world := w' \<rparr>)"
    by (auto simp: st_map_err_def)
qed

lemma blind_gets [blind_intros]:
  "(\<And>cx w. f (cx\<lparr> cx_world := w \<rparr>) = f cx) \<Longrightarrow> push_blind (st_gets f) (st_gets f)"
  by (rule push_blindI) (simp add: st_gets_def)

lemma blind_session [blind_intros]:
  "push_blind (st_modify (\<lambda>cx. cx\<lparr> cx_session := f (cx_session cx) \<rparr>)) (st_modify (\<lambda>cx. cx\<lparr> cx_session := f (cx_session cx) \<rparr>))"
  by (rule push_blindI) (simp add: st_modify_def)

text \<open>The world may change in any way.\<close>

lemma blind_world [blind_intros]:
  "push_blind (st_modify (\<lambda>cx. cx\<lparr> cx_world := f (cx_world cx) \<rparr>)) (st_modify (\<lambda>cx. cx\<lparr> cx_world := g (cx_world cx) \<rparr>))"
  unfolding push_blind_def
proof (intro allI)
  fix cx :: "'a CommandContext" and w
  show "\<exists>w'. st_modify (\<lambda>cx. cx\<lparr> cx_world := g (cx_world cx) \<rparr>) (cx\<lparr> cx_world := w \<rparr>) =
      (fst (st_modify (\<lambda>cx. cx\<lparr> cx_world := f (cx_world cx) \<rparr>) cx :: ('e, unit) result \<times> _),
       (snd (st_modify (\<lambda>cx. cx\<lparr> cx_world := f (cx_world cx) \<rparr>) cx))\<lparr> cx_world := w' \<rparr>)"
    by (intro exI [of _ "g w"]) (simp add: st_modify_def)
qed

lemma blind_parts [blind_intros]:
  "push_blind (on_pool p) (on_pool p)"
  "push_blind (zoom cx_transport (\<lambda>b cx. cx\<lparr> cx_transport := b \<rparr>) q) (zoom cx_transport (\<lambda>b cx. cx\<lparr> cx_transport := b \<rparr>) q)"
  "push_blind (zoom cx_presence (\<lambda>b cx. cx\<lparr> cx_presence := b \<rparr>) u) (zoom cx_presence (\<lambda>b cx. cx\<lparr> cx_presence := b \<rparr>) u)"
  by (rule push_blindI, simp add: on_pool_def zoom_def split: prod.split)+

lemma blind_privilege [blind_intros]:
  "push_blind c d \<Longrightarrow> push_blind (check_privilege_and_run s h p c) (check_privilege_and_run s h p d)"
  unfolding check_privilege_and_run_def by (cases "require_privilege s p") (simp_all only: sum.case blind_basic)

section \<open>Every command\<close>

lemma blind_helpers [blind_intros]:
  "push_blind get_conn get_conn" "push_blind (query q) (query q)" "push_blind (tx_result t) (tx_result t)"
  "push_blind (reply r) (reply r)" "push_blind (transport_send tx) (transport_send tx)"
  "push_blind (presence_upsert sn) (presence_upsert sn)" "push_blind (on_news n) (on_news n)"
  unfolding get_conn_def query_def tx_result_def reply_def transport_send_def presence_upsert_def on_news_def
  by (intro blind_intros)+

lemma blind_option [blind_intros]:
  "push_blind c d \<Longrightarrow> (\<And>a. push_blind (f a) (g a)) \<Longrightarrow> push_blind (case_option c f x) (case_option d g x)"
  by (cases x) simp_all

lemma blind_if [blind_intros]:
  "push_blind c d \<Longrightarrow> push_blind c' d' \<Longrightarrow> push_blind (if b then c else c') (if b then d else d')"
  by simp

lemma blind_pair [blind_intros]: "(\<And>a b. push_blind (f a b) (g a b)) \<Longrightarrow> push_blind (case_prod f x) (case_prod g x)"
  by (cases x) simp

lemma blind_sum [blind_intros]:
  "(\<And>a. push_blind (f a) (f' a)) \<Longrightarrow> (\<And>b. push_blind (g b) (g' b)) \<Longrightarrow> push_blind (case_sum f g x) (case_sum f' g' x)"
  by (cases x) simp_all

lemma blind_publish [blind_intros]: "push_blind (publish_snapshot m sn) (publish_snapshot m' sn)"
  unfolding publish_snapshot_def by (intro blind_intros)

lemma blind_login [blind_intros]: "push_blind (handle_login argon2 req) (handle_login argon2 req)"
  unfolding handle_login_def by (intro blind_intros)

lemma blind_execute: "push_blind (execute argon2 command) (execute argon2 command)"
  by (cases command) (auto simp: process_login_def process_get_file_name_list_def intro!: blind_intros)

lemma blind_presence: "push_blind (process_presence_command argon2 m cid command) (process_presence_command argon2 m' cid command)"
  by (cases command)
    (auto simp: process_login_with_presence_def process_get_user_name_list_def process_get_client_info_text_def
      process_set_client_user_info_def intro!: blind_intros)

lemma process_push_blind:
  "push_blind (process_with_outbound argon2 m cid command) (process_with_outbound argon2 m' cid command)"
  unfolding process_with_outbound_def by (intro blind_intros blind_presence blind_execute)

end
