(* ===== verification/Router.thy ===== *)
theory Router
  imports Compat Login_Flow Push_Independence
begin

text \<open>
  From a frame to its reply on the wireframe server: \<^verbatim>\<open>src/src/wireframe/router.rs\<close>,
  \<^verbatim>\<open>src/src/wireframe/compat_layer.rs\<close>, \<^verbatim>\<open>src/src/wireframe/auth_strategy.rs\<close>,
  \<^verbatim>\<open>src/src/wireframe/routes/mod.rs\<close> and \<^verbatim>\<open>src/src/wireframe/routes/reply_builder.rs\<close>.
  The peer address only goes to the log and is left out.  The strategy and the reply
  augmenter are trait objects in the source and functions here.
\<close>

section \<open>Error replies\<close>

definition ERR_INTERNAL :: u32 where [simp]: "ERR_INTERNAL = 3"

record ReplyBuilder =
  rpb_header :: "FrameHeader option"

definition builder_from_frame :: "bytes \<Rightarrow> ReplyBuilder" where
  "builder_from_frame frame =
     \<lparr> rpb_header = (if HEADER_LEN \<le> length frame then Some (from_bytes (slice 0 HEADER_LEN frame)) else None) \<rparr>"

definition builder_from_header :: "FrameHeader \<Rightarrow> ReplyBuilder" where
  "builder_from_header header = \<lparr> rpb_header = Some header \<rparr>"

definition default_request_header :: FrameHeader where
  "default_request_header =
     \<lparr> fh_flags = 0, fh_is_reply = 0, fh_ty = 0, fh_id = 0, fh_error = 0, fh_total_size = 0, fh_data_size = 0 \<rparr>"

definition request_header_or_default :: "ReplyBuilder \<Rightarrow> FrameHeader" where
  "request_header_or_default b =
     (case rpb_header b of Some header \<Rightarrow> header | None \<Rightarrow> default_request_header)"

definition error_transaction :: "ReplyBuilder \<Rightarrow> u32 \<Rightarrow> Transaction" where
  "error_transaction b error_code = bare_reply (request_header_or_default b) error_code"

definition error_bytes :: "ReplyBuilder \<Rightarrow> u32 \<Rightarrow> bytes" where
  "error_bytes b error_code = to_bytes (error_transaction b error_code)"

text \<open>The four kinds of failure differ in what they log, not in what they send.\<close>

definition parse_error :: "ReplyBuilder \<Rightarrow> u32 \<Rightarrow> bytes" where
  "parse_error b error_code = error_bytes b error_code"

definition command_parse_error :: "ReplyBuilder \<Rightarrow> u32 \<Rightarrow> bytes" where
  "command_parse_error b error_code = error_bytes b error_code"

definition process_error :: "ReplyBuilder \<Rightarrow> u32 \<Rightarrow> bytes" where
  "process_error b error_code = error_bytes b error_code"

definition missing_reply :: "ReplyBuilder \<Rightarrow> u32 \<Rightarrow> bytes" where
  "missing_reply b error_code = error_bytes b error_code"

definition handle_parse_error :: "bytes \<Rightarrow> bytes" where
  "handle_parse_error frame = parse_error (builder_from_frame frame) ERR_INTERNAL"

definition handle_command_parse_error :: "FrameHeader \<Rightarrow> bytes" where
  "handle_command_parse_error header = command_parse_error (builder_from_header header) ERR_INTERNAL"

definition handle_process_error :: "FrameHeader \<Rightarrow> bytes" where
  "handle_process_error header = process_error (builder_from_header header) ERR_INTERNAL"

section \<open>Authentication strategy and compatibility layer\<close>

definition auth_strategy_label :: "ClientKind \<Rightarrow> string" where
  "auth_strategy_label client_kind =
     (case client_kind of
        Hotline85 \<Rightarrow> ''hotline-default''
      | Hotline19 \<Rightarrow> ''hotline-default''
      | SynHx \<Rightarrow> ''synhx-default''
      | UnknownClient \<Rightarrow> ''unknown-default'')"

definition default_authenticate ::
  "'h Argon2 \<Rightarrow> 'w OutboundMessaging \<Rightarrow> OutboundConnectionId option \<Rightarrow> Command \<Rightarrow> ('w, unit) cmd" where
  "default_authenticate argon2 m cid command = process_with_outbound argon2 m cid command"

definition auth_strategy_for_client ::
  "ClientKind \<Rightarrow> 'h Argon2 \<Rightarrow> 'w OutboundMessaging \<Rightarrow> OutboundConnectionId option \<Rightarrow> Command \<Rightarrow> ('w, unit) cmd" where
  "auth_strategy_for_client client_kind = default_authenticate"

record 'w CompatibilityLayer =
  cpl_auth_strategy :: "Command \<Rightarrow> ('w, unit) cmd"
  cpl_login_reply_augmenter :: "Transaction \<Rightarrow> Transaction"

definition process_command ::
  "'h Argon2 \<Rightarrow> 'w OutboundMessaging \<Rightarrow> OutboundConnectionId option \<Rightarrow>
   'w CompatibilityLayer \<Rightarrow> TransactionType \<Rightarrow> Command \<Rightarrow> ('w, unit) cmd" where
  "process_command argon2 m cid layer tx_type command =
     (if tx_type = T_Login then cpl_auth_strategy layer command
      else process_with_outbound argon2 m cid command)"

definition on_reply :: "'w CompatibilityLayer \<Rightarrow> Transaction \<Rightarrow> Transaction" where
  "on_reply layer rep = cpl_login_reply_augmenter layer rep"

definition decode_payload_for_request ::
  "TransactionType \<Rightarrow> Transaction \<Rightarrow> (XorCompatibility, bytes, Transaction) st" where
  "decode_payload_for_request tx_type tx =
     (if bypass_payload_decode tx_type then st_return tx
      else
        st_bind (st_map_err (\<lambda>_. command_parse_error (builder_from_header (tx_header tx)) ERR_INTERNAL)
            (decode_payload (tx_payload tx))) (\<lambda>decoded_payload.
          st_return (tx\<lparr> tx_payload := decoded_payload \<rparr>)))"

text \<open>An unreadable version is logged, and nothing is recorded.\<close>

definition record_login_version_for_request ::
  "TransactionType \<Rightarrow> bytes \<Rightarrow> ClientCompatibility \<Rightarrow> ClientCompatibility" where
  "record_login_version_for_request tx_type payload client =
     (if tx_type = T_Login then snd (record_login_payload payload client) else client)"

section \<open>The router\<close>

record WireframeRouter =
  rt_xor :: XorCompatibility
  rt_client :: ClientCompatibility

definition on_request :: "TransactionType \<Rightarrow> Transaction \<Rightarrow> (WireframeRouter, bytes, Transaction) st" where
  "on_request tx_type request =
     st_bind (zoom rt_xor (\<lambda>x r. r\<lparr> rt_xor := x \<rparr>) (decode_payload_for_request tx_type request)) (\<lambda>tx.
     st_bind (st_modify (\<lambda>r. r\<lparr> rt_client := record_login_version_for_request tx_type (tx_payload tx) (rt_client r) \<rparr>)) (\<lambda>_.
       st_return tx))"

definition finalize_reply ::
  "FrameHeader \<Rightarrow> 'w CompatibilityLayer \<Rightarrow> ReplyBuffer \<Rightarrow> bytes \<times> ReplyBuffer" where
  "finalize_reply header layer transport =
     (case take_reply transport of (taken, transport') \<Rightarrow>
        (case taken of
           None \<Rightarrow> missing_reply (builder_from_header header) ERR_INTERNAL
         | Some rep \<Rightarrow> to_bytes (on_reply layer rep), transport'))"

definition prepare_command ::
  "bytes \<Rightarrow> (WireframeRouter, bytes, FrameHeader \<times> TransactionType \<times> Command) st" where
  "prepare_command frame =
     st_bind (st_lift (map_err (\<lambda>_. handle_parse_error frame) (parse_transaction frame))) (\<lambda>request.
       let header = tx_header request; tx_type = transaction_type_from_u16 (fh_ty header) in
       st_bind (on_request tx_type request) (\<lambda>request_transaction.
       st_bind (st_lift (map_err (\<lambda>_. handle_command_parse_error header) (from_transaction request_transaction)))
         (\<lambda>command. st_return (header, tx_type, command))))"

text \<open>
  The state is the router and the context of the connection.  The left result is the
  panic of \<^verbatim>\<open>reply_header\<close>, which ends the task.
\<close>

definition route ::
  "'h Argon2 \<Rightarrow> 'w OutboundMessaging \<Rightarrow> OutboundConnectionId \<Rightarrow> bytes \<Rightarrow>
   (WireframeRouter \<times> 'w CommandContext, unit, bytes) st" where
  "route argon2 m presence_connection_id frame = (\<lambda>(router, cx).
     case prepare_command frame router of
       (Inl rep, router') \<Rightarrow> (Inr rep, (router', cx))
     | (Inr (header, tx_type, cmd), router') \<Rightarrow>
         (let client_kind = kind (rt_client router');
              cid = Some presence_connection_id;
              layer = \<lparr> cpl_auth_strategy = auth_strategy_for_client client_kind argon2 m cid,
                        cpl_login_reply_augmenter = augment (rt_client router') \<rparr>
          in
          case process_command argon2 m cid layer tx_type cmd (cx\<lparr> cx_transport := reply_buffer_new \<rparr>) of
            (Inr _, cx') \<Rightarrow>
              (case finalize_reply header layer (cx_transport cx') of (rep, transport) \<Rightarrow>
                 (Inr rep, (router', cx'\<lparr> cx_transport := transport \<rparr>)))
          | (Inl (CmdError _), cx') \<Rightarrow> (Inr (handle_process_error header), (router', cx'))
          | (Inl CmdPanic, cx') \<Rightarrow> (Inl (), (router', cx'))))"

text \<open>
  The middleware around it: the reply replaces the frame of whatever response the
  wrapped service gives.
\<close>

record ServiceResponse =
  sr_frame :: bytes

definition transaction_handler_call ::
  "'h Argon2 \<Rightarrow> 'w OutboundMessaging \<Rightarrow> OutboundConnectionId \<Rightarrow> (bytes \<Rightarrow> ServiceResponse) \<Rightarrow> bytes \<Rightarrow>
   (WireframeRouter \<times> 'w CommandContext, unit, ServiceResponse) st" where
  "transaction_handler_call argon2 m presence_connection_id inner req =
     st_bind (route argon2 m presence_connection_id req) (\<lambda>reply_bytes.
       st_return ((inner req)\<lparr> sr_frame := reply_bytes \<rparr>))"

section \<open>The reply to a login is short\<close>

text \<open>
  Augmenting replaces the payload before the header, so a reply keeps its true length
  only while the new length fits.  A login reply has at most one parameter.
\<close>

definition short_reply :: "FrameHeader \<Rightarrow> Transaction \<Rightarrow> bool" where
  "short_reply h tx \<longleftrightarrow> reply_for h tx \<and> length (tx_payload tx) \<le> 8"

lemma answers_bind_with:
  fixes m :: "('w, 'a) cmd"
  assumes "answers R m" "\<And>a. R a \<Longrightarrow> answers P (k a)" shows "answers P (st_bind m k)"
  unfolding answers_def wp_bind
proof
  fix cx :: "'w CommandContext"
  have "wp (k a) (\<lambda>tx cx'. P tx \<and> cx_transport cx' = cx_transport cx) (\<lambda>e _. outside_fault e) s'"
    if "R a" "cx_transport s' = cx_transport cx" for a s'
    using assms(2) [OF that(1)] by (simp add: answers_def flip: that(2))
  then show "wp m (\<lambda>a. wp (k a) (\<lambda>tx cx'. P tx \<and> cx_transport cx' = cx_transport cx) (\<lambda>e _. outside_fault e))
      (\<lambda>e _. outside_fault e) cx"
    using assms(1) by (auto simp: answers_def intro: wp_mono)
qed

lemma short_reply_with: "length payload \<le> 8 \<Longrightarrow> reply_with h e payload = Inr tx \<Longrightarrow> short_reply h tx"
  using reply_for_reply_with [of h e payload tx] by (auto simp: short_reply_def reply_with_iff)

lemma short_login: "answers (short_reply (lr_header req)) (handle_login argon2 req)"
proof -
  have "answers (\<lambda>(e, payload). length payload \<le> 8)
      (case user of
          Some u \<Rightarrow>
            if verify_password argon2 (us_password u) (lr_password req) then
              st_bind (st_modify (\<lambda>cx. cx\<lparr> cx_session :=
                apply_login (cx_session cx) (us_id u) (us_username u) (or default_user NO_AGREEMENT) \<rparr>)) (\<lambda>_.
              st_bind (tx_result (encode_params [(F_Version, to_be_bytes_u16 CLIENT_VERSION)])) (\<lambda>params.
                st_return (0, params)))
            else st_return (1, [])
        | None \<Rightarrow> st_return (1, []))" (is "answers ?R (?m user)") for user
    by (auto simp: answers_def wp_simps tx_result_def encode_params_eq wire_params_def field_entry_def
        split: option.split)
  then show ?thesis
    unfolding handle_login_def
    by (intro answers_bind answers_bind_with [where R = ?R] leaves_db)
      (auto intro!: answers_replyI short_reply_with)
qed

lemma short_process_login:
  "answered (short_reply (lr_header req)) (process_with_outbound argon2 m cid (Login req))"
  unfolding process_with_outbound_def is_presence_command.simps process_presence_command.simps
    process_login_with_presence_def if_True
  by (rule answered_after [OF short_login]) (intro answer_intros)+

lemma length_wire_params: "length ps \<le> length (wire_params ps)"
  by (induction ps) (auto simp: wire_params_def field_entry_def)

lemma augment_short:
  assumes "short_reply h r" shows "reply_for h (augment c r)"
proof (cases "decode_params (tx_payload r)")
  case (Inl e)
  then have "augment c r = r"
    by (auto simp: augment_def augment_login_reply_def st_bind_def st_gets_def st_lift_def st_return_def)
  then show ?thesis using assms by (simp add: short_reply_def)
next
  case (Inr ps)
  have "length ps \<le> 8"
    using Inr assms length_wire_params [of ps] by (auto simp: decode_params_iff short_reply_def)
  moreover have "length (wire_params (ps @ login_extras ps)) \<le> 8 + 17"
    using Inr assms login_extras_parts(2) [of ps]
    by (auto simp: decode_params_iff short_reply_def wire_params_def)
  ultimately show ?thesis
    using assms augment_login_reply_params [OF Inr, of c]
    by (auto simp: short_reply_def reply_for_def Let_def unat_of_nat take_bit_nat_eq_self)
qed

lemma augment_other:
  "transaction_type_from_u16 (fh_ty (tx_header r)) \<noteq> T_Login \<Longrightarrow> augment c r = r"
  by (simp add: augment_def augment_login_reply_def st_bind_def st_gets_def st_return_def is_successful_login_reply_def)

lemma parse_login_command:
  assumes "parse_command tx = Inr command" "transaction_type_from_u16 (fh_ty (tx_header tx)) = T_Login"
  shows "(\<exists>req. command = Login req) \<or> (\<exists>h. command = InvalidPayload h)"
  using assms by (auto simp: parse_command_def Let_def split: if_splits)

lemma short_invalid: "answered (short_reply h) (process_with_outbound argon2 m cid (InvalidPayload h))"
  unfolding process_with_outbound_def is_presence_command.simps execute.simps if_False process_invalid_payload_def
  by (intro answered_send answers_return) (simp add: short_reply_def reply_for_bare, simp add: bare_reply_eq)

lemma buffered_reply:
  assumes "answered P (process_with_outbound argon2 m cid command)" "rb_reply (cx_transport cx) = None"
    and "process_with_outbound argon2 m cid command cx = (Inr u, cx')"
  obtains r where "rb_reply (cx_transport cx') = Some r" "P r"
proof -
  have "wp (process_with_outbound argon2 m cid command)
      (\<lambda>_ cx'. \<exists>r. rb_reply (cx_transport cx') = Some r \<and> P r) (\<lambda>e _. outside_fault e) cx"
    using assms(1,2) by (simp add: answered_def)
  from wp_run [OF this assms(3)] that show ?thesis by auto
qed

text \<open>What the compatibility layer makes of the buffered reply still answers the request.\<close>

lemma on_reply_answers:
  assumes "parse_command tx = Inr command" "rb_reply (cx_transport cx) = None"
    and "process_with_outbound argon2 m cid command cx = (Inr u, cx')"
  shows "\<exists>r. rb_reply (cx_transport cx') = Some r \<and> reply_for (tx_header tx) (augment c r)"
proof (cases "transaction_type_from_u16 (fh_ty (tx_header tx)) = T_Login")
  case True
  have h: "command_header command = tx_header tx"
    by (rule parse_command_header [OF assms(1)])
  have "answered (short_reply (tx_header tx)) (process_with_outbound argon2 m cid command)"
    using parse_login_command [OF assms(1) True] unfolding h [symmetric]
    by (auto intro: short_process_login short_invalid)
  from buffered_reply [OF this assms(2,3)] show ?thesis
    by (auto intro: augment_short)
next
  case False
  obtain r where r: "rb_reply (cx_transport cx') = Some r" "reply_for (tx_header tx) r"
    using buffered_reply [OF process_answered assms(2,3)] parse_command_header [OF assms(1)] by metis
  with False have "augment c r = r"
    by (intro augment_other) (simp add: reply_for_def)
  with r show ?thesis by simp
qed

section \<open>Every frame is answered\<close>

abbreviation request_header :: "bytes \<Rightarrow> FrameHeader" where
  "request_header frame \<equiv> request_header_or_default (builder_from_frame frame)"

lemma request_header_parsed: "parse_transaction frame = Inr tx \<Longrightarrow> request_header frame = tx_header tx"
  by (auto simp: request_header_or_default_def builder_from_frame_def parse_transaction_iff to_bytes_def
      slice_header)

lemma request_header_from [simp]: "request_header_or_default (builder_from_header h) = h"
  by (simp add: request_header_or_default_def builder_from_header_def)

lemmas route_error_defs = handle_parse_error_def handle_command_parse_error_def handle_process_error_def
  parse_error_def command_parse_error_def process_error_def missing_reply_def error_bytes_def error_transaction_def

lemma on_request_header: "on_request tx_type tx r = (Inr tx', r') \<Longrightarrow> tx_header tx' = tx_header tx"
  by (auto simp: on_request_def decode_payload_for_request_def st_bind_def st_map_err_def st_return_def zoom_def
      st_modify_def split: prod.splits sum.splits if_splits)

lemma prepare_command_error:
  "prepare_command frame r = (Inl rep, r') \<Longrightarrow> rep = to_bytes (bare_reply (request_header frame) 3)"
  by (auto simp: prepare_command_def on_request_def decode_payload_for_request_def st_bind_def st_map_err_def
      st_return_def st_lift_def zoom_def st_modify_def Let_def route_error_defs request_header_parsed
      split: prod.splits sum.splits if_splits elim!: map_err.elims)

lemma prepare_command_ok:
  assumes "prepare_command frame r = (Inr (h, ty, command), r')"
  obtains tx tx' where "parse_transaction frame = Inr tx" "h = tx_header tx" "ty = transaction_type_from_u16 (fh_ty h)"
    "on_request ty tx r = (Inr tx', r')" "parse_command tx' = Inr command" "tx_header tx' = h"
  using assms on_request_header
  by (auto simp: prepare_command_def st_bind_def st_return_def st_lift_def Let_def from_transaction_def
      split: prod.splits sum.splits if_splits elim!: map_err.elims)

lemma process_command_any:
  "process_command argon2 m cid \<lparr> cpl_auth_strategy = auth_strategy_for_client k argon2 m cid,
     cpl_login_reply_augmenter = f \<rparr> ty command = process_with_outbound argon2 m cid command"
  by (simp add: process_command_def auth_strategy_for_client_def default_authenticate_def)

lemma route_rejected:
  "prepare_command frame router = (Inl rep, router') \<Longrightarrow> route argon2 m cid frame (router, cx) = (Inr rep, (router', cx))"
  by (simp add: route_def)

lemma route_prepared:
  assumes "prepare_command frame router = (Inr (h, ty, command), router')"
    and "process_with_outbound argon2 m (Some cid) command (cx\<lparr> cx_transport := reply_buffer_new \<rparr>) = (z, cx')"
  shows "route argon2 m cid frame (router, cx) =
    (case z of
       Inr _ \<Rightarrow>
         (Inr (to_bytes (case rb_reply (cx_transport cx') of
            None \<Rightarrow> bare_reply h 3 | Some rep \<Rightarrow> augment (rt_client router') rep)),
          (router', cx'\<lparr> cx_transport := snd (take_reply (cx_transport cx')) \<rparr>))
     | Inl (CmdError _) \<Rightarrow> (Inr (to_bytes (bare_reply h 3)), (router', cx'))
     | Inl CmdPanic \<Rightarrow> (Inl (), (router', cx')))"
  using assms
  by (auto simp: route_def Let_def process_command_any finalize_reply_def take_reply_def on_reply_def route_error_defs
      split: sum.split cmd_fault.split option.split)

text \<open>
  C29: every frame is answered.  Whatever bytes arrive, whoever the client is and
  whatever state the connection is in, the router returns exactly one serialised
  reply, which carries the type and the transaction id of the frame's header (zeros
  when there is no whole header), the reply mark, and its true length.  The only
  exception is a frame that parses to a command which, run in this very context,
  ends in the length panic.  A frame whose command fails with an error is answered
  with the internal error code; a frame that does not parse is answered so too and
  changes nothing at all.
\<close>

theorem every_frame_answered:
  assumes "route argon2 m cid frame (router, cx) = (r, s')"
  shows "case r of
      Inr bytes \<Rightarrow>
        (\<exists>tx. bytes = to_bytes tx \<and> reply_for (request_header frame) tx
          \<and> (\<forall>e. parse_transaction frame = Inl e \<longrightarrow> fh_error (tx_header tx) = 3 \<and> s' = (router, cx))
          \<and> (\<forall>h ty command router' e cx'. prepare_command frame router = (Inr (h, ty, command), router')
               \<and> process_with_outbound argon2 m (Some cid) command (cx\<lparr> cx_transport := reply_buffer_new \<rparr>)
                   = (Inl (CmdError e), cx') \<longrightarrow> fh_error (tx_header tx) = 3 \<and> s' = (router', cx')))
    | Inl _ \<Rightarrow>
        (\<exists>tx h ty command router' cx'. parse_transaction frame = Inr tx
          \<and> prepare_command frame router = (Inr (h, ty, command), router')
          \<and> process_with_outbound argon2 m (Some cid) command (cx\<lparr> cx_transport := reply_buffer_new \<rparr>)
              = (Inl CmdPanic, cx')
          \<and> s' = (router', cx'))"
proof (cases "prepare_command frame router")
  case (Pair p router')
  show ?thesis
  proof (cases p)
    case (Inl rep)
    note rejected = Pair [unfolded Inl]
    have "r = Inr rep" "s' = (router', cx)"
      using assms route_rejected [OF rejected, of argon2 m cid cx] by simp_all
    moreover have "router' = router" if "parse_transaction frame = Inl e" for e
      using rejected that by (auto simp: prepare_command_def st_bind_def st_lift_def)
    ultimately show ?thesis
      using prepare_command_error [OF rejected] rejected
      by (auto intro!: exI [of _ "bare_reply (request_header frame) 3"] reply_for_bare simp: bare_reply_eq)
  next
    case (Inr q)
    then obtain h ty command where ok: "prepare_command frame router = (Inr (h, ty, command), router')"
      using Pair by (cases q) auto
    obtain tx tx' where tx: "parse_transaction frame = Inr tx" "h = tx_header tx" "parse_command tx' = Inr command"
      "tx_header tx' = h"
      using prepare_command_ok [OF ok] by metis
    obtain z cx' where
      run: "process_with_outbound argon2 m (Some cid) command (cx\<lparr> cx_transport := reply_buffer_new \<rparr>) = (z, cx')"
      by fastforce
    show ?thesis
    proof (cases z)
      case (Inl e)
      then show ?thesis
        using assms route_prepared [OF ok run] run ok tx(1,2) request_header_parsed [OF tx(1)]
        by (cases e) (auto intro!: exI [of _ "bare_reply h 3"] reply_for_bare simp: bare_reply_eq)
    next
      case (Inr u)
      then show ?thesis
        using assms route_prepared [OF ok run] on_reply_answers [OF tx(3) _ run [unfolded Inr], of "rt_client router'"]
          tx request_header_parsed [OF tx(1)] ok run
        by (auto simp: reply_buffer_new_def)
    qed
  qed
qed

lemma on_request_plain:
  assumes "parse_transaction frame = Inr tx" "ty = transaction_type_from_u16 (fh_ty (tx_header tx))" "ty \<noteq> T_Login"
    and "\<not> is_enabled (rt_xor router)"
    and "\<And>ps. decode_params (tx_payload tx) = Inr ps \<Longrightarrow> \<forall>d\<in>set (texts ps). utf8_valid d"
  shows "on_request ty tx router = (Inr tx, router)"
proof -
  have "decode_payload (tx_payload tx) (rt_xor router) = (Inr (tx_payload tx), rt_xor router)"
    if plain: "\<not> bypass_payload_decode ty"
  proof -
    obtain ps where "decode_params (tx_payload tx) = Inr ps"
      using assms(1,2) plain
      by (auto simp: parse_transaction_iff transaction_wf_def validate_payload_def validate_payload_parts_iff
          decode_params_iff intro: params_wf_decode_only)
    with assms(4,5) show ?thesis
      by (auto simp: decode_payload_params detect_xor_iff)
  qed
  then show ?thesis
    using assms(3)
    by (auto simp: on_request_def decode_payload_for_request_def record_login_version_for_request_def st_bind_def
        st_map_err_def st_return_def zoom_def st_modify_def)
qed

lemma process_buffered:
  assumes "process_with_outbound argon2 (noop_messaging sleep) cid command (cx\<lparr> cx_transport := reply_buffer_new \<rparr>) = (z, cx')"
  shows "process argon2 sleep cid command cx =
    (case z of
       Inl e \<Rightarrow> (Inl e, cx')
     | Inr _ \<Rightarrow> (ok_or (CmdError (CE_Outbound ReplyMissing)) (rb_reply (cx_transport cx')),
                cx'\<lparr> cx_transport := snd (take_reply (cx_transport cx')) \<rparr>))"
  using assms
  by (auto simp: process_def st_bind_def st_modify_def zoom_def st_lift_def take_reply_def split: sum.split)

lemma plain_reply:
  assumes "from_transaction tx = Inr command" "transaction_type_from_u16 (fh_ty (tx_header tx)) \<noteq> T_Login"
    and "process_with_outbound argon2 m cid command (cx\<lparr> cx_transport := reply_buffer_new \<rparr>) = (Inr u, cx')"
  obtains rep where "rb_reply (cx_transport cx') = Some rep" "\<And>c. augment c rep = rep"
proof -
  obtain rep where rep: "rb_reply (cx_transport cx') = Some rep" "reply_for (command_header command) rep"
    using buffered_reply [OF process_answered _ assms(3)] by (auto simp: reply_buffer_new_def)
  moreover have "command_header command = tx_header tx"
    using assms(1) by (simp add: from_transaction_def parse_command_header)
  ultimately have "augment c rep = rep" for c
    using assms(2) by (intro augment_other) (simp add: reply_for_def)
  with rep(1) that show ?thesis by blast
qed

lemma route_silent:
  assumes "\<not> is_enabled (rt_xor router)"
    and "fh_ty (request_header frame) \<noteq> 107"
    and "\<And>tx ps. parse_transaction frame = Inr tx \<Longrightarrow> decode_params (tx_payload tx) = Inr ps \<Longrightarrow>
           \<forall>d\<in>set (texts ps). utf8_valid d"
    and "handle_request argon2 sleep cid frame cx = (r, cx')"
  shows "route argon2 (noop_messaging sleep) cid frame (router, cx) =
    (case r of
       Inr tx \<Rightarrow> Inr (to_bytes tx)
     | Inl (CmdError _) \<Rightarrow> Inr (to_bytes (bare_reply (request_header frame) 3))
     | Inl CmdPanic \<Rightarrow> Inl (), (router, cx'))"
proof (cases "parse_transaction frame")
  case (Inl e)
  then show ?thesis
    using assms(4)
    by (auto simp: handle_request_def route_def prepare_command_def st_bind_def st_lift_def tx_result_def
        route_error_defs)
next
  case (Inr tx)
  let ?ty = "transaction_type_from_u16 (fh_ty (tx_header tx))"
  have ty: "?ty \<noteq> T_Login"
    using assms(2) request_header_parsed [OF Inr] by (auto simp: transaction_type_from_u16_def split: if_splits)
  have req: "on_request ?ty tx router = (Inr tx, router)"
    by (rule on_request_plain [OF Inr refl ty assms(1)]) (rule assms(3) [OF Inr])
  show ?thesis
  proof (cases "from_transaction tx")
    case (Inl e)
    then show ?thesis
      using assms(4) Inr req request_header_parsed [OF Inr]
      by (auto simp: handle_request_def route_def prepare_command_def st_bind_def st_lift_def tx_result_def
          route_error_defs Let_def)
  next
    case cmd: (Inr command)
    then have header: "command_header command = tx_header tx"
      by (simp add: from_transaction_def parse_command_header)
    let ?cx = "cx\<lparr> cx_transport := reply_buffer_new \<rparr>"
    obtain z cx1 where run: "process_with_outbound argon2 (noop_messaging sleep) (Some cid) command ?cx = (z, cx1)"
      by fastforce
    have prep: "prepare_command frame router = (Inr (tx_header tx, ?ty, command), router)"
      by (simp add: prepare_command_def st_bind_def st_lift_def st_return_def Let_def Inr req cmd)
    have "process argon2 sleep (Some cid) command cx = (r, cx')"
      using assms(4) by (simp add: handle_request_def st_bind_def st_lift_def tx_result_def Inr cmd)
    note runs = this route_prepared [OF prep run] process_buffered [OF run]
    show ?thesis
    proof (cases z)
      case (Inl e)
      with runs show ?thesis
        by (cases e) (auto simp: request_header_parsed [OF \<open>parse_transaction frame = Inr tx\<close>])
    next
      case ok: (Inr u)
      obtain rep where "rb_reply (cx_transport cx1) = Some rep" "\<And>c. augment c rep = rep"
        using plain_reply [OF cmd ty run [unfolded ok]] by blast
      with runs ok show ?thesis by auto
    qed
  qed
qed

text \<open>The adapter makes no difference to the reply, the router and the context but for the world.\<close>

lemma route_push_blind:
  assumes "route argon2 m cid frame (router, cx) = (r, (router', cx'))"
  shows "\<exists>w. route argon2 m' cid frame (router, cx) = (r, (router', cx'\<lparr> cx_world := w \<rparr>))"
proof (cases "prepare_command frame router")
  case (Pair p router1)
  show ?thesis
  proof (cases p)
    case (Inl rep)
    note rejected = Pair [unfolded Inl]
    show ?thesis
      using assms unfolding route_rejected [OF rejected] by (intro exI [of _ "cx_world cx"]) simp
  next
    case (Inr q)
    then obtain h ty command where ok: "prepare_command frame router = (Inr (h, ty, command), router1)"
      using Pair by (cases q) auto
    let ?cx = "cx\<lparr> cx_transport := reply_buffer_new \<rparr>"
    obtain z cx1 where run: "process_with_outbound argon2 m (Some cid) command ?cx = (z, cx1)"
      by fastforce
    obtain w where "process_with_outbound argon2 m' (Some cid) command (?cx\<lparr> cx_world := cx_world cx \<rparr>)
        = (z, cx1\<lparr> cx_world := w \<rparr>)"
      by (rule push_blindD [OF process_push_blind run])
    then have run': "process_with_outbound argon2 m' (Some cid) command ?cx = (z, cx1\<lparr> cx_world := w \<rparr>)"
      by simp
    show ?thesis
      using assms unfolding route_prepared [OF ok run] route_prepared [OF ok run']
      by (intro exI [of _ w]) (auto split: sum.splits cmd_fault.splits)
  qed
qed

text \<open>
  C30: the two servers answer alike.  Take a frame that is not a login, whose text
  fields are plain UTF-8, on a connection without the inversion mark.  Whatever
  adapter the wireframe router pushes with, it gives the serialised reply of the legacy
  \<^verbatim>\<open>handle_request\<close>, or the internal error for the frame where that fails, leaves the
  session, the registry and the database exactly as it does, and keeps its own state.
  Only the world of pushed messages may differ, and with the silent adapter of the
  legacy server that is the same as well.
\<close>

theorem route_refines_handle_request:
  assumes "\<not> is_enabled (rt_xor router)"
    and "fh_ty (request_header frame) \<noteq> 107"
    and "\<And>tx ps. parse_transaction frame = Inr tx \<Longrightarrow> decode_params (tx_payload tx) = Inr ps \<Longrightarrow>
           \<forall>d\<in>set (texts ps). utf8_valid d"
    and "handle_request argon2 sleep cid frame cx = (r, cx')"
  shows "\<exists>w. route argon2 m cid frame (router, cx) =
    (case r of
       Inr tx \<Rightarrow> Inr (to_bytes tx)
     | Inl (CmdError _) \<Rightarrow> Inr (to_bytes (bare_reply (request_header frame) 3))
     | Inl CmdPanic \<Rightarrow> Inl (), (router, cx'\<lparr> cx_world := w \<rparr>))
    \<and> (m = noop_messaging sleep \<longrightarrow> w = cx_world cx')"
proof -
  have silent: "route argon2 (noop_messaging sleep) cid frame (router, cx) =
    (case r of
       Inr tx \<Rightarrow> Inr (to_bytes tx)
     | Inl (CmdError _) \<Rightarrow> Inr (to_bytes (bare_reply (request_header frame) 3))
     | Inl CmdPanic \<Rightarrow> Inl (), (router, cx'))"
    using assms by (rule route_silent)
  show ?thesis
  proof (cases "m = noop_messaging sleep")
    case True
    with silent show ?thesis by (intro exI [of _ "cx_world cx'"]) simp
  next
    case False
    with route_push_blind [OF silent, of m] show ?thesis by blast
  qed
qed

section \<open>Inverted requests\<close>

lemma parse_inverted:
  assumes "parse_transaction frame = Inr tx" "decode_params (tx_payload tx) = Inr ps" "tx_payload tx \<noteq> []"
  shows "parse_transaction (to_bytes (tx\<lparr> tx_payload := wire_params (xor_params ps) \<rparr>))
    = Inr (tx\<lparr> tx_payload := wire_params (xor_params ps) \<rparr>)"
  using assms validate_xored [OF _ assms(2,3)]
  by (auto simp: parse_transaction_iff transaction_wf_def validate_payload_def)

lemma prepare_inverted:
  assumes "parse_transaction (to_bytes tx) = Inr tx" "parse_transaction (to_bytes tx') = Inr tx'"
    and "tx_header tx' = tx_header tx" "\<not> bypass_payload_decode (transaction_type_from_u16 (fh_ty (tx_header tx)))"
    and "decode_payload (tx_payload tx) (rt_xor router) = (Inr (tx_payload tx), rt_xor router)"
    and "decode_payload (tx_payload tx') (rt_xor router) = (Inr (tx_payload tx), x)"
  shows "prepare_command (to_bytes tx') router =
    (case prepare_command (to_bytes tx) router of (p, r) \<Rightarrow> (p, r\<lparr> rt_xor := x \<rparr>))"
proof -
  have same: "tx'\<lparr> tx_payload := tx_payload tx \<rparr> = tx"
    using assms(3) by simp
  show ?thesis
    using assms(4-6)
    by (auto simp: prepare_command_def on_request_def decode_payload_for_request_def st_bind_def st_map_err_def
        st_return_def st_lift_def zoom_def st_modify_def Let_def assms(1-3) same split: sum.split prod.split)
qed

text \<open>
  C31: an inverted request has the effect of the plain one.  Take a request with ASCII
  text fields, one of them starting with a letter, and the same request with those
  fields inverted.  On a connection without the mark both give the same reply (to be
  inverted on its way out) and the same session, registry, database and world; after
  the inverted one the connection is marked, and that is the whole difference.
\<close>

theorem inverted_request_same_effect:
  assumes "parse_transaction (to_bytes tx) = Inr tx" "decode_params (tx_payload tx) = Inr ps"
    and "\<not> bypass_payload_decode (transaction_type_from_u16 (fh_ty (tx_header tx)))" "\<not> is_enabled (rt_xor router)"
    and "\<forall>d\<in>set (texts ps). \<forall>b\<in>set d. b < 0x80" "b # bs \<in> set (texts ps)" "0x40 \<le> b"
    and "encode_payload xor_enabled (tx_payload tx) = Inr inverted"
    and "route argon2 m cid (to_bytes tx) (router, cx) = (r, (router', cx'))"
  shows "route argon2 m cid (to_bytes (tx\<lparr> tx_payload := inverted \<rparr>)) (router, cx) =
    (r, (router'\<lparr> rt_xor := enable (rt_xor router) \<rparr>, cx'))"
proof -
  let ?tx = "tx\<lparr> tx_payload := inverted \<rparr>"
  have ne: "tx_payload tx \<noteq> []"
    using assms(2,6) by (auto simp: decode_params_iff texts_def)
  have inverted: "inverted = wire_params (xor_params ps)"
    using assms(8) encode_payload_params [OF assms(2) _ ne, of xor_enabled] by simp
  have parsed: "parse_transaction (to_bytes ?tx) = Inr ?tx"
    unfolding inverted by (rule parse_inverted [OF assms(1,2) ne])
  have "decode_payload (tx_payload tx) (rt_xor router) = (Inr (tx_payload tx), rt_xor router)"
    "decode_payload (tx_payload ?tx) (rt_xor router) = (Inr (tx_payload tx), enable (rt_xor router))"
    using xor_client_understood [OF assms(2,4-7)] assms(8) by auto
  from prepare_inverted [OF assms(1) parsed _ assms(3) this] show ?thesis
    using assms(9)
    by (auto simp: route_def Let_def split: prod.splits sum.splits cmd_fault.splits)
qed

section \<open>Concrete requests\<close>

definition fresh_router :: WireframeRouter where
  "fresh_router = \<lparr> rt_xor = xor_disabled, rt_client = client_from_handshake metadata_default \<rparr>"

text \<open>A truncated frame, a request for the user list, and a login with a password only.\<close>

theorem every_frame_answered_witness:
  "\<exists>tx. fst (route plain_argon2 silent 3 [1, 2, 3] (fresh_router, sample_context)) = Inr (to_bytes tx)
     \<and> reply_for default_request_header tx \<and> fh_error (tx_header tx) = 3"
proof -
  obtain r s where run: "route plain_argon2 silent 3 [1, 2, 3] (fresh_router, sample_context) = (r, s)"
    by (metis surj_pair)
  have bad: "parse_transaction [1, 2, 3] = Inl SizeMismatch"
    by (simp add: parse_transaction_def)
  then have "\<exists>rep. r = Inr rep"
    using run by (auto simp: route_def prepare_command_def st_bind_def st_lift_def)
  then show ?thesis
    using every_frame_answered [OF run] run bad
    by (auto simp: request_header_or_default_def builder_from_frame_def)
qed

definition list_header :: FrameHeader where
  "list_header = \<lparr> fh_flags = 0, fh_is_reply = 0, fh_ty = 300, fh_id = 5, fh_error = 0,
     fh_total_size = 0, fh_data_size = 0 \<rparr>"

abbreviation list_frame :: bytes where
  "list_frame \<equiv> to_bytes \<lparr> tx_header = list_header, tx_payload = [] \<rparr>"

lemma parse_list_frame: "parse_transaction list_frame = Inr \<lparr> tx_header = list_header, tx_payload = [] \<rparr>"
  by (simp add: parse_transaction_iff transaction_wf_def validate_payload_def validate_payload_parts_iff
      list_header_def)

definition eager_messaging :: "unit OutboundMessaging" where
  "eager_messaging = \<lparr> om_push = (\<lambda>target message priority w. (Inr (), w)),
     om_broadcast = (\<lambda>message priority w. (Inr (), w)), om_sleep = (\<lambda>_ w. w) \<rparr>"

theorem route_refines_handle_request_witness:
  "case handle_request plain_argon2 (\<lambda>_ w. w) 3 list_frame sample_context of (r, cx') \<Rightarrow>
     \<exists>w. route plain_argon2 eager_messaging 3 list_frame (fresh_router, sample_context) =
       (case r of
          Inr tx \<Rightarrow> Inr (to_bytes tx)
        | Inl (CmdError _) \<Rightarrow> Inr (to_bytes (bare_reply (request_header list_frame) 3))
        | Inl CmdPanic \<Rightarrow> Inl (), (fresh_router, cx'\<lparr> cx_world := w \<rparr>))"
proof (cases "handle_request plain_argon2 (\<lambda>_ w. w) 3 list_frame sample_context")
  case (Pair r cx')
  have ty: "fh_ty (request_header list_frame) \<noteq> 107"
    by (simp add: request_header_parsed [OF parse_list_frame]) (simp add: list_header_def)
  have off: "\<not> is_enabled (rt_xor fresh_router)"
    by (simp add: fresh_router_def)
  have plain: "\<forall>d\<in>set (texts ps). utf8_valid d"
    if "parse_transaction list_frame = Inr tx" "decode_params (tx_payload tx) = Inr ps" for tx ps
    using that by (auto simp: parse_list_frame decode_params_iff texts_def)
  from route_refines_handle_request [where m = eager_messaging, OF off ty _ Pair] plain
  have "\<exists>w. route plain_argon2 eager_messaging 3 list_frame (fresh_router, sample_context) =
       (case r of
          Inr tx \<Rightarrow> Inr (to_bytes tx)
        | Inl (CmdError _) \<Rightarrow> Inr (to_bytes (bare_reply (request_header list_frame) 3))
        | Inl CmdPanic \<Rightarrow> Inl (), (fresh_router, cx'\<lparr> cx_world := w \<rparr>))"
    by blast
  then show ?thesis unfolding Pair prod.case .
qed

definition password_request :: Transaction where
  "password_request = \<lparr> tx_header = login_header\<lparr> fh_total_size := 7, fh_data_size := 7 \<rparr>,
     tx_payload = password_payload \<rparr>"

theorem inverted_request_same_effect_witness:
  "\<exists>inverted r router' cx'.
     encode_payload xor_enabled (tx_payload password_request) = Inr inverted \<and> inverted \<noteq> password_payload
     \<and> route plain_argon2 silent 3 (to_bytes password_request) (fresh_router, sample_context) = (r, (router', cx'))
     \<and> route plain_argon2 silent 3 (to_bytes (password_request\<lparr> tx_payload := inverted \<rparr>)) (fresh_router, sample_context)
         = (r, (router'\<lparr> rt_xor := xor_enabled \<rparr>, cx'))"
proof -
  obtain r router' cx' where
    run: "route plain_argon2 silent 3 (to_bytes password_request) (fresh_router, sample_context) = (r, (router', cx'))"
    by (metis surj_pair)
  have payload: "tx_payload password_request = password_payload"
    by (simp add: password_request_def)
  have enc: "encode_payload xor_enabled password_payload = Inr [0, 1, 0, 106, 0, 1, 157]"
    using encode_payload_params [OF decode_password_payload]
    by (simp add: password_payload_def wire_params_def field_entry_def to_be_bytes_u16_def xor_params_def xor_bytes_def)
  have "route plain_argon2 silent 3 (to_bytes (password_request\<lparr> tx_payload := [0, 1, 0, 106, 0, 1, 157] \<rparr>))
      (fresh_router, sample_context) = (r, (router'\<lparr> rt_xor := enable (rt_xor fresh_router) \<rparr>, cx'))"
    by (rule inverted_request_same_effect [where b = 98 and bs = "[]", OF _ decode_password_payload [folded payload] _ _ _ _ _ enc [folded payload] run])
      (use parse_password_payload [of "tx_header password_request"] in
        \<open>simp_all add: password_request_def login_header_def transaction_type_from_u16_def fresh_router_def texts_def
          bypass_payload_decode_def\<close>)
  then show ?thesis
    using run enc
    by (intro exI conjI) (simp_all add: payload password_payload_def fresh_router_def enable_def xor_disabled_def
        xor_enabled_def)
qed

end
