(* ===== verification/Codec.thy ===== *)
theory Codec
  imports Handshake_Protocol
begin

text \<open>
  The wireframe transaction codec: HotlineTransaction with its constructors,
  bincode decoder and encoder (src/src/wireframe/codec/mod.rs), the physical frame
  reader (src/src/wireframe/codec/physical_frame.rs) and the Tokio codec
  (src/src/wireframe/codec/framed.rs).  An \<^verbatim>\<open>io::Error\<close> is its kind with its text;
  where the text is the rendering of a \<^verbatim>\<open>TransactionError\<close>, that error stands for it.
\<close>

section \<open>Transactions of the wireframe side\<close>

record HotlineTransaction =
  ht_header :: FrameHeader
  ht_payload :: bytes

definition ht_from_params ::
  "FrameHeader \<Rightarrow> (FieldId \<times> bytes) list \<Rightarrow> HotlineTransaction tx_result" where
  "ht_from_params header params =
     (if fh_flags header \<noteq> 0 then Inl InvalidFlags
      else
        rbind (if params = [] then Inr [] else encode_params params) (\<lambda>payload.
          let total_size = length payload in
          if total_size > MAX_PAYLOAD_SIZE then Inl PayloadTooLarge
          else
            rbind (ok_or PayloadTooLarge (u32_try_from total_size)) (\<lambda>n.
              let header' = header\<lparr> fh_total_size := n, fh_data_size := n \<rparr> in
              rbind (validate_payload_parts header' payload) (\<lambda>_.
                Inr \<lparr> ht_header = header', ht_payload = payload \<rparr>))))"

definition request_from_params ::
  "u16 \<Rightarrow> u32 \<Rightarrow> (FieldId \<times> bytes) list \<Rightarrow> HotlineTransaction tx_result" where
  "request_from_params ty id' params =
     ht_from_params \<lparr> fh_flags = 0, fh_is_reply = 0, fh_ty = ty, fh_id = id', fh_error = 0,
       fh_total_size = 0, fh_data_size = 0 \<rparr> params"

definition reply_from_params ::
  "FrameHeader \<Rightarrow> u32 \<Rightarrow> (FieldId \<times> bytes) list \<Rightarrow> HotlineTransaction tx_result" where
  "reply_from_params req error' params =
     ht_from_params \<lparr> fh_flags = 0, fh_is_reply = 1, fh_ty = fh_ty req, fh_id = fh_id req,
       fh_error = error', fh_total_size = 0, fh_data_size = 0 \<rparr> params"

definition from_parts :: "FrameHeader \<Rightarrow> bytes \<Rightarrow> HotlineTransaction tx_result" where
  "from_parts header payload =
     (if fh_flags header \<noteq> 0 then Inl InvalidFlags
      else if unat (fh_total_size header) > MAX_PAYLOAD_SIZE
              \<or> unat (fh_data_size header) > MAX_FRAME_DATA then Inl PayloadTooLarge
      else
        (let has_data_size_overflow = fh_data_size header > fh_total_size header;
             has_inconsistent_empty_frame = fh_data_size header = 0 \<and> fh_total_size header > 0 in
         if has_data_size_overflow \<or> has_inconsistent_empty_frame then Inl SizeMismatch
         else rbind (validate_payload_parts header payload) (\<lambda>_.
                Inr \<lparr> ht_header = header, ht_payload = payload \<rparr>)))"

definition ht_try_from :: "Transaction \<Rightarrow> HotlineTransaction tx_result" where
  "ht_try_from value =
     (if fh_flags (tx_header value) \<noteq> 0 then Inl InvalidFlags
      else if length (tx_payload value) > MAX_PAYLOAD_SIZE then Inl PayloadTooLarge
      else rbind (validate_payload_parts (tx_header value) (tx_payload value)) (\<lambda>_.
        Inr \<lparr> ht_header = (tx_header value)\<lparr> fh_data_size := fh_total_size (tx_header value) \<rparr>,
              ht_payload = tx_payload value \<rparr>))"

definition transaction_from_ht :: "HotlineTransaction \<Rightarrow> Transaction" where
  "transaction_from_ht h = \<lparr> tx_header = ht_header h, tx_payload = ht_payload h \<rparr>"

section \<open>Header checks\<close>

definition validate_header :: "FrameHeader \<Rightarrow> (string, unit) result" where
  "validate_header hdr =
     (if fh_flags hdr \<noteq> 0 then Inl ''invalid flags: must be 0 for v1.8.5''
      else if unat (fh_total_size hdr) > MAX_PAYLOAD_SIZE
        then Inl ''total size exceeds maximum (1 MiB)''
      else if unat (fh_data_size hdr) > MAX_FRAME_DATA
        then Inl ''data size exceeds maximum (32 KiB)''
      else if fh_data_size hdr > fh_total_size hdr then Inl ''data size exceeds total size''
      else if fh_data_size hdr = 0 \<and> fh_total_size hdr > 0
        then Inl ''data size is zero but total size is non-zero''
      else Inr ())"

definition validate_fragment_consistency ::
  "FrameHeader \<Rightarrow> FrameHeader \<Rightarrow> (string, unit) result" where
  "validate_fragment_consistency first next =
     (if fh_flags next \<noteq> fh_flags first
        then Inl ''header mismatch: 'flags' changed between fragments''
      else if fh_is_reply next \<noteq> fh_is_reply first
        then Inl ''header mismatch: 'is_reply' changed between fragments''
      else if fh_ty next \<noteq> fh_ty first
        then Inl ''header mismatch: 'type' changed between fragments''
      else if fh_id next \<noteq> fh_id first
        then Inl ''header mismatch: 'id' changed between fragments''
      else if fh_error next \<noteq> fh_error first
        then Inl ''header mismatch: 'error' changed between fragments''
      else if fh_total_size next \<noteq> fh_total_size first
        then Inl ''header mismatch: 'total_size' changed between fragments''
      else Inr ())"

section \<open>The bincode decoder and encoder\<close>

text \<open>\<open>decoder.reader().read\<close> on the bytes that are left.\<close>

definition bin_read :: "nat \<Rightarrow> bytes \<Rightarrow> (DecodeError, bytes \<times> bytes) result" where
  "bin_read n bs = (if n \<le> length bs then Inr (take n bs, drop n bs) else Inl DE_Rest)"

function read_continuations ::
  "FrameHeader \<Rightarrow> u32 \<Rightarrow> bytes \<Rightarrow> bytes \<Rightarrow> (DecodeError, bytes \<times> bytes) result" where
  "read_continuations first_header accumulated payload bs =
     (if accumulated < fh_total_size first_header then
        rbind (bin_read HEADER_LEN bs) (\<lambda>(hdr_buf, bs1).
          let next_header = from_bytes hdr_buf in
          rbind (map_err DE_OtherString (validate_fragment_consistency first_header next_header)) (\<lambda>_.
            if fh_data_size next_header = 0
              then Inl (DE_OtherString ''continuation fragment has zero data size'')
            else if unat (fh_data_size next_header) > MAX_FRAME_DATA
              then Inl (DE_OtherString ''continuation data size exceeds maximum (32 KiB)'')
            else
              (let remaining = fh_total_size first_header - accumulated in
               if fh_data_size next_header > remaining
                 then Inl (DE_OtherString ''continuation data size exceeds remaining bytes'')
               else rbind (bin_read (unat (fh_data_size next_header)) bs1) (\<lambda>(chunk, bs2).
                 read_continuations first_header (accumulated + fh_data_size next_header)
                   (payload @ chunk) bs2))))
      else Inr (payload, bs))"
  by pat_completeness auto
termination
proof (relation "measure (\<lambda>(h, accumulated, _, _). unat (fh_total_size h) - unat accumulated)", goal_cases)
  case (2 h acc payload bs x hb bs1 nh u rem y chunk bs2)
  then have "acc < fh_total_size h" "fh_data_size nh \<noteq> 0" "fh_data_size nh \<le> fh_total_size h - acc"
    by (auto simp: not_less)
  then have le: "unat acc + unat (fh_data_size nh) \<le> unat (fh_total_size h)"
    by (simp add: word_le_nat_alt word_less_nat_alt unat_sub)
  then have "unat (acc + of_nat (unat (fh_data_size nh))) = unat acc + unat (fh_data_size nh)"
    by (intro unat_add_u32 order_trans [OF le unat_u32_le])
  moreover have "0 < unat (fh_data_size nh)"
    using 2 by (simp add: unat_gt_0)
  ultimately show ?case
    using le by simp
qed simp

declare read_continuations.simps [simp del]

definition borrow_decode :: "bytes \<Rightarrow> (DecodeError, HotlineTransaction \<times> bytes) result" where
  "borrow_decode bs =
     rbind (bin_read HEADER_LEN bs) (\<lambda>(hdr_buf, bs1).
       let first_header = from_bytes hdr_buf in
       rbind (map_err DE_OtherString (validate_header first_header)) (\<lambda>_.
       rbind (if fh_data_size first_header = 0 then Inr ([], bs1)
              else bin_read (unat (fh_data_size first_header)) bs1) (\<lambda>(payload, bs2).
       rbind (read_continuations first_header (fh_data_size first_header) payload bs2)
         (\<lambda>(payload', bs3).
         Inr (\<lparr> ht_header = first_header\<lparr> fh_data_size := fh_total_size first_header \<rparr>,
                ht_payload = payload' \<rparr>, bs3)))))"

text \<open>\<open>for_each_fragment_range\<close>: the ranges \<open>(offset, len)\<close> the callback sees, in order.\<close>

function fragment_ranges :: "nat \<Rightarrow> nat \<Rightarrow> (nat \<times> nat) list" where
  "fragment_ranges total_len offset =
     (if offset < total_len then
        (let len = min (total_len - offset) MAX_FRAME_DATA in
         (offset, len) # fragment_ranges total_len (offset + len))
      else [])"
  by pat_completeness auto
termination
  by (relation "measure (\<lambda>(t, k). t - k)") auto

declare fragment_ranges.simps [simp del]

definition encode_range ::
  "FrameHeader \<Rightarrow> bytes \<Rightarrow> bytes tx_result \<Rightarrow> nat \<times> nat \<Rightarrow> bytes tx_result" where
  "encode_range header payload acc rng =
     rbind acc (\<lambda>out.
       let offset = fst rng; end' = offset + snd rng in
       rbind (ok_or SizeMismatch
         (if end' \<le> length payload then Some (slice offset end' payload) else None)) (\<lambda>chunk.
       rbind (ok_or PayloadTooLarge (u32_try_from (length chunk))) (\<lambda>n.
         Inr (out @ write_bytes (header\<lparr> fh_data_size := n \<rparr>) @ chunk))))"

definition ht_encode :: "HotlineTransaction \<Rightarrow> bytes tx_result" where
  "ht_encode ht =
     (if fh_flags (ht_header ht) \<noteq> 0 then Inl InvalidFlags
      else if length (ht_payload ht) > MAX_PAYLOAD_SIZE then Inl PayloadTooLarge
      else
        rbind (ok_or PayloadTooLarge (u32_try_from (length (ht_payload ht)))) (\<lambda>total_size.
          if fh_total_size (ht_header ht) \<noteq> total_size then Inl SizeMismatch
          else if ht_payload ht = [] then Inr (write_bytes ((ht_header ht)\<lparr> fh_data_size := 0 \<rparr>))
          else
            foldl (encode_range (ht_header ht) (ht_payload ht)) (Inr [])
              (fragment_ranges (length (ht_payload ht)) 0)))"

section \<open>Physical frames and the Tokio codec\<close>

datatype io_error =
    InvalidData string
  | InvalidDataTx TransactionError
  | InvalidInputTx TransactionError
  | InvalidInput string
  | UnexpectedEofErr string

definition take_hotline_frame ::
  "bytes \<Rightarrow> (io_error, (FrameHeader \<times> bytes) option) result \<times> bytes" where
  "take_hotline_frame src =
     (if length src < HEADER_LEN then (Inr None, src)
      else
        (let header = from_bytes (slice 0 HEADER_LEN src) in
         case map_err InvalidData (validate_header header) of
           Inl e \<Rightarrow> (Inl e, src)
         | Inr _ \<Rightarrow>
             (let data_size = unat (fh_data_size header); frame_len = HEADER_LEN + data_size in
              if length src < frame_len then (Inr None, src)
              else (Inr (Some (header, slice HEADER_LEN frame_len src)), drop frame_len src))))"

record ReassemblyState =
  ra_first_header :: FrameHeader
  ra_payload :: bytes

record HotlineCodec =
  hc_reassembly :: "ReassemblyState option"

definition hotline_codec_new :: HotlineCodec where
  "hotline_codec_new = \<lparr> hc_reassembly = None \<rparr>"

definition finalize_transaction ::
  "FrameHeader \<Rightarrow> bytes \<Rightarrow> (io_error, HotlineTransaction) result" where
  "finalize_transaction header payload =
     map_err InvalidDataTx (from_parts (header\<lparr> fh_data_size := fh_total_size header \<rparr>) payload)"

definition append_fragment ::
  "ReassemblyState \<Rightarrow> FrameHeader \<Rightarrow> bytes \<Rightarrow> (io_error, bool \<times> ReassemblyState) result" where
  "append_fragment state header payload =
     rbind (map_err InvalidData (validate_fragment_consistency (ra_first_header state) header)) (\<lambda>_.
       if fh_data_size header = 0 then Inl (InvalidData ''continuation fragment has zero data size'')
       else
         (let total_size = unat (fh_total_size (ra_first_header state));
              data_size = unat (fh_data_size header) in
          if length (ra_payload state) > total_size
            then Inl (InvalidData ''reassembly payload exceeds declared total size'')
          else
            (let remaining = total_size - length (ra_payload state) in
             if data_size > remaining then Inl (InvalidData ''fragment exceeds remaining payload size'')
             else
               (let state' = state\<lparr> ra_payload := ra_payload state @ payload \<rparr> in
                Inr (length (ra_payload state') = total_size, state')))))"

definition codec_decode ::
  "HotlineCodec \<Rightarrow> bytes \<Rightarrow> (io_error, HotlineTransaction option) result \<times> HotlineCodec \<times> bytes" where
  "codec_decode codec src =
     (case take_hotline_frame src of
        (Inl e, src') \<Rightarrow> (Inl e, codec, src')
      | (Inr None, src') \<Rightarrow> (Inr None, codec, src')
      | (Inr (Some (header, payload)), src') \<Rightarrow>
          (case hc_reassembly codec of
             Some state \<Rightarrow>
               (case append_fragment state header payload of
                  Inl e \<Rightarrow> (Inl e, codec, src')
                | Inr (is_complete, state') \<Rightarrow>
                    if \<not> is_complete then (Inr None, codec\<lparr> hc_reassembly := Some state' \<rparr>, src')
                    else (rbind (finalize_transaction (ra_first_header state') (ra_payload state'))
                            (\<lambda>tx. Inr (Some tx)),
                          codec\<lparr> hc_reassembly := None \<rparr>, src'))
           | None \<Rightarrow>
               if fh_data_size header < fh_total_size header then
                 (Inr None, codec\<lparr> hc_reassembly := Some
                    \<lparr> ra_first_header = header, ra_payload = payload \<rparr> \<rparr>, src')
               else (rbind (finalize_transaction header payload) (\<lambda>tx. Inr (Some tx)), codec, src')))"

definition codec_decode_eof ::
  "HotlineCodec \<Rightarrow> bytes \<Rightarrow> (io_error, HotlineTransaction option) result \<times> HotlineCodec \<times> bytes" where
  "codec_decode_eof codec src =
     (case codec_decode codec src of
        (Inl e, codec', src') \<Rightarrow> (Inl e, codec', src')
      | (Inr (Some item), codec', src') \<Rightarrow> (Inr (Some item), codec', src')
      | (Inr None, codec', src') \<Rightarrow>
          if hc_reassembly codec' \<noteq> None \<or> src' \<noteq> []
          then (Inl (UnexpectedEofErr ''incomplete transaction frame''), codec', src')
          else (Inr None, codec', src'))"

function encode_fragments :: "FrameHeader \<Rightarrow> bytes \<Rightarrow> nat \<Rightarrow> bytes \<Rightarrow> (io_error, unit) result \<times> bytes" where
  "encode_fragments header payload offset dst =
     (if offset < length payload then
        (let end' = min (offset + MAX_FRAME_DATA) (length payload);
             chunk = slice offset end' payload in
         case u32_try_from (length chunk) of
           None \<Rightarrow> (Inl (InvalidInput ''chunk too large''), dst)
         | Some n \<Rightarrow>
             encode_fragments header payload end'
               (dst @ write_bytes (header\<lparr> fh_data_size := n \<rparr>) @ chunk))
      else (Inr (), dst))"
  by pat_completeness auto
termination
  by (relation "measure (\<lambda>(h, p, k, d). length p - k)") auto

declare encode_fragments.simps [simp del]

definition codec_encode ::
  "HotlineTransaction \<Rightarrow> bytes \<Rightarrow> (io_error, unit) result \<times> bytes" where
  "codec_encode item dst =
     (let header = ht_header item; payload = ht_payload item in
      if fh_flags header \<noteq> 0 then (Inl (InvalidInputTx InvalidFlags), dst)
      else if length payload > MAX_PAYLOAD_SIZE then (Inl (InvalidInputTx PayloadTooLarge), dst)
      else if payload = [] then (Inr (), dst @ write_bytes (header\<lparr> fh_data_size := 0 \<rparr>))
      else encode_fragments header payload 0 dst)"

text \<open>A reader that keeps calling \<^verbatim>\<open>decode\<close> on its buffer while it answers \<^verbatim>\<open>Ok(None)\<close>,
  at most \<open>n\<close> times.\<close>

fun pump :: "nat \<Rightarrow> HotlineCodec \<Rightarrow> bytes
    \<Rightarrow> (io_error, HotlineTransaction option) result \<times> HotlineCodec \<times> bytes" where
  "pump 0 codec src = (Inr None, codec, src)"
| "pump (Suc n) codec src =
     (case codec_decode codec src of
        (Inr None, codec', src') \<Rightarrow> pump n codec' src'
      | r \<Rightarrow> r)"

section \<open>The encoders emit the reference fragmentation\<close>

lemma chop_step:
  "offset < length xs \<Longrightarrow> 0 < n \<Longrightarrow>
     chop n (drop offset xs) =
       slice offset (min (offset + n) (length xs)) xs # chop n (drop (min (offset + n) (length xs)) xs)"
  by (subst chop.simps) (auto simp: slice_def min_def add.commute)

lemma encode_fragments_eq:
  "encode_fragments header payload offset dst =
     (Inr (), dst @ frames_bytes header (chop MAX_FRAME_DATA (drop offset payload)))"
proof (induction header payload offset dst rule: encode_fragments.induct)
  case (1 header payload offset dst)
  show ?case
  proof (cases "offset < length payload")
    case False
    then show ?thesis by (simp add: encode_fragments.simps [of _ _ offset] chop.simps frames_bytes_def)
  next
    case True
    let ?stop = "min (offset + MAX_FRAME_DATA) (length payload)"
    let ?c = "slice offset ?stop payload"
    have len: "length ?c \<le> u32_max" using True by (auto simp: min_def)
    have IH: "encode_fragments header payload ?stop
        (dst @ write_bytes (header\<lparr> fh_data_size := of_nat (length ?c) \<rparr>) @ ?c) =
        (Inr (), (dst @ write_bytes (header\<lparr> fh_data_size := of_nat (length ?c) \<rparr>) @ ?c)
          @ frames_bytes header (chop MAX_FRAME_DATA (drop ?stop payload)))"
      using True len by (intro "1.IH") simp_all
    have chop: "chop MAX_FRAME_DATA (drop offset payload) = ?c # chop MAX_FRAME_DATA (drop ?stop payload)"
      using True by (intro chop_step) simp_all
    have "encode_fragments header payload offset dst = encode_fragments header payload ?stop
        (dst @ write_bytes (header\<lparr> fh_data_size := of_nat (length ?c) \<rparr>) @ ?c)"
      using True len by (subst encode_fragments.simps) (simp add: Let_def u32_try_from_def)
    then show ?thesis
      unfolding IH chop by (simp add: frames_bytes_def frame_bytes_def)
  qed
qed

lemma codec_encode_eq:
  "fh_flags (ht_header ht) = 0 \<Longrightarrow> length (ht_payload ht) \<le> MAX_PAYLOAD_SIZE \<Longrightarrow>
     codec_encode ht dst =
       (Inr (), dst @ frames_bytes (ht_header ht) (fragments MAX_FRAME_DATA (ht_payload ht)))"
  by (auto simp: codec_encode_def Let_def encode_fragments_eq fragments_def frames_bytes_def
      frame_bytes_def)

lemma fold_ranges_eq:
  "foldl (encode_range h p) (Inr out) (fragment_ranges (length p) k) =
    Inr (out @ frames_bytes h (chop MAX_FRAME_DATA (drop k p)))"
proof (induction "length p - k" arbitrary: k out rule: less_induct)
  case less
  show ?case
  proof (cases "k < length p")
    case False
    then show ?thesis by (simp add: fragment_ranges.simps [of _ k] chop.simps frames_bytes_def)
  next
    case True
    let ?stop = "min (k + MAX_FRAME_DATA) (length p)"
    let ?c = "slice k ?stop p"
    have len: "length ?c \<le> u32_max" "length ?c = ?stop - k" using True by (auto simp: min_def)
    have rng: "fragment_ranges (length p) k = (k, ?stop - k) # fragment_ranges (length p) ?stop"
    proof -
      have "k + min (length p - k) MAX_FRAME_DATA = ?stop" "min (length p - k) MAX_FRAME_DATA = ?stop - k"
        using True by (auto simp: min_def)
      with True show ?thesis by (subst fragment_ranges.simps) (simp add: Let_def)
    qed
    have one: "encode_range h p (Inr out) (k, ?stop - k) = Inr (out @ frame_bytes h ?c)"
      using True len by (simp add: encode_range_def Let_def frame_bytes_def u32_try_from_def)
    have IH: "foldl (encode_range h p) (Inr (out @ frame_bytes h ?c)) (fragment_ranges (length p) ?stop) =
        Inr ((out @ frame_bytes h ?c) @ frames_bytes h (chop MAX_FRAME_DATA (drop ?stop p)))"
      using True by (intro less) simp
    have chop: "chop MAX_FRAME_DATA (drop k p) = ?c # chop MAX_FRAME_DATA (drop ?stop p)"
      using True by (intro chop_step) simp_all
    show ?thesis
      unfolding rng foldl_Cons one IH chop by (simp add: frames_bytes_def)
  qed
qed

lemma ht_encode_eq:
  "fh_flags (ht_header ht) = 0 \<Longrightarrow> length (ht_payload ht) \<le> MAX_PAYLOAD_SIZE \<Longrightarrow>
   unat (fh_total_size (ht_header ht)) = length (ht_payload ht) \<Longrightarrow>
     ht_encode ht = Inr (frames_bytes (ht_header ht) (fragments MAX_FRAME_DATA (ht_payload ht)))"
  using fold_ranges_eq [of "ht_header ht" "ht_payload ht" "[]" 0]
  by (auto simp: ht_encode_def u32_try_from_def fragments_def frames_bytes_def frame_bytes_def
      word_unat_eq_iff)

section \<open>The decoders on a fragmentation\<close>

lemma validate_header_iff:
  "validate_header h = Inr () \<longleftrightarrow>
     fh_flags h = 0 \<and> unat (fh_total_size h) \<le> MAX_PAYLOAD_SIZE
     \<and> unat (fh_data_size h) \<le> MAX_FRAME_DATA \<and> fh_data_size h \<le> fh_total_size h
     \<and> (fh_data_size h = 0 \<longrightarrow> fh_total_size h = 0)"
  by (auto simp: validate_header_def not_less word_gt_0)

lemma validate_fragment_consistency_iff:
  "validate_fragment_consistency first next = Inr () \<longleftrightarrow> headers_match first next"
  by (auto simp: validate_fragment_consistency_def headers_match_def)

lemma take_hotline_frame_frame:
  assumes "validate_header (h\<lparr> fh_data_size := of_nat (length c) \<rparr>) = Inr ()" "length c \<le> MAX_FRAME_DATA"
  shows "take_hotline_frame (frame_bytes h c @ rest) =
    (Inr (Some (h\<lparr> fh_data_size := of_nat (length c) \<rparr>, c)), rest)"
proof -
  have "slice 0 20 (frame_bytes h c @ rest) = write_bytes (h\<lparr> fh_data_size := of_nat (length c) \<rparr>)"
    by (simp add: slice_def frame_bytes_def)
  with assms show ?thesis
    by (simp add: take_hotline_frame_def Let_def frame_bytes_def slice_def)
qed

lemma concat_length_cases:
  assumes "\<forall>c\<in>set cs. c \<noteq> [] \<and> length c \<le> n"
  obtains k where "length (concat cs) = k" "k = 0 \<longleftrightarrow> cs = []"
  using assms by (cases cs) auto

lemma pump_continuations:
  assumes "\<forall>c\<in>set cs. c \<noteq> [] \<and> length c \<le> MAX_FRAME_DATA" "cs \<noteq> []"
    and "fh_flags h = 0" "unat (fh_total_size h) \<le> MAX_PAYLOAD_SIZE"
    and "length p + length (concat cs) = unat (fh_total_size h)"
  shows "pump (length cs) \<lparr> hc_reassembly = Some \<lparr> ra_first_header = h\<lparr> fh_data_size := d \<rparr>,
      ra_payload = p \<rparr> \<rparr> (frames_bytes h cs @ rest) =
    (rbind (finalize_transaction h (p @ concat cs)) (\<lambda>tx. Inr (Some tx)), hotline_codec_new, rest)"
  using assms
proof (induction cs arbitrary: p)
  case (Cons c cs)
  let ?n = "of_nat (length c) :: u32"
  have c: "c \<noteq> []" "length c \<le> MAX_FRAME_DATA" using Cons.prems(1) by auto
  then have n: "unat ?n = length c" by simp
  have tot: "length p + (length c + length (concat cs)) = unat (fh_total_size h)"
    using Cons.prems(5) by simp
  have nz: "?n \<noteq> 0" using c n by (metis length_0_conv unat_0)
  have vh: "validate_header (h\<lparr> fh_data_size := ?n \<rparr>) = Inr ()"
    using Cons.prems(3,4) c n nz tot by (simp add: validate_header_iff word_le_nat_alt)
  let ?st = "\<lparr> ra_first_header = h\<lparr> fh_data_size := d \<rparr>, ra_payload = p \<rparr>"
  have app: "append_fragment ?st (h\<lparr> fh_data_size := ?n \<rparr>) c =
      Inr (cs = [], ?st\<lparr> ra_payload := p @ c \<rparr>)"
  proof -
    from Cons.prems(1) obtain k where k: "length (concat cs) = k" "k = 0 \<longleftrightarrow> cs = []"
      by (auto elim: concat_length_cases [of cs MAX_FRAME_DATA])
    from tot k(1) have "length p + (length c + k) = unat (fh_total_size h)" by simp
    with k(2) n nz show ?thesis
      by (auto simp: append_fragment_def Let_def validate_fragment_consistency_def)
  qed
  have dec: "codec_decode \<lparr> hc_reassembly = Some ?st \<rparr> (frames_bytes h (c # cs) @ rest) =
      (if cs = [] then (rbind (finalize_transaction h (p @ c)) (\<lambda>tx. Inr (Some tx)),
            hotline_codec_new, rest)
       else (Inr None, \<lparr> hc_reassembly = Some (?st\<lparr> ra_payload := p @ c \<rparr>) \<rparr>,
            frames_bytes h cs @ rest))"
    using take_hotline_frame_frame [OF vh c(2), of "frames_bytes h cs @ rest"] app
    by (simp add: codec_decode_def frames_bytes_def finalize_transaction_def hotline_codec_new_def)
  show ?case
  proof (cases "cs = []")
    case True
    with dec show ?thesis
      by (cases "finalize_transaction h (p @ c)") simp_all
  next
    case False
    with dec Cons.IH [of "p @ c"] Cons.prems show ?thesis by simp
  qed
qed simp

lemma pump_fragmentation:
  assumes "fragmentation MAX_FRAME_DATA chunks payload"
    and "fh_flags h = 0" "unat (fh_total_size h) = length payload" "length payload \<le> MAX_PAYLOAD_SIZE"
  shows "pump (length chunks) hotline_codec_new (frames_bytes h chunks @ rest) =
    (rbind (finalize_transaction h payload) (\<lambda>tx. Inr (Some tx)), hotline_codec_new, rest)"
proof -
  from assms(1) obtain c cs where chunks: "chunks = c # cs" and cat: "c @ concat cs = payload"
    and c: "length c \<le> MAX_FRAME_DATA"
    and cs: "\<forall>c\<in>set cs. c \<noteq> [] \<and> length c \<le> MAX_FRAME_DATA"
    and empty: "c = [] \<Longrightarrow> cs = []"
    by (cases chunks) (auto simp: fragmentation_def)
  let ?n = "of_nat (length c) :: u32"
  have n: "unat ?n = length c" using c by simp
  have tot: "length c + length (concat cs) = unat (fh_total_size h)" using assms(3) cat by auto
  have vh: "validate_header (h\<lparr> fh_data_size := ?n \<rparr>) = Inr ()"
    using assms(2-4) c n tot empty
    by (auto simp: validate_header_iff word_le_nat_alt simp flip: unat_eq_0)
  have lt: "?n < fh_total_size h \<longleftrightarrow> cs \<noteq> []"
  proof -
    obtain k where k: "length (concat cs) = k" "k = 0 \<longleftrightarrow> cs = []"
      using cs by (rule concat_length_cases)
    from tot k(1) have "length c + k = unat (fh_total_size h)" by simp
    with n k(2) show ?thesis by (auto simp: word_less_nat_alt)
  qed
  have dec: "codec_decode hotline_codec_new (frames_bytes h chunks @ rest) =
      (if cs = [] then (rbind (finalize_transaction h payload) (\<lambda>tx. Inr (Some tx)),
           hotline_codec_new, rest)
       else (Inr None, \<lparr> hc_reassembly = Some \<lparr> ra_first_header = h\<lparr> fh_data_size := ?n \<rparr>,
           ra_payload = c \<rparr> \<rparr>, frames_bytes h cs @ rest))"
    using take_hotline_frame_frame [OF vh c, of "frames_bytes h cs @ rest"] lt cat
    by (auto simp: codec_decode_def frames_bytes_def finalize_transaction_def hotline_codec_new_def
        chunks)
  show ?thesis
  proof (cases "cs = []")
    case True
    with dec chunks show ?thesis by (cases "finalize_transaction h payload") simp_all
  next
    case False
    then show ?thesis
      using pump_continuations [OF cs False assms(2) _ tot] dec assms(3,4) cat by (simp add: chunks)
  qed
qed

lemma finalize_transaction_eq:
  assumes "fh_flags h = 0" "unat (fh_total_size h) = length payload" "length payload \<le> MAX_PAYLOAD_SIZE"
  shows "finalize_transaction h payload =
    (if length payload > MAX_FRAME_DATA then Inl (InvalidDataTx PayloadTooLarge)
     else rbind (map_err InvalidDataTx (validate_payload_parts
            (h\<lparr> fh_data_size := fh_total_size h \<rparr>) payload)) (\<lambda>_.
       Inr \<lparr> ht_header = h\<lparr> fh_data_size := fh_total_size h \<rparr>, ht_payload = payload \<rparr>))"
  using assms
  by (cases "validate_payload_parts (h\<lparr> fh_data_size := fh_total_size h \<rparr>) payload")
    (auto simp: finalize_transaction_def from_parts_def Let_def)

lemma read_continuations_frames:
  assumes "\<forall>c\<in>set cs. c \<noteq> [] \<and> length c \<le> MAX_FRAME_DATA"
    and "unat acc + length (concat cs) = unat (fh_total_size h)"
  shows "read_continuations (h\<lparr> fh_data_size := d \<rparr>) acc p (frames_bytes h cs @ rest) =
    Inr (p @ concat cs, rest)"
  using assms
proof (induction cs arbitrary: acc p)
  case Nil
  then show ?case
    by (subst read_continuations.simps) (simp add: frames_bytes_def word_less_nat_alt)
next
  case (Cons c cs)
  let ?n = "of_nat (length c) :: u32"
  have c: "c \<noteq> []" "length c \<le> MAX_FRAME_DATA" using Cons.prems(1) by auto
  then have n: "unat ?n = length c" by simp
  have nz: "?n \<noteq> 0" using c n by (metis length_0_conv unat_0)
  have tot: "unat acc + (length c + length (concat cs)) = unat (fh_total_size h)"
    using Cons.prems(2) by simp
  have "0 < length c" using c by simp
  then have lt: "acc < fh_total_size h" using tot unfolding word_less_nat_alt by linarith
  have le: "?n \<le> fh_total_size h - acc" using tot n lt by (simp add: word_le_nat_alt unat_sub)
  have acc: "unat (acc + ?n) = unat acc + length c"
    using tot unat_u32_le [of "fh_total_size h"] by (intro unat_add_u32) linarith
  have hd: "bin_read HEADER_LEN (frame_bytes h c @ xs) =
      Inr (write_bytes (h\<lparr> fh_data_size := ?n \<rparr>), c @ xs)" for xs
    by (simp add: bin_read_def frame_bytes_def)
  have tl: "bin_read (length c) (c @ xs) = Inr (c, xs)" for xs
    by (simp add: bin_read_def)
  have IH: "read_continuations (h\<lparr> fh_data_size := d \<rparr>) (acc + ?n) (p @ c) (frames_bytes h cs @ rest) =
      Inr ((p @ c) @ concat cs, rest)"
    using Cons.prems(1) tot by (intro Cons.IH) (simp_all add: acc)
  have vc: "validate_fragment_consistency (h\<lparr> fh_data_size := d \<rparr>) (h\<lparr> fh_data_size := ?n \<rparr>) = Inr ()"
    by (simp add: validate_fragment_consistency_def)
  have fb: "frames_bytes h (c # cs) @ rest = frame_bytes h c @ frames_bytes h cs @ rest"
    by (simp add: frames_bytes_def)
  show ?case
    unfolding fb using lt le nz n c IH vc
    by (subst read_continuations.simps)
      (simp add: hd tl Let_def not_less del: append_assoc HEADER_LEN_def)
qed

lemma borrow_decode_frames:
  assumes "fragmentation MAX_FRAME_DATA chunks payload"
    and "fh_flags h = 0" "unat (fh_total_size h) = length payload" "length payload \<le> MAX_PAYLOAD_SIZE"
  shows "borrow_decode (frames_bytes h chunks @ rest) =
    Inr (\<lparr> ht_header = h\<lparr> fh_data_size := fh_total_size h \<rparr>, ht_payload = payload \<rparr>, rest)"
proof -
  from assms(1) obtain c cs where chunks: "chunks = c # cs" and cat: "c @ concat cs = payload"
    and c: "length c \<le> MAX_FRAME_DATA"
    and cs: "\<forall>c\<in>set cs. c \<noteq> [] \<and> length c \<le> MAX_FRAME_DATA"
    and empty: "c = [] \<Longrightarrow> cs = []"
    by (cases chunks) (auto simp: fragmentation_def)
  let ?n = "of_nat (length c) :: u32"
  have n: "unat ?n = length c" using c by simp
  have tot: "length c + length (concat cs) = unat (fh_total_size h)" using assms(3) cat by auto
  have vh: "validate_header (h\<lparr> fh_data_size := ?n \<rparr>) = Inr ()"
    using assms(2-4) c n tot empty
    by (auto simp: validate_header_iff word_le_nat_alt simp flip: unat_eq_0)
  have hd: "bin_read HEADER_LEN (frame_bytes h c @ xs) =
      Inr (write_bytes (h\<lparr> fh_data_size := ?n \<rparr>), c @ xs)" for xs
    by (simp add: bin_read_def frame_bytes_def)
  have tl: "(if ?n = 0 then Inr ([], c @ xs) else bin_read (unat ?n) (c @ xs)) = Inr (c, xs)" for xs
    using n by (auto simp: bin_read_def)
  have rc: "read_continuations (h\<lparr> fh_data_size := ?n \<rparr>) ?n c (frames_bytes h cs @ rest) =
      Inr (c @ concat cs, rest)"
    using cs tot n by (intro read_continuations_frames) simp_all
  have fb: "frames_bytes h chunks @ rest = frame_bytes h c @ frames_bytes h cs @ rest"
    by (simp add: chunks frames_bytes_def)
  show ?thesis
    unfolding fb borrow_decode_def hd using vh rc cat tl [of "frames_bytes h cs @ rest"]
    by (auto simp: Let_def)
qed

section \<open>Properties\<close>

definition open_sink :: byte_sink where
  "open_sink = \<lparr> snk_written = [], snk_room = None, snk_end = End_Eof, snk_flush_fault = None \<rparr>"

definition login_tx :: Transaction where
  "login_tx =
     \<lparr> tx_header = \<lparr> fh_flags = 0, fh_is_reply = 0, fh_ty = 107, fh_id = 1, fh_error = 0,
         fh_total_size = 7, fh_data_size = 7 \<rparr>, tx_payload = [0, 1, 0, 105, 0, 1, 97] \<rparr>"

lemma login_tx_valid:
  "validate_payload login_tx = Inr ()" "fh_flags (tx_header login_tx) = 0"
  "fh_total_size (tx_header login_tx) = 7" "length (tx_payload login_tx) = 7"
  by (code_simp, simp_all add: login_tx_def)

text \<open>
  C9: the three encoders agree.  For a valid transaction of at most one mebibyte,
  the legacy writer, the Tokio codec and the bincode encoder put the same bytes on
  the wire.
\<close>

theorem encoders_agree:
  assumes "validate_payload tx = Inr ()" "fh_flags (tx_header tx) = 0"
    and "length (tx_payload tx) \<le> MAX_PAYLOAD_SIZE"
  shows "\<exists>out. (\<exists>tw. write_transaction (writer_new open_sink) tx = Some (Inr (), tw)
                 \<and> snk_written (tw_writer tw) = out)
       \<and> codec_encode \<lparr> ht_header = tx_header tx, ht_payload = tx_payload tx \<rparr> [] = (Inr (), out)
       \<and> ht_encode \<lparr> ht_header = tx_header tx, ht_payload = tx_payload tx \<rparr> = Inr out"
proof -
  let ?out = "frames_bytes (tx_header tx) (fragments MAX_FRAME_DATA (tx_payload tx))"
  have len: "unat (fh_total_size (tx_header tx)) = length (tx_payload tx)"
    using assms(1) by (rule validate_payload_length)
  have "\<exists>tw. write_transaction (writer_new open_sink) tx = Some (Inr (), tw)
      \<and> snk_written (tw_writer tw) = ?out"
    using write_transaction_open [of "writer_new open_sink" tx] assms len writer_wf_intros(1)
    by (simp add: writer_new_def open_sink_def writer_wf_def)
  with assms len show ?thesis
    by (intro exI [of _ ?out]) (simp add: codec_encode_eq ht_encode_eq)
qed

theorem encoders_agree_witness:
  "\<exists>out. (\<exists>tw. write_transaction (writer_new open_sink) login_tx = Some (Inr (), tw)
            \<and> snk_written (tw_writer tw) = out)
     \<and> codec_encode \<lparr> ht_header = tx_header login_tx, ht_payload = tx_payload login_tx \<rparr> [] = (Inr (), out)
     \<and> ht_encode \<lparr> ht_header = tx_header login_tx, ht_payload = tx_payload login_tx \<rparr> = Inr out"
  by (rule encoders_agree) (simp_all add: login_tx_valid)

text \<open>
  The bincode codec round-trips at every size: whatever the encoder accepts,
  the decoder restores, with the header in reassembled form and nothing of what
  follows consumed.
\<close>

lemma bincode_roundtrip:
  assumes "ht_encode ht = Inr out"
  shows "borrow_decode (out @ rest) =
    Inr (ht\<lparr> ht_header := (ht_header ht)\<lparr> fh_data_size := fh_total_size (ht_header ht) \<rparr> \<rparr>, rest)"
proof -
  have ok: "fh_flags (ht_header ht) = 0" "length (ht_payload ht) \<le> MAX_PAYLOAD_SIZE"
    "unat (fh_total_size (ht_header ht)) = length (ht_payload ht)"
    using assms by (auto simp: ht_encode_def u32_try_from_def split: if_splits)
  then have "out = frames_bytes (ht_header ht) (fragments MAX_FRAME_DATA (ht_payload ht))"
    using assms by (simp add: ht_encode_eq)
  then show ?thesis
    using borrow_decode_frames [of "fragments MAX_FRAME_DATA (ht_payload ht)" "ht_payload ht"
        "ht_header ht" rest] fragmentation_fragments [of MAX_FRAME_DATA "ht_payload ht"] ok
    by (cases ht) simp
qed

lemma bincode_roundtrip_sample:
  "\<exists>out. ht_encode \<lparr> ht_header = tx_header login_tx, ht_payload = tx_payload login_tx \<rparr> = Inr out
     \<and> borrow_decode (out @ [1, 2]) =
         Inr (\<lparr> ht_header = tx_header login_tx, ht_payload = tx_payload login_tx \<rparr>, [1, 2])"
proof -
  let ?ht = "\<lparr> ht_header = tx_header login_tx, ht_payload = tx_payload login_tx \<rparr>"
  have "ht_encode ?ht =
      Inr (frames_bytes (ht_header ?ht) (fragments MAX_FRAME_DATA (ht_payload ?ht)))"
    by (rule ht_encode_eq) (simp_all add: login_tx_def)
  then obtain out where out: "ht_encode ?ht = Inr out" by blast
  from bincode_roundtrip [OF this, of "[1, 2]"] out show ?thesis
    by (intro exI [of _ out]) (simp add: login_tx_def)
qed

text \<open>
  The two runtimes take the same wire bytes.  Every transaction the legacy
  reader accepts within the default limit is decoded by the bincode decoder to the
  same header and payload, leaving the same rest.
\<close>

lemma runtimes_decode_alike:
  assumes "read_transaction (reader_at data e MAX_PAYLOAD_SIZE) = Inr (tx, tr')"
  shows "borrow_decode data =
    Inr (\<lparr> ht_header = tx_header tx, ht_payload = tx_payload tx \<rparr>, src_data (tr_reader tr'))"
proof -
  from read_transaction_inv [OF assms] obtain chunks rest where
    "data = frames_bytes (tx_header tx) chunks @ rest" "tr' = reader_at rest e MAX_PAYLOAD_SIZE"
    "fragmentation MAX_FRAME_DATA chunks (tx_payload tx)" "fh_flags (tx_header tx) = 0"
    "validate_payload tx = Inr ()" "unat (fh_total_size (tx_header tx)) \<le> MAX_PAYLOAD_SIZE"
    "fh_data_size (tx_header tx) = fh_total_size (tx_header tx)"
    by blast
  then show ?thesis
    using borrow_decode_frames [of chunks "tx_payload tx" "tx_header tx" rest]
      validate_payload_length [of tx]
    by (cases "tx_header tx") (simp add: reader_at_def)
qed

lemma login_tx_read:
  "read_transaction (reader_at (frames_bytes (tx_header login_tx) [[0, 1, 0, 105], [0, 1, 97]] @ rest)
     e MAX_PAYLOAD_SIZE) = Inr (login_tx, reader_at rest e MAX_PAYLOAD_SIZE)"
  using read_transaction_frames [of "[[0, 1, 0, 105], [0, 1, 97]]" login_tx MAX_PAYLOAD_SIZE rest e]
    login_tx_valid(1)
  by (simp add: fragmentation_def login_tx_def)

lemma runtimes_decode_alike_sample:
  "borrow_decode (frames_bytes (tx_header login_tx) [[0, 1, 0, 105], [0, 1, 97]] @ [5]) =
    Inr (\<lparr> ht_header = tx_header login_tx, ht_payload = tx_payload login_tx \<rparr>, [5])"
  using runtimes_decode_alike [OF login_tx_read [of "[5]" End_Eof]] by (simp add: reader_at_def)

text \<open>
  The two runtimes apply the same header rules: a first header passes
  \<^verbatim>\<open>validate_header\<close> exactly when it passes the legacy check and its frame is at
  most 32 KiB, and a continuation header passes exactly when the legacy reader
  finds it matching.
\<close>

lemma header_checks_agree:
  "(validate_header h = Inr () \<longleftrightarrow>
      validate_first_header h MAX_PAYLOAD_SIZE = Inr () \<and> unat (fh_data_size h) \<le> MAX_FRAME_DATA)
   \<and> (validate_fragment_consistency first next = Inr () \<longleftrightarrow> headers_match first next)"
  by (auto simp: validate_header_iff validate_first_header_def validate_fragment_consistency_iff
      not_less word_gt_0 split: if_splits)

text \<open>
  C10: the Tokio codec reassembles every fragmentation of a valid payload of at most
  32 KiB, one call of \<^verbatim>\<open>decode\<close> per frame, and ends with no reassembly in progress.
\<close>

theorem tokio_codec_reassembles:
  assumes "fragmentation MAX_FRAME_DATA chunks payload"
    and "fh_flags h = 0" "length payload \<le> MAX_FRAME_DATA"
    and "validate_payload_parts h payload = Inr ()"
  shows "pump (length chunks) hotline_codec_new (frames_bytes h chunks @ rest) =
    (Inr (Some \<lparr> ht_header = h\<lparr> fh_data_size := fh_total_size h \<rparr>, ht_payload = payload \<rparr>),
     hotline_codec_new, rest)"
proof -
  have len: "unat (fh_total_size h) = length payload"
    using assms(4) by (simp add: validate_payload_parts_iff)
  moreover have "validate_payload_parts (h\<lparr> fh_data_size := fh_total_size h \<rparr>) payload = Inr ()"
    using assms(4) by (simp add: validate_payload_parts_iff context_from_header_def)
  ultimately show ?thesis
    using assms by (simp add: pump_fragmentation finalize_transaction_eq)
qed

theorem tokio_codec_reassembles_witness:
  "pump 2 hotline_codec_new (frames_bytes (tx_header login_tx) [[0, 1, 0, 105], [0, 1, 97]] @ [5]) =
    (Inr (Some \<lparr> ht_header = tx_header login_tx, ht_payload = tx_payload login_tx \<rparr>),
     hotline_codec_new, [5])"
  using tokio_codec_reassembles [of "[[0, 1, 0, 105], [0, 1, 97]]" "tx_payload login_tx"
      "tx_header login_tx" "[5]"] login_tx_valid(1)
  by (simp add: fragmentation_def login_tx_def validate_payload_def numeral_2_eq_2)

text \<open>
  C11: the Tokio codec cannot read back what it writes above 32 KiB.  It encodes
  such a transaction without complaint, in frames that each respect the limit, but
  after the last of them \<^verbatim>\<open>decode\<close> fails with \<^verbatim>\<open>PayloadTooLarge\<close>, because the
  reassembled header is checked against the limit of a single frame.
\<close>

theorem tokio_codec_large_fails:
  assumes "fh_flags (ht_header ht) = 0" "unat (fh_total_size (ht_header ht)) = length (ht_payload ht)"
    and "length (ht_payload ht) \<le> MAX_PAYLOAD_SIZE" "length (ht_payload ht) > MAX_FRAME_DATA"
  shows "\<exists>out. codec_encode ht [] = (Inr (), out)
    \<and> fst (pump (length (fragments MAX_FRAME_DATA (ht_payload ht))) hotline_codec_new out) =
        Inl (InvalidDataTx PayloadTooLarge)"
  using assms pump_fragmentation [of "fragments MAX_FRAME_DATA (ht_payload ht)" "ht_payload ht"
      "ht_header ht" "[]"] fragmentation_fragments [of MAX_FRAME_DATA "ht_payload ht"]
  by (simp add: codec_encode_eq finalize_transaction_eq)

definition big_ht :: HotlineTransaction where
  "big_ht =
     \<lparr> ht_header = \<lparr> fh_flags = 0, fh_is_reply = 1, fh_ty = 400, fh_id = 1, fh_error = 0,
         fh_total_size = 40000, fh_data_size = 40000 \<rparr>, ht_payload = replicate 40000 0 \<rparr>"

theorem tokio_codec_large_fails_witness:
  "\<exists>out. codec_encode big_ht [] = (Inr (), out)
    \<and> fst (pump (length (fragments MAX_FRAME_DATA (ht_payload big_ht))) hotline_codec_new out) =
        Inl (InvalidDataTx PayloadTooLarge)"
  by (rule tokio_codec_large_fails) (simp_all add: big_ht_def)

end
