(* ===== verification/Message_Assembly.thy ===== *)
theory Message_Assembly
  imports Codec
begin

text \<open>
  The inbound path of the wireframe runtime: route ids
  (src/src/wireframe/route_ids.rs), the internal assembly payload and its parser
  (src/src/wireframe/message_assembly.rs), and the series tracker and frame codec
  of src/src/wireframe/codec/frame.rs.  The increment of wireframe's
  \<^verbatim>\<open>FrameSequence\<close> and the serialisation of its \<^verbatim>\<open>Envelope\<close> are parameters; time is
  in milliseconds and read once per call.
\<close>

section \<open>Routes and message keys\<close>

definition FALLBACK_ROUTE_ID :: u32 where [simp]: "FALLBACK_ROUTE_ID = 0"

definition ROUTE_IDS :: "u32 list" where
  "ROUTE_IDS = [107, 121, 200, 300, 303, 304, 370, 371, 400, 410]"

definition route_id_for :: "u16 \<Rightarrow> u32" where
  "route_id_for transaction_type =
     (let id' = ucast transaction_type in if id' \<in> set ROUTE_IDS then id' else FALLBACK_ROUTE_ID)"

definition message_key_for :: "FrameHeader \<Rightarrow> u64" where
  "message_key_for header =
     or (push_bit 63 (ucast (and (fh_is_reply header) 1)))
        (or (push_bit 32 (ucast (fh_ty header))) (ucast (fh_id header)))"

section \<open>Assembly payloads\<close>

definition HOTLINE_LOGICAL_MESSAGE_BYTES :: nat where
  "HOTLINE_LOGICAL_MESSAGE_BYTES = HEADER_LEN + MAX_PAYLOAD_SIZE"
definition FIRST_FRAME_TAG :: byte where [simp]: "FIRST_FRAME_TAG = 0"
definition CONTINUATION_FRAME_TAG :: byte where [simp]: "CONTINUATION_FRAME_TAG = 1"
definition FIRST_FRAME_HEADER_LEN :: nat where [simp]: "FIRST_FRAME_HEADER_LEN = 1 + 8 + 4 + 4"
definition CONTINUATION_FRAME_HEADER_LEN :: nat where
  [simp]: "CONTINUATION_FRAME_HEADER_LEN = 1 + 8 + 4 + 1 + 4"

datatype AssemblyFrameTag = AFT_First | AFT_Continuation

record FramePayloadSpec =
  fps_tag :: byte
  fps_middle :: bytes
  fps_metadata :: bytes
  fps_body_len_err :: string

definition assemble_frame_payload ::
  "FramePayloadSpec \<Rightarrow> u64 \<Rightarrow> bytes \<Rightarrow> (io_error, bytes) result" where
  "assemble_frame_payload spec message_key body =
     rbind (ok_or (InvalidData (fps_body_len_err spec)) (u32_try_from (length body))) (\<lambda>body_len.
       Inr ([fps_tag spec] @ to_be_bytes_u64 message_key @ fps_middle spec
         @ to_be_bytes_u32 body_len @ fps_metadata spec @ body))"

definition logical_header_bytes :: "FrameHeader \<Rightarrow> bytes" where
  "logical_header_bytes header = write_bytes (header\<lparr> fh_data_size := fh_total_size header \<rparr>)"

definition first_frame_payload :: "u64 \<Rightarrow> FrameHeader \<Rightarrow> bytes \<Rightarrow> (io_error, bytes) result" where
  "first_frame_payload message_key header body =
     assemble_frame_payload
       \<lparr> fps_tag = FIRST_FRAME_TAG, fps_middle = to_be_bytes_u32 (fh_total_size header),
         fps_metadata = logical_header_bytes header,
         fps_body_len_err = ''Hotline first-frame body length exceeds u32'' \<rparr> message_key body"

definition continuation_frame_payload ::
  "u64 \<Rightarrow> u32 \<Rightarrow> bool \<Rightarrow> bytes \<Rightarrow> (io_error, bytes) result" where
  "continuation_frame_payload message_key sequence is_last body =
     assemble_frame_payload
       \<lparr> fps_tag = CONTINUATION_FRAME_TAG,
         fps_middle = to_be_bytes_u32 sequence @ [if is_last then 1 else 0],
         fps_metadata = [],
         fps_body_len_err = ''Hotline continuation body length exceeds u32'' \<rparr> message_key body"

section \<open>The assembly parser\<close>

text \<open>wireframe's parsed header: the frame kind and the length of the header before it.\<close>

datatype AssemblyFrameHeader =
    AF_First (af_key: u64) (af_metadata_len: nat) (af_body_len: nat) (af_total: "nat option")
      (af_last: bool)
  | AF_Continuation (af_key: u64) (af_sequence: "u32 option") (af_body_len: nat) (af_last: bool)

type_synonym ParsedFrameHeader = "AssemblyFrameHeader \<times> nat"

definition short_payload_error :: "string \<Rightarrow> io_error" where
  "short_payload_error message = UnexpectedEofErr message"

fun parse_frame_tag :: "byte \<Rightarrow> (io_error, AssemblyFrameTag) result" where
  "parse_frame_tag tag =
     (if tag = FIRST_FRAME_TAG then Inr AFT_First
      else if tag = CONTINUATION_FRAME_TAG then Inr AFT_Continuation
      else Inl (InvalidData (''unknown Hotline assembly frame tag: '' @ show_nat (unat tag))))"

definition parse_last_flag :: "byte \<Rightarrow> (io_error, bool) result" where
  "parse_last_flag flag =
     (if flag = 0 then Inr False
      else if flag = 1 then Inr True
      else Inl (InvalidData
        (''invalid Hotline continuation last-flag value: '' @ show_nat (unat flag))))"

record PayloadCursor =
  pc_payload :: bytes
  pc_pos :: nat

definition cursor_new :: "bytes \<Rightarrow> PayloadCursor" where
  "cursor_new payload = \<lparr> pc_payload = payload, pc_pos = 0 \<rparr>"

definition cursor_take :: "PayloadCursor \<Rightarrow> nat \<Rightarrow> string \<Rightarrow> (io_error, bytes \<times> PayloadCursor) result" where
  "cursor_take c len context =
     (let end' = pc_pos c + len in
      if end' \<le> length (pc_payload c)
      then Inr (slice (pc_pos c) end' (pc_payload c), c\<lparr> pc_pos := end' \<rparr>)
      else Inl (short_payload_error context))"

definition cursor_u8 :: "PayloadCursor \<Rightarrow> string \<Rightarrow> (io_error, byte \<times> PayloadCursor) result" where
  "cursor_u8 c context = rbind (cursor_take c 1 context) (\<lambda>(bs, c'). Inr (bs ! 0, c'))"

definition cursor_u32 :: "PayloadCursor \<Rightarrow> string \<Rightarrow> (io_error, u32 \<times> PayloadCursor) result" where
  "cursor_u32 c context = rbind (cursor_take c 4 context) (\<lambda>(bs, c'). Inr (dec_u32 bs, c'))"

definition cursor_u64 :: "PayloadCursor \<Rightarrow> string \<Rightarrow> (io_error, u64 \<times> PayloadCursor) result" where
  "cursor_u64 c context = rbind (cursor_take c 8 context) (\<lambda>(bs, c'). Inr (dec_u64 bs, c'))"

definition parse_logical_header :: "bytes \<Rightarrow> (io_error, FrameHeader) result" where
  "parse_logical_header payload =
     (let metadata_start = FIRST_FRAME_HEADER_LEN; metadata_end = metadata_start + HEADER_LEN in
      if metadata_end \<le> length payload then Inr (from_bytes (slice metadata_start metadata_end payload))
      else Inl (short_payload_error ''missing Hotline logical metadata header''))"

definition parse_first_frame_header :: "bytes \<Rightarrow> (io_error, ParsedFrameHeader) result" where
  "parse_first_frame_header payload =
     (if length payload < FIRST_FRAME_HEADER_LEN + HEADER_LEN
      then Inl (short_payload_error ''Hotline first-frame payload shorter than metadata header'')
      else
        rbind (cursor_u8 (cursor_new payload) ''missing Hotline assembly tag'') (\<lambda>(tag, c1).
        rbind (cursor_u64 c1 ''missing first-frame message key'') (\<lambda>(message_key, c2).
        rbind (cursor_u32 c2 ''missing first-frame total body length'') (\<lambda>(total, c3).
        rbind (cursor_u32 c3 ''missing first-frame body length'') (\<lambda>(body, c4).
          let total_body_len = unat total; body_len = unat body in
          if body_len > total_body_len
            then Inl (InvalidData ''Hotline first-frame body length exceeds total length'')
          else if length payload \<noteq> FIRST_FRAME_HEADER_LEN + HEADER_LEN + body_len
            then Inl (InvalidData
              ''Hotline first-frame payload length does not match declared body length'')
          else
            rbind (parse_logical_header payload) (\<lambda>logical_header.
              if unat (fh_total_size logical_header) \<noteq> total_body_len
                 \<or> fh_data_size logical_header \<noteq> fh_total_size logical_header
              then Inl (InvalidData
                ''Hotline first-frame logical header length does not match declared total length'')
              else Inr (AF_First message_key HEADER_LEN body_len (Some total_body_len)
                          (body_len = total_body_len),
                        FIRST_FRAME_HEADER_LEN)))))))"

definition parse_continuation_frame_header :: "bytes \<Rightarrow> (io_error, ParsedFrameHeader) result" where
  "parse_continuation_frame_header payload =
     (if length payload < CONTINUATION_FRAME_HEADER_LEN
      then Inl (short_payload_error ''Hotline continuation payload shorter than metadata header'')
      else
        rbind (cursor_u8 (cursor_new payload) ''missing Hotline assembly tag'') (\<lambda>(tag, c1).
        rbind (cursor_u64 c1 ''missing continuation message key'') (\<lambda>(message_key, c2).
        rbind (cursor_u32 c2 ''missing continuation sequence'') (\<lambda>(sequence, c3).
        rbind (cursor_u8 c3 ''missing continuation last flag'') (\<lambda>(flag, c4).
        rbind (parse_last_flag flag) (\<lambda>is_last.
        rbind (cursor_u32 c4 ''missing continuation body length'') (\<lambda>(body, c5).
          let body_len = unat body in
          if length payload \<noteq> CONTINUATION_FRAME_HEADER_LEN + body_len
            then Inl (InvalidData
              ''Hotline continuation payload length does not match declared body length'')
          else Inr (AF_Continuation message_key (Some sequence) body_len is_last,
                    CONTINUATION_FRAME_HEADER_LEN))))))))"

definition parse_frame_header :: "bytes \<Rightarrow> (io_error, ParsedFrameHeader) result" where
  "parse_frame_header payload =
     (case payload of
        [] \<Rightarrow> Inl (short_payload_error ''missing Hotline assembly tag'')
      | tag # _ \<Rightarrow>
          rbind (parse_frame_tag tag) (\<lambda>t. case t of
            AFT_First \<Rightarrow> parse_first_frame_header payload
          | AFT_Continuation \<Rightarrow> parse_continuation_frame_header payload))"

section \<open>The series tracker\<close>

definition SERIES_TIMEOUT :: nat where [simp]: "SERIES_TIMEOUT = 5000"

record InboundSeriesState =
  is_first_header :: FrameHeader
  is_message_key :: u64
  is_remaining :: nat
  is_next_sequence :: u32
  is_deadline :: nat

type_synonym tracker = "InboundSeriesState option"

definition has_active_series :: "tracker \<Rightarrow> bool" where
  "has_active_series t \<longleftrightarrow> t \<noteq> None"

definition series_start ::
  "nat \<Rightarrow> tracker \<Rightarrow> FrameHeader \<Rightarrow> bytes \<Rightarrow> (io_error, bytes) result \<times> tracker" where
  "series_start now t header payload =
     (let message_key = message_key_for header; total = unat (fh_total_size header) in
      if length payload > total
      then (Inl (InvalidData ''first fragment exceeds declared total size''), t)
      else
        (let remaining = total - length payload;
             t' = (if remaining > 0
                   then Some \<lparr> is_first_header = header, is_message_key = message_key,
                          is_remaining = remaining, is_next_sequence = 1,
                          is_deadline = now + SERIES_TIMEOUT \<rparr>
                   else t) in
         (first_frame_payload message_key header payload, t')))"

definition fail_if_timed_out :: "nat \<Rightarrow> InboundSeriesState \<Rightarrow> (io_error, unit) result \<times> tracker" where
  "fail_if_timed_out now series =
     (if now > is_deadline series
      then (Inl (InvalidData ''fragmented Hotline request timed out waiting for continuation''), None)
      else (Inr (), Some series))"

definition continue_series ::
  "(u32 \<Rightarrow> u32 option) \<Rightarrow> nat \<Rightarrow> tracker \<Rightarrow> FrameHeader \<Rightarrow> bytes
     \<Rightarrow> (io_error, bytes) result \<times> tracker" where
  "continue_series checked_increment now t header payload =
     (case t of
        None \<Rightarrow> (Inl (InvalidData ''continuation fragment arrived without an active series''), t)
      | Some series \<Rightarrow>
          (case fail_if_timed_out now series of
             (Inl e, t') \<Rightarrow> (Inl e, t')
           | (Inr _, _) \<Rightarrow>
               (case map_err InvalidData
                       (validate_fragment_consistency (is_first_header series) header) of
                  Inl e \<Rightarrow> (Inl e, t)
                | Inr _ \<Rightarrow>
                    (let data_size = length payload; remaining = is_remaining series in
                     if data_size = 0 \<and> remaining > 0
                       then (Inl (InvalidData ''continuation fragment made no progress''), None)
                     else if data_size > remaining
                       then (Inl (InvalidData ''fragment exceeds remaining payload size''), None)
                     else
                       (let is_last = (data_size = remaining); sequence = is_next_sequence series in
                        if is_last
                        then (continuation_frame_payload (is_message_key series) sequence is_last payload,
                              None)
                        else (case checked_increment sequence of
                            None \<Rightarrow> (Inl (InvalidData
                              ''fragment sequence overflow while tracking continuation''), t)
                          | Some next_sequence \<Rightarrow>
                              (continuation_frame_payload (is_message_key series) sequence is_last payload,
                               Some (series\<lparr> is_remaining := remaining - data_size,
                                             is_next_sequence := next_sequence,
                                             is_deadline := now + SERIES_TIMEOUT \<rparr>))))))))"

record Envelope =
  env_id :: u32
  env_correlation :: "u64 option"
  env_payload :: bytes

definition frame_decode ::
  "(u32 \<Rightarrow> u32 option) \<Rightarrow> (Envelope \<Rightarrow> (string, bytes) result) \<Rightarrow> nat \<Rightarrow> tracker \<Rightarrow> bytes
    \<Rightarrow> (io_error, bytes option) result \<times> tracker \<times> bytes" where
  "frame_decode checked_increment to_bytes' now t src =
     (case take_hotline_frame src of
        (Inl e, src') \<Rightarrow> (Inl e, t, src')
      | (Inr None, src') \<Rightarrow> (Inr None, t, src')
      | (Inr (Some (header, payload)), src') \<Rightarrow>
          (case (if has_active_series t then continue_series checked_increment now t header payload
                 else series_start now t header payload) of
             (Inl e, t') \<Rightarrow> (Inl e, t', src')
           | (Inr envelope_payload, t') \<Rightarrow>
               (rbind (map_err InvalidData (to_bytes'
                  \<lparr> env_id = route_id_for (fh_ty header),
                    env_correlation = Some (ucast (fh_id header)),
                    env_payload = envelope_payload \<rparr>)) (\<lambda>bytes. Inr (Some bytes)), t', src')))"

definition frame_encode ::
  "(bytes \<Rightarrow> (string, Envelope) result) \<Rightarrow> bytes \<Rightarrow> bytes \<Rightarrow> (io_error, unit) result \<times> bytes" where
  "frame_encode from_bytes' item dst =
     (case rbind (map_err InvalidData (from_bytes' item)) (\<lambda>envelope.
             rbind (map_err InvalidDataTx (parse_transaction (env_payload envelope))) (\<lambda>parsed.
               map_err InvalidDataTx (ht_try_from parsed))) of
        Inl e \<Rightarrow> (Inl e, dst)
      | Inr tx \<Rightarrow> codec_encode tx dst)"

section \<open>Building and parsing assembly payloads\<close>

definition first_bytes :: "u64 \<Rightarrow> FrameHeader \<Rightarrow> bytes \<Rightarrow> bytes" where
  "first_bytes key h body =
     [0] @ to_be_bytes_u64 key @ to_be_bytes_u32 (fh_total_size h)
     @ to_be_bytes_u32 (of_nat (length body)) @ logical_header_bytes h @ body"

definition continuation_bytes :: "u64 \<Rightarrow> u32 \<Rightarrow> bool \<Rightarrow> bytes \<Rightarrow> bytes" where
  "continuation_bytes key s is_last body =
     [1] @ to_be_bytes_u64 key @ to_be_bytes_u32 s @ [if is_last then 1 else 0]
     @ to_be_bytes_u32 (of_nat (length body)) @ body"

lemma first_frame_payload_eq:
  "length body \<le> u32_max \<Longrightarrow> first_frame_payload key h body = Inr (first_bytes key h body)"
  by (simp add: first_frame_payload_def assemble_frame_payload_def first_bytes_def u32_try_from_def)

lemma continuation_frame_payload_eq:
  "length body \<le> u32_max \<Longrightarrow>
     continuation_frame_payload key s l body = Inr (continuation_bytes key s l body)"
  by (simp add: continuation_frame_payload_def assemble_frame_payload_def continuation_bytes_def
      u32_try_from_def)

lemma cursor_reads:
  "pos + 1 \<le> length p \<Longrightarrow> cursor_u8 \<lparr> pc_payload = p, pc_pos = pos \<rparr> ctx =
     Inr (p ! pos, \<lparr> pc_payload = p, pc_pos = pos + 1 \<rparr>)"
  "pos + 4 \<le> length p \<Longrightarrow> cursor_u32 \<lparr> pc_payload = p, pc_pos = pos \<rparr> ctx =
     Inr (dec_u32 (drop pos p), \<lparr> pc_payload = p, pc_pos = pos + 4 \<rparr>)"
  "pos + 8 \<le> length p \<Longrightarrow> cursor_u64 \<lparr> pc_payload = p, pc_pos = pos \<rparr> ctx =
     Inr (dec_u64 (drop pos p), \<lparr> pc_payload = p, pc_pos = pos + 8 \<rparr>)"
  using u32c.dec_take [of "drop pos p"] u64c.dec_take [of "drop pos p"]
  by (simp_all add: cursor_u8_def cursor_u32_def cursor_u64_def cursor_take_def Let_def slice_def)

lemma length_logical_header [simp]: "length (logical_header_bytes h) = 20"
  by (simp add: logical_header_bytes_def)

lemma first_bytes_layout:
  "length (first_bytes key h body) = 37 + length body"
  "first_bytes key h body = 0 # tl (first_bytes key h body)"
  "dec_u64 (drop 1 (first_bytes key h body)) = key"
  "dec_u32 (drop 9 (first_bytes key h body)) = fh_total_size h"
  "dec_u32 (drop 13 (first_bytes key h body)) = of_nat (length body)"
  "drop 17 (first_bytes key h body) = logical_header_bytes h @ body"
  by (simp_all add: first_bytes_def u64c.dec_enc u32c.dec_enc)

lemma continuation_bytes_layout:
  "length (continuation_bytes key s l body) = 18 + length body"
  "continuation_bytes key s l body = 1 # tl (continuation_bytes key s l body)"
  "dec_u64 (drop 1 (continuation_bytes key s l body)) = key"
  "dec_u32 (drop 9 (continuation_bytes key s l body)) = s"
  "continuation_bytes key s l body ! 13 = (if l then 1 else 0)"
  "dec_u32 (drop 14 (continuation_bytes key s l body)) = of_nat (length body)"
  "drop 18 (continuation_bytes key s l body) = body"
  by (simp_all add: continuation_bytes_def u64c.dec_enc u32c.dec_enc nth_append)

lemma parse_first_bytes:
  assumes "length body \<le> unat (fh_total_size h)"
  shows "parse_frame_header (first_bytes key h body) =
    Inr (AF_First key 20 (length body) (Some (unat (fh_total_size h)))
           (length body = unat (fh_total_size h)), 17)"
proof -
  let ?p = "first_bytes key h body"
  note lay = first_bytes_layout [of key h body]
  have len: "length body \<le> u32_max" using assms order_trans unat_u32_le by blast
  have hdr: "from_bytes (slice 17 37 ?p) = h\<lparr> fh_data_size := fh_total_size h \<rparr>"
    using lay(6) by (simp add: slice_def logical_header_bytes_def)
  have "parse_first_frame_header ?p =
    Inr (AF_First key 20 (length body) (Some (unat (fh_total_size h)))
           (length body = unat (fh_total_size h)), 17)"
    using assms len lay(1,3-5) hdr
    by (simp add: parse_first_frame_header_def cursor_new_def cursor_reads parse_logical_header_def
        Let_def)
  moreover obtain r where "?p = 0 # r" using lay(2) by blast
  ultimately show ?thesis by (simp add: parse_frame_header_def)
qed

lemma parse_continuation_bytes:
  assumes "length body \<le> u32_max"
  shows "parse_frame_header (continuation_bytes key s l body) =
    Inr (AF_Continuation key (Some s) (length body) l, 18)"
proof -
  let ?p = "continuation_bytes key s l body"
  note lay = continuation_bytes_layout [of key s l body]
  have "parse_continuation_frame_header ?p = Inr (AF_Continuation key (Some s) (length body) l, 18)"
    using assms lay(1,3-6)
    by (simp add: parse_continuation_frame_header_def cursor_new_def cursor_reads parse_last_flag_def
        Let_def)
  moreover obtain r where "?p = 1 # r" using lay(2) by blast
  ultimately show ?thesis by (simp add: parse_frame_header_def)
qed

section \<open>A series of frames\<close>

text \<open>Successive calls of \<^verbatim>\<open>decode\<close> on one buffer, at the given times.\<close>

fun decode_series ::
  "(u32 \<Rightarrow> u32 option) \<Rightarrow> (Envelope \<Rightarrow> (string, bytes) result) \<Rightarrow> nat list \<Rightarrow> tracker \<Rightarrow> bytes
    \<Rightarrow> (io_error, bytes option) result list \<times> tracker \<times> bytes" where
  "decode_series incr env [] t src = ([], t, src)"
| "decode_series incr env (now # ts) t src =
     (case frame_decode incr env now t src of
        (r, t', src') \<Rightarrow> (case decode_series incr env ts t' src' of
          (rs, t'', src'') \<Rightarrow> (r # rs, t'', src'')))"

fun timely :: "nat \<Rightarrow> nat list \<Rightarrow> bool" where
  "timely deadline [] \<longleftrightarrow> True"
| "timely deadline (t # ts) \<longleftrightarrow> t \<le> deadline \<and> timely (t + SERIES_TIMEOUT) ts"

definition emitted :: "(Envelope \<Rightarrow> (string, bytes) result) \<Rightarrow> FrameHeader \<Rightarrow> bytes
    \<Rightarrow> (io_error, bytes option) result" where
  "emitted env h payload =
     rbind (map_err InvalidData (env \<lparr> env_id = route_id_for (fh_ty h),
       env_correlation = Some (ucast (fh_id h)), env_payload = payload \<rparr>)) (\<lambda>bs. Inr (Some bs))"

fun continuation_payloads :: "u64 \<Rightarrow> u32 \<Rightarrow> bytes list \<Rightarrow> bytes list" where
  "continuation_payloads key s [] = []"
| "continuation_payloads key s (c # cs) =
     continuation_bytes key s (cs = []) c # continuation_payloads key (s + 1) cs"

lemma unat_minus_one_u32: "unat s < u32_max \<Longrightarrow> s \<noteq> (- 1 :: u32)"
  by (auto simp: unsigned_minus_1_eq_mask mask_eq_exp_minus_1)

lemma decode_series_continuations:
  assumes incr: "\<And>s. s \<noteq> - 1 \<Longrightarrow> incr s = Some (s + 1)"
    and "\<forall>c\<in>set cs. c \<noteq> [] \<and> length c \<le> MAX_FRAME_DATA"
    and "fh_flags h = 0" "unat (fh_total_size h) \<le> MAX_PAYLOAD_SIZE"
    and "length (concat cs) \<le> unat (fh_total_size h)"
    and "unat s + length cs \<le> u32_max" "timely d ts" "length ts = length cs"
  shows "decode_series incr env ts
      (if cs = [] then None else Some \<lparr> is_first_header = h\<lparr> fh_data_size := k \<rparr>, is_message_key = key,
        is_remaining = length (concat cs), is_next_sequence = s, is_deadline = d \<rparr>)
      (frames_bytes h cs @ rest) =
    (map (emitted env h) (continuation_payloads key s cs), None, rest)"
  using assms(2,5-)
proof (induction cs arbitrary: s d ts)
  case Nil
  then show ?case by (simp add: frames_bytes_def)
next
  case (Cons c cs)
  obtain now ts' where ts: "ts = now # ts'" using Cons.prems(5) by (cases ts) auto
  let ?n = "of_nat (length c) :: u32"
  let ?h = "h\<lparr> fh_data_size := ?n \<rparr>"
  have c: "c \<noteq> []" "length c \<le> MAX_FRAME_DATA" using Cons.prems(1) by auto
  then have n: "unat ?n = length c" by simp
  have nz: "?n \<noteq> 0" using c n by (metis length_0_conv unat_0)
  have vh: "validate_header ?h = Inr ()"
    using assms(3,4) c n nz Cons.prems(2) by (simp add: validate_header_iff word_le_nat_alt)
  obtain m where m: "length (concat cs) = m" "m = 0 \<longleftrightarrow> cs = []"
    using Cons.prems(1) by (auto elim: concat_length_cases [of cs MAX_FRAME_DATA])
  have s: "s \<noteq> - 1" if "cs \<noteq> []"
    using Cons.prems(3) that by (intro unat_minus_one_u32) (cases cs, auto)
  have s1: "unat (s + 1) = unat s + 1"
    using unat_add_u32 [of s 1] Cons.prems(3) by simp
  let ?st = "\<lparr> is_first_header = h\<lparr> fh_data_size := k \<rparr>, is_message_key = key,
    is_remaining = length c + m, is_next_sequence = s, is_deadline = d \<rparr>"
  let ?t' = "if cs = [] then None else Some \<lparr> is_first_header = h\<lparr> fh_data_size := k \<rparr>,
    is_message_key = key, is_remaining = length (concat cs), is_next_sequence = s + 1,
    is_deadline = now + SERIES_TIMEOUT \<rparr>"
  have cont: "continue_series incr now (Some ?st) ?h c =
      (Inr (continuation_bytes key s (cs = []) c), ?t')"
    using Cons.prems(4) ts c m incr s
    by (auto simp: continue_series_def fail_if_timed_out_def validate_fragment_consistency_def Let_def
        continuation_frame_payload_eq)
  have fb: "frames_bytes h (c # cs) @ rest = frame_bytes h c @ frames_bytes h cs @ rest"
    by (simp add: frames_bytes_def)
  have step: "frame_decode incr env now (Some ?st) (frames_bytes h (c # cs) @ rest) =
      (emitted env h (continuation_bytes key s (cs = []) c), ?t', frames_bytes h cs @ rest)"
    unfolding fb using cont
    by (simp add: frame_decode_def take_hotline_frame_frame [OF vh c(2)] has_active_series_def emitted_def)
  have IH: "decode_series incr env ts' ?t' (frames_bytes h cs @ rest) =
      (map (emitted env h) (continuation_payloads key (s + 1) cs), None, rest)"
    using Cons.prems s1 by (intro Cons.IH) (auto simp: ts)
  have "(if c # cs = [] then None else Some \<lparr> is_first_header = h\<lparr> fh_data_size := k \<rparr>,
      is_message_key = key, is_remaining = length (concat (c # cs)), is_next_sequence = s,
      is_deadline = d \<rparr>) = Some ?st"
    by (simp add: m(1))
  then show ?case
    unfolding ts by (simp only: decode_series.simps step IH prod.case list.map continuation_payloads.simps)
qed

lemma series_first:
  assumes "c = [] \<longrightarrow> cs = []" "length c \<le> MAX_FRAME_DATA"
    and "\<forall>c\<in>set cs. c \<noteq> []"
    and "fh_flags h = 0" "unat (fh_total_size h) \<le> MAX_PAYLOAD_SIZE"
    and "unat (fh_total_size h) = length c + length (concat cs)"
  shows "frame_decode incr env now None (frames_bytes h (c # cs) @ rest) =
     (emitted env h (first_bytes (message_key_for h) (h\<lparr> fh_data_size := of_nat (length c) \<rparr>) c),
      (if cs = [] then None else Some \<lparr> is_first_header = h\<lparr> fh_data_size := of_nat (length c) \<rparr>,
        is_message_key = message_key_for h, is_remaining = length (concat cs), is_next_sequence = 1,
        is_deadline = now + SERIES_TIMEOUT \<rparr>),
      frames_bytes h cs @ rest)"
proof -
  let ?n = "of_nat (length c) :: u32"
  let ?h = "h\<lparr> fh_data_size := ?n \<rparr>"
  have n: "unat ?n = length c" using assms(2) by simp
  have z: "fh_total_size h = 0 \<longleftrightarrow> c = []"
    using assms(1,6) by (auto simp: unat_eq_0 [symmetric])
  have "?n = 0 \<longleftrightarrow> c = []" using n by (metis length_0_conv unat_eq_0)
  then have vh: "validate_header ?h = Inr ()"
    using assms(2,4-6) n z by (simp add: validate_header_iff word_le_nat_alt)
  have cc: "concat cs = [] \<longleftrightarrow> cs = []" using assms(3) by (cases cs) auto
  have key: "message_key_for ?h = message_key_for h" by (simp add: message_key_for_def)
  have fb: "frames_bytes h (c # cs) @ rest = frame_bytes h c @ frames_bytes h cs @ rest"
    by (simp add: frames_bytes_def)
  have "length c \<le> u32_max" using assms(2) by simp
  then show ?thesis
    unfolding fb using assms(6) cc
    by (simp add: frame_decode_def take_hotline_frame_frame [OF vh assms(2)] has_active_series_def
        series_start_def Let_def first_frame_payload_eq emitted_def key)
qed

text \<open>The payloads that a fragmented message is handed on as.\<close>

definition series_payloads :: "FrameHeader \<Rightarrow> bytes list \<Rightarrow> bytes list" where
  "series_payloads h chunks =
     (case chunks of
        [] \<Rightarrow> []
      | c # cs \<Rightarrow> first_bytes (message_key_for h) (h\<lparr> fh_data_size := of_nat (length c) \<rparr>) c
          # continuation_payloads (message_key_for h) 1 cs)"

lemma fragmentation_split:
  assumes "fragmentation n chunks p"
  obtains c cs where "chunks = c # cs" "p = c @ concat cs" "c = [] \<longrightarrow> cs = []"
    "\<forall>c\<in>set (c # cs). length c \<le> n" "\<forall>c\<in>set cs. c \<noteq> []"
proof (cases chunks)
  case Nil
  then show ?thesis using assms by (simp add: fragmentation_def)
next
  case (Cons c cs)
  then show ?thesis using assms that [of c cs] by (auto simp: fragmentation_def)
qed

lemma length_le_concat: "\<forall>c\<in>set cs. c \<noteq> [] \<Longrightarrow> length cs \<le> length (concat cs)"
proof (induction cs)
  case (Cons c cs)
  then have "1 \<le> length c" "length cs \<le> length (concat cs)"
    by (auto simp: Suc_le_eq)
  then show ?case by simp
qed simp

lemma decode_series_fragmentation:
  assumes incr: "\<And>s. s \<noteq> - 1 \<Longrightarrow> incr s = Some (s + 1)"
    and frag: "fragmentation MAX_FRAME_DATA chunks payload"
    and h: "fh_flags h = 0" "unat (fh_total_size h) = length payload"
    and len: "length payload \<le> MAX_PAYLOAD_SIZE"
    and ts: "length (now # ts) = length chunks" "timely (now + SERIES_TIMEOUT) ts"
  shows "decode_series incr env (now # ts) None (frames_bytes h chunks @ rest) =
    (map (emitted env h) (series_payloads h chunks), None, rest)"
proof -
  obtain c cs where cs: "chunks = c # cs" "payload = c @ concat cs" "c = [] \<longrightarrow> cs = []"
    "\<forall>c\<in>set (c # cs). length c \<le> MAX_FRAME_DATA" "\<forall>c\<in>set cs. c \<noteq> []"
    using frag by (rule fragmentation_split)
  have lcs: "unat (1 :: u32) + length cs \<le> u32_max"
    using len cs(2) length_le_concat [OF cs(5)] by simp
  note first = series_first [of c cs h incr env now rest]
  note rest = decode_series_continuations [of incr cs h 1 "now + SERIES_TIMEOUT" ts env
      "of_nat (length c)" "message_key_for h" rest]
  show ?thesis
    unfolding cs(1)
    using first rest incr cs h len ts lcs
    by (simp add: series_payloads_def del: SERIES_TIMEOUT_def)
qed

text \<open>What is left of a payload behind its parsed header.\<close>

definition frame_content :: "bytes \<Rightarrow> bytes" where
  "frame_content p = (case parse_frame_header p of Inr (_, n) \<Rightarrow> drop n p | Inl _ \<Rightarrow> [])"

lemma length_continuation_payloads [simp]: "length (continuation_payloads key s cs) = length cs"
  by (induction cs arbitrary: s) auto

lemma continuation_payloads_nth:
  "i < length cs \<Longrightarrow> continuation_payloads key s cs ! i =
     continuation_bytes key (s + of_nat i) (Suc i = length cs) (cs ! i)"
proof (induction cs arbitrary: s i)
  case (Cons c cs)
  then show ?case by (cases i) (auto simp: ac_simps)
qed simp

lemma continuation_content:
  "\<forall>c\<in>set cs. length c \<le> u32_max \<Longrightarrow>
     concat (map frame_content (continuation_payloads key s cs)) = concat cs"
  by (induction cs arbitrary: s)
    (auto simp: frame_content_def parse_continuation_bytes continuation_bytes_layout(7))

lemma series_payloads_content:
  assumes "\<forall>c\<in>set (c # cs). length c \<le> u32_max" "length c \<le> unat (fh_total_size h)"
  shows "concat (map frame_content (series_payloads h (c # cs))) =
    to_bytes \<lparr> tx_header = h\<lparr> fh_data_size := fh_total_size h \<rparr>, tx_payload = concat (c # cs) \<rparr>"
  using assms parse_first_bytes [of c "h\<lparr> fh_data_size := of_nat (length c) \<rparr>" "message_key_for h"]
  by (simp add: series_payloads_def continuation_content frame_content_def first_bytes_layout(6)
      logical_header_bytes_def to_bytes_def)

lemma series_payloads_parse:
  assumes "\<forall>c\<in>set chunks. length c \<le> u32_max" "\<forall>c\<in>set (tl chunks). c \<noteq> []"
    and "unat (fh_total_size h) = length (concat chunks)" "i < length chunks"
  shows "parse_frame_header (series_payloads h chunks ! i) =
    Inr (if i = 0
         then (AF_First (message_key_for h) 20 (length (chunks ! 0)) (Some (length (concat chunks)))
                 (length chunks = 1), 17)
         else (AF_Continuation (message_key_for h) (Some (of_nat i)) (length (chunks ! i))
                 (Suc i = length chunks), 18))"
proof (cases chunks)
  case (Cons c cs)
  have z: "concat cs = [] \<longleftrightarrow> cs = []" using assms(2) Cons by (cases cs) auto
  show ?thesis
  proof (cases i)
    case 0
    then show ?thesis
      using Cons assms(3) z parse_first_bytes [of c "h\<lparr> fh_data_size := of_nat (length c) \<rparr>"
          "message_key_for h"]
      by (simp add: series_payloads_def)
  next
    case (Suc j)
    then have "length (cs ! j) \<le> u32_max" "j < length cs" using assms(1,4) Cons by auto
    then show ?thesis
      using Suc Cons parse_continuation_bytes [of "cs ! j"]
      by (simp add: series_payloads_def continuation_payloads_nth)
  qed
qed (use assms in simp)

text \<open>
  C7: the wireframe codec hands a fragmented message on faithfully.  When the
  frames of any fragmentation of a payload arrive in time, each call of the decoder
  emits one assembly payload.  The payloads parse as one first frame and
  continuations numbered from one, under one message key, with the last flag set on
  the final one only.  What stands behind their headers, put together, is the
  serialisation of the reassembled transaction, and the tracker is idle again.
\<close>

theorem assembly_is_faithful:
  assumes "\<And>s. s \<noteq> - 1 \<Longrightarrow> checked_increment s = Some (s + 1)"
    and "fragmentation MAX_FRAME_DATA chunks payload" "length payload \<le> MAX_PAYLOAD_SIZE"
    and "fh_flags h = 0" "unat (fh_total_size h) = length payload"
    and "length (now # ts) = length chunks" "timely (now + SERIES_TIMEOUT) ts"
  shows "\<exists>ps. decode_series checked_increment env (now # ts) None (frames_bytes h chunks @ rest) =
        (map (emitted env h) ps, None, rest)
     \<and> length ps = length chunks
     \<and> (\<forall>i<length ps. parse_frame_header (ps ! i) =
          Inr (if i = 0
               then (AF_First (message_key_for h) HEADER_LEN (length (chunks ! 0))
                       (Some (length payload)) (length chunks = 1), FIRST_FRAME_HEADER_LEN)
               else (AF_Continuation (message_key_for h) (Some (of_nat i)) (length (chunks ! i))
                       (Suc i = length chunks), CONTINUATION_FRAME_HEADER_LEN)))
     \<and> concat (map frame_content ps) =
         to_bytes \<lparr> tx_header = h\<lparr> fh_data_size := fh_total_size h \<rparr>, tx_payload = payload \<rparr>"
proof -
  obtain c cs where cs: "chunks = c # cs" "payload = c @ concat cs" "c = [] \<longrightarrow> cs = []"
    "\<forall>c\<in>set (c # cs). length c \<le> MAX_FRAME_DATA" "\<forall>c\<in>set cs. c \<noteq> []"
    using assms(2) by (rule fragmentation_split)
  have small: "\<forall>c\<in>set chunks. length c \<le> u32_max" using cs(1,4) by auto
  have len: "length (series_payloads h chunks) = length chunks"
    by (simp add: cs(1) series_payloads_def)
  have parse: "parse_frame_header (series_payloads h chunks ! i) =
      Inr (if i = 0
           then (AF_First (message_key_for h) 20 (length (chunks ! 0)) (Some (length payload))
                   (length chunks = 1), 17)
           else (AF_Continuation (message_key_for h) (Some (of_nat i)) (length (chunks ! i))
                   (Suc i = length chunks), 18))" if "i < length chunks" for i
    using series_payloads_parse [OF small _ _ that, of h] cs(1,2,5) assms(5) by simp
  have content: "concat (map frame_content (series_payloads h chunks)) =
      to_bytes \<lparr> tx_header = h\<lparr> fh_data_size := fh_total_size h \<rparr>, tx_payload = payload \<rparr>"
    using series_payloads_content [of c cs h] small cs(1,2) assms(5) by simp
  show ?thesis
    using decode_series_fragmentation [OF assms(1,2,4,5,3,6,7), of env rest] parse content
    by (intro exI [of _ "series_payloads h chunks"]) (simp add: len)
qed

definition two_frame_header :: FrameHeader where
  "two_frame_header = \<lparr> fh_flags = 0, fh_is_reply = 0, fh_ty = 107, fh_id = 9, fh_error = 0,
     fh_total_size = 2, fh_data_size = 0 \<rparr>"

theorem assembly_is_faithful_witness:
  "\<exists>ps. decode_series (\<lambda>s. if s = - 1 then None else Some (s + 1)) (\<lambda>e. Inr (env_payload e)) [10, 4000]
        None (frames_bytes two_frame_header [[0], [0]] @ []) =
        (map (emitted (\<lambda>e. Inr (env_payload e)) two_frame_header) ps, None, [])
     \<and> length ps = length [[0 :: byte], [0]]
     \<and> (\<forall>i<length ps. parse_frame_header (ps ! i) =
          Inr (if i = 0
               then (AF_First (message_key_for two_frame_header) HEADER_LEN (length ([[0 :: byte], [0]] ! 0))
                       (Some (length [0 :: byte, 0])) (length [[0 :: byte], [0]] = 1), FIRST_FRAME_HEADER_LEN)
               else (AF_Continuation (message_key_for two_frame_header) (Some (of_nat i))
                       (length ([[0 :: byte], [0]] ! i))
                       (Suc i = length [[0 :: byte], [0]]), CONTINUATION_FRAME_HEADER_LEN)))
     \<and> concat (map frame_content ps) =
         to_bytes \<lparr> tx_header = two_frame_header\<lparr> fh_data_size := fh_total_size two_frame_header \<rparr>,
           tx_payload = [0, 0] \<rparr>"
  by (rule assembly_is_faithful) (simp_all add: fragmentation_def two_frame_header_def)

section \<open>Arbitrary input\<close>

definition series_wf :: "tracker \<Rightarrow> bool" where
  "series_wf t \<longleftrightarrow>
     (case t of
        None \<Rightarrow> True
      | Some s \<Rightarrow> 0 < is_remaining s
          \<and> is_remaining s + unat (fh_data_size (is_first_header s)) \<le> unat (fh_total_size (is_first_header s))
          \<and> validate_header (is_first_header s) = Inr ()
          \<and> is_message_key s = message_key_for (is_first_header s))"

lemma take_hotline_frame_some:
  assumes "take_hotline_frame src = (Inr (Some (h, p)), src')"
  shows "validate_header h = Inr ()" "length p = unat (fh_data_size h)"
    "src = write_bytes h @ p @ src'"
proof -
  have len: "20 \<le> length src" and h: "h = from_bytes (slice 0 20 src)"
    and vh: "validate_header h = Inr ()"
    and fl: "20 + unat (fh_data_size h) \<le> length src"
    and p: "p = slice 20 (20 + unat (fh_data_size h)) src" "src' = drop (20 + unat (fh_data_size h)) src"
    using assms by (auto simp: take_hotline_frame_def Let_def split: if_splits sum.splits)
  show "validate_header h = Inr ()" by (rule vh)
  show "length p = unat (fh_data_size h)" using fl p by (simp add: slice_def)
  have "write_bytes h = take 20 src"
    using len unfolding h slice_def by (simp add: hdr.enc_dec)
  then show "src = write_bytes h @ p @ src'"
    using p append_take_drop_id [of 20 src] append_take_drop_id [of "unat (fh_data_size h)" "drop 20 src"]
    by (simp add: slice_def add.commute)
qed

lemma first_step_wf:
  assumes "validate_header h = Inr ()" "length p = unat (fh_data_size h)"
    and "series_start now None h p = (Inr q, t')"
  shows "series_wf t' \<and> (\<exists>k n. parse_frame_header q = Inr (k, n) \<and> (af_last k \<longleftrightarrow> t' = None))"
proof -
  have "length p \<le> unat (fh_total_size h)" "length p \<le> u32_max"
    using assms(1,2) by (simp_all add: validate_header_iff word_le_nat_alt)
  then show ?thesis
    using assms parse_first_bytes [of p h "message_key_for h"]
    by (auto simp: series_start_def Let_def first_frame_payload_eq series_wf_def split: if_splits)
qed

lemma continue_step_wf:
  assumes "series_wf (Some s)" "validate_header h = Inr ()" "length p = unat (fh_data_size h)"
    and "continue_series incr now (Some s) h p = (r, t')"
  shows "series_wf t' \<and> (\<forall>q. r = Inr q \<longrightarrow>
    (\<exists>k n. parse_frame_header q = Inr (k, n) \<and> (af_last k \<longleftrightarrow> t' = None)))"
proof -
  have "length p \<le> u32_max" using assms(2,3) by (simp add: validate_header_iff)
  then show ?thesis
    using assms(1,4) parse_continuation_bytes [of p "is_message_key s" "is_next_sequence s"]
    by (auto simp: continue_series_def fail_if_timed_out_def Let_def continuation_frame_payload_eq
        series_wf_def split: if_splits sum.splits option.splits)
qed

lemma first_step_ok:
  assumes "validate_header h = Inr ()" "length p = unat (fh_data_size h)"
  shows "\<exists>q. fst (series_start now t h p) = Inr q"
  using assms
  by (simp add: series_start_def Let_def validate_header_iff word_le_nat_alt first_frame_payload_eq)

text \<open>What stands at the front of the buffer, read as a header.\<close>

definition front_header :: "bytes \<Rightarrow> FrameHeader" where
  "front_header src = from_bytes (take HEADER_LEN src)"

definition whole_frame :: "bytes \<Rightarrow> bool" where
  "whole_frame src \<longleftrightarrow> HEADER_LEN \<le> length src
     \<and> HEADER_LEN + unat (fh_data_size (front_header src)) \<le> length src"

text \<open>The two reasons for which a call takes nothing from the buffer.\<close>

definition takes_nothing :: "(io_error, bytes option) result \<Rightarrow> bytes \<Rightarrow> bool" where
  "takes_nothing r src \<longleftrightarrow>
     r = Inr None \<and> \<not> whole_frame src
   \<or> (\<exists>e. validate_header (front_header src) = Inl e \<and> r = Inl (InvalidData e))"

lemma take_hotline_frame_none:
  assumes "take_hotline_frame src = (f, s)" "\<nexists>h p. f = Inr (Some (h, p))"
  shows "s = src \<and> (f = Inr None \<and> \<not> whole_frame src
    \<or> (\<exists>e. validate_header (front_header src) = Inl e \<and> f = Inl (InvalidData e)))"
proof (cases "length src < HEADER_LEN")
  case True
  then have "take_hotline_frame src = (Inr None, src)" "\<not> whole_frame src"
    by (simp_all add: take_hotline_frame_def whole_frame_def)
  with assms(1) show ?thesis by simp
next
  case long: False
  have front: "from_bytes (slice 0 HEADER_LEN src) = front_header src"
    unfolding front_header_def slice_def by simp
  note unfold = take_hotline_frame_def [of src, unfolded Let_def front, simplified long if_False]
  show ?thesis
  proof (cases "validate_header (front_header src)")
    case (Inl e)
    then have "take_hotline_frame src = (Inl (InvalidData e), src)"
      unfolding unfold by simp
    with assms(1) Inl show ?thesis by simp
  next
    case (Inr u)
    then have "take_hotline_frame src =
        (if length src < HEADER_LEN + unat (fh_data_size (front_header src)) then (Inr None, src)
         else (Inr (Some (front_header src, slice HEADER_LEN (HEADER_LEN + unat (fh_data_size (front_header src))) src)),
               drop (HEADER_LEN + unat (fh_data_size (front_header src))) src))"
      unfolding unfold by simp
    with assms show ?thesis
      by (cases "length src < HEADER_LEN + unat (fh_data_size (front_header src))") (auto simp: whole_frame_def)
  qed
qed

lemma frame_decode_cases:
  assumes "frame_decode incr env now t src = (r, t', src')"
  obtains "takes_nothing r src" "t' = t" "src' = src"
  | h p q where "take_hotline_frame src = (Inr (Some (h, p)), src')"
      "(if t = None then series_start now t h p else continue_series incr now t h p) = (q, t')"
      "r = rbind q (emitted env h)"
proof (cases "take_hotline_frame src")
  case (Pair f s)
  show ?thesis
  proof (cases "\<exists>h p. f = Inr (Some (h, p))")
    case True
    then obtain h p where f: "f = Inr (Some (h, p))" by blast
    obtain q u where q: "(if t = None then series_start now t h p else continue_series incr now t h p) = (q, u)"
      by fastforce
    have "s = src'" "u = t'" "r = rbind q (emitted env h)"
      using assms Pair f q
      by (cases q; cases t; auto simp: frame_decode_def has_active_series_def emitted_def)+
    then show ?thesis using that(2) Pair f q by blast
  next
    case False
    note none = take_hotline_frame_none [OF Pair this]
    then have "src' = src" "t' = t" "takes_nothing r src"
      using assms Pair by (auto simp: frame_decode_def takes_nothing_def)
    then show ?thesis by (intro that(1))
  qed
qed

lemma emitted_payload: "emitted env h b = Inr (Some bs) \<Longrightarrow> \<exists>e. env e = Inr bs \<and> env_payload e = b"
  unfolding emitted_def by (cases "env \<lparr> env_id = route_id_for (fh_ty h),
    env_correlation = Some (ucast (fh_id h)), env_payload = b \<rparr>") auto

lemma emitted_not_None: "rbind q (emitted env h) \<noteq> Inr None"
  unfolding emitted_def by (cases q) auto

text \<open>
  C8: on any input at any time the decoder keeps its tracker consistent.  A call takes exactly
  one whole frame from the buffer, with a valid header and the payload that header announces, and
  then gives a payload or an error; or it takes nothing and leaves the tracker alone, because
  no whole frame is there yet or because the header at the front is invalid, which it reports.
  An open series still waits for at least one byte and at most for what its first frame left
  open, and every payload handed on parses, with the last flag set exactly when no series stays
  open.
\<close>

theorem frame_decode_invariant:
  assumes "series_wf t" "frame_decode checked_increment env now t src = (r, t', src')"
  shows "series_wf t'
    \<and> (src' = src \<and> t' = t \<and> takes_nothing r src
       \<or> (\<exists>h p. validate_header h = Inr () \<and> length p = unat (fh_data_size h)
            \<and> src = write_bytes h @ p @ src' \<and> r \<noteq> Inr None))
    \<and> (\<forall>bs. r = Inr (Some bs) \<longrightarrow>
         (\<exists>e k n. env e = Inr bs \<and> parse_frame_header (env_payload e) = Inr (k, n)
            \<and> (af_last k \<longleftrightarrow> t' = None)))"
proof -
  from assms(2) show ?thesis
  proof (cases rule: frame_decode_cases)
    case 1
    with assms(1) show ?thesis by (auto simp: takes_nothing_def)
  next
    case frame: (2 h p q)
    note f = take_hotline_frame_some [OF frame(1)]
    have "series_wf t' \<and> (\<forall>b. q = Inr b \<longrightarrow>
        (\<exists>k n. parse_frame_header b = Inr (k, n) \<and> (af_last k \<longleftrightarrow> t' = None)))"
    proof (cases t)
      case None
      with frame(2) f(1,2) show ?thesis
        using first_step_wf [of h p now _ t'] first_step_ok [of h p now t] by auto
    next
      case (Some s)
      with frame(2) f(1,2) assms(1) show ?thesis
        using continue_step_wf [of s h p checked_increment now q t'] by simp
    qed
    moreover have "\<exists>h p. validate_header h = Inr () \<and> length p = unat (fh_data_size h)
        \<and> src = write_bytes h @ p @ src' \<and> r \<noteq> Inr None"
      using f frame(3) emitted_not_None by blast
    ultimately show ?thesis
      using frame(3) by (cases q) (auto dest!: emitted_payload)
  qed
qed

theorem frame_decode_invariant_witness:
  "series_wf None \<and> (\<exists>r t' src'. frame_decode (\<lambda>s. Some (s + 1)) (\<lambda>e. Inr (env_payload e)) 10 None
      (frames_bytes two_frame_header [[0], [0]]) = (r, t', src') \<and> series_wf t' \<and> t' \<noteq> None)"
proof -
  have "frame_decode (\<lambda>s. Some (s + 1)) (\<lambda>e. Inr (env_payload e)) 10 None
      (frames_bytes two_frame_header [[0], [0]] @ []) =
      (emitted (\<lambda>e. Inr (env_payload e)) two_frame_header
         (first_bytes (message_key_for two_frame_header) (two_frame_header\<lparr> fh_data_size := of_nat 1 \<rparr>) [0]),
       Some \<lparr> is_first_header = two_frame_header\<lparr> fh_data_size := of_nat 1 \<rparr>,
         is_message_key = message_key_for two_frame_header, is_remaining = 1, is_next_sequence = 1,
         is_deadline = 10 + SERIES_TIMEOUT \<rparr>, frames_bytes two_frame_header [[0]] @ [])"
    by (subst series_first) (simp_all add: two_frame_header_def)
  then show ?thesis
    using frame_decode_invariant [of None "\<lambda>s. Some (s + 1)" "\<lambda>e. Inr (env_payload e)" 10]
    by (fastforce simp: series_wf_def)
qed

end
