(* ===== verification/App_Factory.thy ===== *)
theory App_Factory
  imports Router Message_Assembly
begin

text \<open>
  How an accepted connection of the wireframe server gets its application: the connection context
  that the handshake leaves for the app factory (\<^verbatim>\<open>src/src/wireframe/connection.rs\<close>) and the
  factory itself (\<^verbatim>\<open>src/src/server/wireframe/mod.rs\<close>, \<^verbatim>\<open>budgets.rs\<close>).  The context travels in
  a task-local cell, when the code runs inside a scope, and in a registry keyed by task id that
  all tasks share.  Which task runs, and whether it has an id, belongs to the Tokio runtime and is
  an argument of the operations.
\<close>

section \<open>The context of the running task\<close>

record ('t, 'addr) ContextStore =
  cs_cell :: "'addr ConnectionContext option option"
  cs_registry :: "'t \<rightharpoonup> 'addr ConnectionContext"

definition into_parts :: "'addr ConnectionContext \<Rightarrow> HandshakeMetadata \<times> 'addr option" where
  "into_parts c = (cc_handshake c, cc_peer c)"

definition store_registry_context ::
  "'t option \<Rightarrow> 'addr ConnectionContext \<Rightarrow> ('t, 'addr) ContextStore \<Rightarrow> ('t, 'addr) ContextStore" where
  "store_registry_context task context s =
     (case task of
        None \<Rightarrow> s
      | Some task_id \<Rightarrow> s\<lparr> cs_registry := (cs_registry s)(task_id \<mapsto> context) \<rparr>)"

definition registry_context :: "'t option \<Rightarrow> ('t, 'addr) ContextStore \<Rightarrow> 'addr ConnectionContext option" where
  "registry_context task s = (case task of None \<Rightarrow> None | Some task_id \<Rightarrow> cs_registry s task_id)"

definition take_registry_context ::
  "'t option \<Rightarrow> ('t, 'addr) ContextStore \<Rightarrow> 'addr ConnectionContext option \<times> ('t, 'addr) ContextStore" where
  "take_registry_context task s =
     (case task of
        None \<Rightarrow> (None, s)
      | Some task_id \<Rightarrow> (cs_registry s task_id, s\<lparr> cs_registry := (cs_registry s)(task_id := None) \<rparr>))"

text \<open>A scope gives the future a cell of its own and drops it afterwards.\<close>

definition scope_current_context ::
  "'t option \<Rightarrow> 'addr ConnectionContext option \<Rightarrow>
   (('t, 'addr) ContextStore \<Rightarrow> 'r \<times> ('t, 'addr) ContextStore) \<Rightarrow>
   ('t, 'addr) ContextStore \<Rightarrow> 'r \<times> ('t, 'addr) ContextStore" where
  "scope_current_context task context future s =
     (let s1 = (case context of None \<Rightarrow> s | Some seed \<Rightarrow> store_registry_context task seed s) in
      case future (s1\<lparr> cs_cell := Some context \<rparr>) of
        (r, s2) \<Rightarrow> (r, s2\<lparr> cs_cell := cs_cell s \<rparr>))"

definition store_current_context ::
  "'t option \<Rightarrow> 'addr ConnectionContext \<Rightarrow> ('t, 'addr) ContextStore \<Rightarrow> ('t, 'addr) ContextStore" where
  "store_current_context task context s =
     (let s' = store_registry_context task context s in
      case cs_cell s' of
        None \<Rightarrow> s'
      | Some _ \<Rightarrow> s'\<lparr> cs_cell := Some (Some context) \<rparr>)"

definition current_context :: "'t option \<Rightarrow> ('t, 'addr) ContextStore \<Rightarrow> 'addr ConnectionContext option" where
  "current_context task s =
     (case cs_cell s of Some (Some context) \<Rightarrow> Some context | _ \<Rightarrow> registry_context task s)"

definition take_current_context ::
  "'t option \<Rightarrow> ('t, 'addr) ContextStore \<Rightarrow> 'addr ConnectionContext option \<times> ('t, 'addr) ContextStore" where
  "take_current_context task s =
     (case cs_cell s of
        Some (Some context) \<Rightarrow>
          (Some context, snd (take_registry_context task (s\<lparr> cs_cell := Some None \<rparr>)))
      | _ \<Rightarrow> take_registry_context task s)"

section \<open>The application of a connection\<close>

record MemoryBudgets =
  bytes_per_message :: nat
  bytes_per_connection :: nat
  bytes_in_flight :: nat

definition explicit_memory_budgets :: MemoryBudgets where
  "explicit_memory_budgets =
     \<lparr> bytes_per_message = HOTLINE_LOGICAL_MESSAGE_BYTES,
       bytes_per_connection = HOTLINE_LOGICAL_MESSAGE_BYTES,
       bytes_in_flight = HOTLINE_LOGICAL_MESSAGE_BYTES \<rparr>"

datatype 'e AppFactoryError = MissingHandshakeContext | MissingPeerAddress | BuildApplication 'e

record 'addr AppBuildContext =
  ab_peer :: 'addr
  ab_compat :: XorCompatibility
  ab_client_compat :: ClientCompatibility

definition build_app_context ::
  "'t option \<Rightarrow> (('t, 'addr) ContextStore, 'e AppFactoryError, 'addr AppBuildContext) st" where
  "build_app_context task s =
     (case take_current_context task s of
        (None, s') \<Rightarrow> (Inl MissingHandshakeContext, s')
      | (Some context, s') \<Rightarrow>
          (case into_parts context of
             (handshake, None) \<Rightarrow> (Inl MissingPeerAddress, s')
           | (handshake, Some peer) \<Rightarrow>
               (Inr \<lparr> ab_peer = peer, ab_compat = xor_from_handshake handshake,
                  ab_client_compat = client_from_handshake handshake \<rparr>, s')))"

text \<open>
  What \<^verbatim>\<open>build_app\<close> puts into the wireframe application.  The application builder is wireframe's:
  wrapping the middleware and registering a route may each be refused.
\<close>

record ('addr, 'h) AppParts =
  ap_budgets :: MemoryBudgets
  ap_router :: WireframeRouter
  ap_session :: Session
  ap_peer :: 'addr
  ap_connection :: "'h WireframeOutboundConnection"
  ap_presence_connection_id :: OutboundConnectionId

record ('addr, 'h, 'app, 'e) AppBuilder =
  bld_wrap :: "('addr, 'h) AppParts \<Rightarrow> ('e, 'app) result"
  bld_route :: "'app \<Rightarrow> u32 \<Rightarrow> ('e, 'app) result"

definition build_app ::
  "('addr, 'h, 'app, 'e) AppBuilder \<Rightarrow> 'addr AppBuildContext \<Rightarrow> ('r WireframeOutboundRegistry, 'e, 'app) st" where
  "build_app b context outbound_registry =
     (case allocate_id outbound_registry of
        (outbound_id, outbound_registry') \<Rightarrow>
          (fold (\<lambda>i r. rbind r (\<lambda>app. bld_route b app i)) (FALLBACK_ROUTE_ID # ROUTE_IDS)
             (bld_wrap b
                \<lparr> ap_budgets = explicit_memory_budgets,
                  ap_router = \<lparr> rt_xor = ab_compat context, rt_client = ab_client_compat context \<rparr>,
                  ap_session = session_default, ap_peer = ab_peer context,
                  ap_connection = new_with_runtime_handle outbound_id True,
                  ap_presence_connection_id = outbound_id \<rparr>), outbound_registry'))"

definition try_build_app ::
  "('addr, 'h, 'app, 'e) AppBuilder \<Rightarrow> 't option \<Rightarrow>
   (('t, 'addr) ContextStore \<times> 'r WireframeOutboundRegistry, 'e AppFactoryError, 'app) st" where
  "try_build_app b task s =
     (case build_app_context task (fst s) of
        (Inl e, cs) \<Rightarrow> (Inl e, (cs, snd s))
      | (Inr context, cs) \<Rightarrow>
          (case build_app b context (snd s) of (r, reg) \<Rightarrow> (map_err BuildApplication r, (cs, reg))))"

definition validate_app_factory ::
  "('addr, 'h, 'app, 'e) AppBuilder \<Rightarrow> 'addr \<Rightarrow> ('r WireframeOutboundRegistry, 'e, unit) st" where
  "validate_app_factory b localhost outbound_registry =
     (case build_app b \<lparr> ab_peer = localhost, ab_compat = xor_disabled,
         ab_client_compat = client_from_handshake metadata_default \<rparr> outbound_registry of
        (r, reg) \<Rightarrow> (rbind r (\<lambda>_. Inr ()), reg))"

section \<open>Handing the context over\<close>

text \<open>
  What other tasks do to the shared registry meanwhile: each sees a cell of its own and stores or
  takes a context.
\<close>

datatype 'addr context_op = StoreContext "'addr ConnectionContext" | TakeContext

fun elsewhere ::
  "'t \<times> 'addr ConnectionContext option option \<times> 'addr context_op \<Rightarrow>
   ('t, 'addr) ContextStore \<Rightarrow> ('t, 'addr) ContextStore" where
  "elsewhere (task, cell, StoreContext c) s =
     s\<lparr> cs_registry := cs_registry (store_current_context (Some task) c (s\<lparr> cs_cell := cell \<rparr>)) \<rparr>"
| "elsewhere (task, cell, TakeContext) s =
     s\<lparr> cs_registry := cs_registry (snd (take_current_context (Some task) (s\<lparr> cs_cell := cell \<rparr>))) \<rparr>"

lemmas context_defs = store_current_context_def store_registry_context_def registry_context_def
  take_current_context_def take_registry_context_def current_context_def Let_def

lemma store_current_frame:
  "cs_registry (store_current_context (Some u) c s) = (cs_registry s)(u \<mapsto> c)"
  by (simp add: context_defs split: option.split)

lemma take_current_registry:
  "cs_registry (snd (take_current_context (Some u) s)) = (cs_registry s)(u := None)"
  by (simp add: context_defs split: option.split)

lemma elsewhere_frame:
  "cs_cell (elsewhere x s) = cs_cell s"
  "fst x \<noteq> t \<Longrightarrow> cs_registry (elsewhere x s) t = cs_registry s t"
proof -
  obtain u cell oper where "x = (u, cell, oper)"
    by (cases x)
  then show "cs_cell (elsewhere x s) = cs_cell s"
    "fst x \<noteq> t \<Longrightarrow> cs_registry (elsewhere x s) t = cs_registry s t"
    by (cases oper; simp add: store_current_frame take_current_registry)+
qed

lemma elsewhere_all_frame:
  "(\<forall>x\<in>set others. fst x \<noteq> t) \<Longrightarrow>
     cs_cell (fold elsewhere others s) = cs_cell s \<and> cs_registry (fold elsewhere others s) t = cs_registry s t"
  by (induction others arbitrary: s) (simp_all add: elsewhere_frame)

lemma current_after_store:
  "current_context (Some t) (store_current_context (Some t) c s) = Some c"
  by (simp add: context_defs split: option.split)

lemma current_cong:
  "cs_cell s' = cs_cell s \<Longrightarrow> cs_registry s' t = cs_registry s t \<Longrightarrow>
     current_context (Some t) s' = current_context (Some t) s"
  by (simp add: context_defs split: option.split)

lemma take_current:
  "fst (take_current_context (Some t) s) = current_context (Some t) s"
  "current_context (Some t) (snd (take_current_context (Some t) s)) = None"
  "u \<noteq> t \<Longrightarrow> cs_registry (snd (take_current_context (Some t) s)) u = cs_registry s u"
  by (simp_all add: context_defs split: option.split)

text \<open>
  C39: a connection that passed the handshake gets exactly its own application, once.  After the
  handshake stored its context, and whatever other tasks store or take in the meantime, the
  factory running in the connection's task builds from this handshake and this peer address; it
  leaves the contexts of all other tasks alone, and a second run in the same task is refused.
\<close>

theorem context_handed_over_once:
  assumes "success_handler hs (Inr peer) w = (Inr (), w', Some context)"
    and "\<forall>x\<in>set others. fst x \<noteq> t"
    and "s1 = fold elsewhere others (store_current_context (Some t) context s)"
    and "build_app_context (Some t) s1 = (r, s2)"
  shows "r = Inr \<lparr> ab_peer = peer, ab_compat = xor_disabled,
        ab_client_compat = client_from_handshake (metadata_from_handshake hs) \<rparr>
    \<and> fst (build_app_context (Some t) s2) = Inl MissingHandshakeContext
    \<and> (\<forall>u. u = t \<or> cs_registry s2 u = cs_registry s1 u)"
proof -
  have ctx: "context = with_peer (context_new (metadata_from_handshake hs)) peer"
    using assms(1) by (auto simp: success_handler_def Let_def split: prod.splits sum.splits)
  have now: "fst (take_current_context (Some t) s1) = Some context"
    unfolding take_current(1) assms(3)
    using elsewhere_all_frame [OF assms(2)] by (metis current_cong current_after_store)
  then have s2: "s2 = snd (take_current_context (Some t) s1)"
    and r: "r = Inr \<lparr> ab_peer = peer, ab_compat = xor_disabled,
        ab_client_compat = client_from_handshake (metadata_from_handshake hs) \<rparr>"
    using assms(4)
    by (auto simp: build_app_context_def into_parts_def ctx with_peer_def context_new_def
        xor_from_handshake_def xor_disabled_def split: prod.splits)
  have "fst (take_current_context (Some t) s2) = None"
    unfolding s2 take_current(1) take_current(2) ..
  then have "fst (build_app_context (Some t) s2) = Inl MissingHandshakeContext"
    by (cases "take_current_context (Some t) s2") (simp add: build_app_context_def)
  then show ?thesis
    using r s2 take_current(3) by metis
qed

theorem context_handed_over_once_witness:
  "let hs = \<lparr> hs_sub_protocol = 0, hs_version = 1, hs_sub_version = 2 \<rparr>;
       c = with_peer (context_new (metadata_from_handshake hs)) (80 :: nat);
       s1 = fold elsewhere [(2 :: nat, None, StoreContext (context_new metadata_default)), (3, Some None, TakeContext)]
         (store_current_context (Some 1) c \<lparr> cs_cell = None, cs_registry = (\<lambda>_. None) \<rparr>)
   in fst (build_app_context (Some 1) s1) = (Inr \<lparr> ab_peer = 80, ab_compat = xor_disabled,
        ab_client_compat = client_from_handshake (metadata_from_handshake hs) \<rparr> :: (unit AppFactoryError, _) result)"
proof -
  let ?hs = "\<lparr> hs_sub_protocol = 0, hs_version = 1, hs_sub_version = 2 \<rparr>"
  let ?w = "\<lparr> snk_written = [], snk_room = None, snk_end = End_Eof, snk_flush_fault = None \<rparr>"
  let ?c = "with_peer (context_new (metadata_from_handshake ?hs)) (80 :: nat)"
  let ?others = "[(2 :: nat, None, StoreContext (context_new metadata_default)), (3, Some None, TakeContext)]"
  let ?s = "\<lparr> cs_cell = None, cs_registry = (\<lambda>_. None) \<rparr>"
  let ?s1 = "fold elsewhere ?others (store_current_context (Some 1) ?c ?s)"
  have ok: "success_handler ?hs (Inr 80) ?w = (Inr (), snd (write_handshake_reply ?w HANDSHAKE_OK), Some ?c)"
    by (simp add: success_handler_def write_handshake_reply_def write_timeout_all_def)
  have others: "\<forall>x\<in>set ?others. fst x \<noteq> 1"
    by simp
  obtain r s2 where run: "build_app_context (Some 1) ?s1 = (r :: (unit AppFactoryError, _) result, s2)"
    by (metis surj_pair)
  have "fst (build_app_context (Some 1) ?s1) = (r :: (unit AppFactoryError, _) result)"
    unfolding run by simp
  then show ?thesis
    unfolding Let_def using context_handed_over_once [OF ok others refl run] by (metis (no_types))
qed

end
