(* ===== verification/Legacy_Server.thy ===== *)
theory Legacy_Server
  imports Login_Flow
begin

text \<open>
  One connection of the legacy server: \<^verbatim>\<open>handle_client\<close> of
  \<^verbatim>\<open>src/src/server/legacy/mod.rs\<close>, from the first byte the client sends to the end of the
  connection.  The socket is a byte source and a byte sink.  Which arm
  \<^verbatim>\<open>tokio::select!\<close> takes in an iteration is a parameter; so is the allocated connection
  id.
\<close>

section \<open>Serving a client\<close>

text \<open>How a connection can end other than well: an error of the stream, a failed request, a panic.\<close>

datatype client_error = StreamFailed TransactionError | RequestFailed CommandError | ClientPanic

lemma frames_bytes_nonempty: "chunks \<noteq> [] \<Longrightarrow> 0 < length (frames_bytes h chunks)"
  by (cases chunks) (simp_all add: frames_bytes_def frame_bytes_def write_bytes_def to_be_bytes_u16_def)

lemma read_transaction_progress:
  assumes "read_transaction tr = Inr (tx, tr')"
  shows "length (src_data (tr_reader tr')) < length (src_data (tr_reader tr))"
proof -
  have "tr = reader_at (src_data (tr_reader tr)) (src_end (tr_reader tr)) (tr_max_payload tr)"
    by (simp add: reader_at_def)
  with assms obtain chunks rest where
    "src_data (tr_reader tr) = frames_bytes (tx_header tx) chunks @ rest"
    "tr' = reader_at rest (src_end (tr_reader tr)) (tr_max_payload tr)" "chunks \<noteq> []"
    using read_transaction_inv [of "src_data (tr_reader tr)" "src_end (tr_reader tr)" "tr_max_payload tr" tx tr']
    by (auto simp: fragmentation_def)
  then show ?thesis
    using frames_bytes_nonempty [of chunks "tx_header tx"] by (simp add: reader_at_def)
qed

function serve ::
  "'h Argon2 \<Rightarrow> (nat \<Rightarrow> 'w \<Rightarrow> 'w) \<Rightarrow> OutboundConnectionId \<Rightarrow> (nat \<Rightarrow> bool) \<Rightarrow>
   TransactionReader \<Rightarrow> TransactionWriter \<Rightarrow> 'w CommandContext \<Rightarrow>
   ((client_error, unit) result \<times> TransactionWriter \<times> 'w CommandContext) option" where
  "serve argon2 sleep cid shutdown tx_reader tx_writer cx =
     (if shutdown 0 then Some (Inr (), tx_writer, cx)
      else
        (case read_transaction tx_reader of
           Inr (tx, tx_reader') \<Rightarrow>
             (case handle_request argon2 sleep cid (to_bytes tx) cx of
                (Inl (CmdError e), cx') \<Rightarrow> Some (Inl (RequestFailed e), tx_writer, cx')
              | (Inl CmdPanic, cx') \<Rightarrow> Some (Inl ClientPanic, tx_writer, cx')
              | (Inr resp, cx') \<Rightarrow>
                  (case write_transaction tx_writer resp of
                     None \<Rightarrow> None
                   | Some (Inl e, tx_writer') \<Rightarrow> Some (Inl (StreamFailed e), tx_writer', cx')
                   | Some (Inr _, tx_writer') \<Rightarrow>
                       serve argon2 sleep cid (\<lambda>n. shutdown (Suc n)) tx_reader' tx_writer' cx'))
         | Inl e \<Rightarrow> if e = Io UnexpectedEof then Some (Inr (), tx_writer, cx)
                    else Some (Inl (StreamFailed e), tx_writer, cx)))"
  by pat_completeness auto
termination
  by (relation "measure (\<lambda>(_, _, _, _, tr, _, _). length (src_data (tr_reader tr)))")
    (auto dest: read_transaction_progress)

declare serve.simps [simp del]

definition handle_client ::
  "'h Argon2 \<Rightarrow> (nat \<Rightarrow> 'w \<Rightarrow> 'w) \<Rightarrow> OutboundConnectionId \<Rightarrow> (nat \<Rightarrow> bool) \<Rightarrow>
   byte_source \<Rightarrow> byte_sink \<Rightarrow> 'w CommandContext \<Rightarrow>
   ((client_error, unit) result \<times> byte_sink \<times> 'w CommandContext) option" where
  "handle_client argon2 sleep cid shutdown reader writer cx =
     (case perform_handshake reader writer of
        (Inl e, _, writer') \<Rightarrow> Some (Inl (StreamFailed e), writer', cx)
      | (Inr _, reader', writer') \<Rightarrow>
          (case serve argon2 sleep cid shutdown (reader_new reader') (writer_new writer')
              (cx\<lparr> cx_session := session_default \<rparr>) of
             None \<Rightarrow> None
           | Some (r, tx_writer, cx') \<Rightarrow> Some (r, tw_writer tx_writer, cx')))"

section \<open>Conversations\<close>

text \<open>A request as it travels: a transaction and how it is cut into frames.\<close>

definition readable :: "Transaction \<times> bytes list \<Rightarrow> bool" where
  "readable q \<longleftrightarrow> fragmentation MAX_FRAME_DATA (snd q) (tx_payload (fst q)) \<and> fh_flags (tx_header (fst q)) = 0
     \<and> validate_payload (fst q) = Inr () \<and> unat (fh_total_size (tx_header (fst q))) \<le> MAX_PAYLOAD_SIZE"

definition on_the_wire :: "Transaction \<times> bytes list \<Rightarrow> bytes" where
  "on_the_wire q = frames_bytes (tx_header (fst q)) (snd q)"

definition reassembled :: "Transaction \<Rightarrow> Transaction" where
  "reassembled tx = tx\<lparr> tx_header := (tx_header tx)\<lparr> fh_data_size := fh_total_size (tx_header tx) \<rparr> \<rparr>"

definition writable :: "Transaction \<Rightarrow> bool" where
  "writable tx \<longleftrightarrow> fh_flags (tx_header tx) = 0 \<and> validate_payload tx = Inr ()
     \<and> unat (fh_total_size (tx_header tx)) \<le> MAX_PAYLOAD_SIZE"

definition reply_frames :: "Transaction \<Rightarrow> bytes" where
  "reply_frames tx = frames_bytes (tx_header tx) (fragments MAX_FRAME_DATA (tx_payload tx))"

text \<open>The replies to a sequence of requests, each handled in the state the one before left.\<close>

fun answer_all ::
  "'h Argon2 \<Rightarrow> (nat \<Rightarrow> 'w \<Rightarrow> 'w) \<Rightarrow> OutboundConnectionId \<Rightarrow> Transaction list \<Rightarrow> 'w CommandContext \<Rightarrow>
   (Transaction list \<times> 'w CommandContext) option" where
  "answer_all argon2 sleep cid [] cx = Some ([], cx)"
| "answer_all argon2 sleep cid (tx # txs) cx =
     (case handle_request argon2 sleep cid (to_bytes tx) cx of
        (Inl _, _) \<Rightarrow> None
      | (Inr resp, cx') \<Rightarrow>
          (case answer_all argon2 sleep cid txs cx' of
             None \<Rightarrow> None
           | Some (resps, cx'') \<Rightarrow> Some (resp # resps, cx'')))"

abbreviation sink_ok :: "byte_sink \<Rightarrow> bool" where
  "sink_ok w \<equiv> snk_room w = None \<and> snk_flush_fault w = None"

lemma write_reply:
  assumes "writable resp" "sink_ok w"
  shows "write_transaction (writer_new w) resp
    = Some (Inr (), writer_new (w\<lparr> snk_written := snk_written w @ reply_frames resp \<rparr>))"
  using assms write_transaction_open [of "writer_new w" resp]
  by (simp add: writable_def reply_frames_def writer_wf_intros) (simp add: writer_new_def)

lemma read_request:
  assumes "readable q"
  shows "read_transaction (reader_new \<lparr> src_data = on_the_wire q @ rest, src_end = e \<rparr>)
    = Inr (reassembled (fst q), reader_new \<lparr> src_data = rest, src_end = e \<rparr>)"
  using assms read_transaction_frames [of "snd q" "fst q" MAX_PAYLOAD_SIZE rest e]
  by (simp add: readable_def on_the_wire_def reassembled_def reader_new_def reader_at_def)

lemma read_eof: "read_transaction (reader_new \<lparr> src_data = [], src_end = e \<rparr>) = Inl (io_with_timeout e)"
  by (simp add: read_transaction_def read_frame_def read_timeout_exact_def reader_new_def)

text \<open>The outcome of the loop once the client has sent everything.\<close>

definition closing :: "io_end \<Rightarrow> (client_error, unit) result" where
  "closing e = (if e = End_Eof then Inr () else Inl (StreamFailed (io_with_timeout e)))"

lemma serve_conversation:
  assumes "list_all readable qs" "sink_ok w" "\<forall>n. \<not> shutdown n"
    and "answer_all argon2 sleep cid (map (\<lambda>q. reassembled (fst q)) qs) cx = Some (resps, cx')"
    and "list_all writable resps"
  shows "serve argon2 sleep cid shutdown (reader_new \<lparr> src_data = concat (map on_the_wire qs), src_end = e \<rparr>)
      (writer_new w) cx
    = Some (closing e, writer_new (w\<lparr> snk_written := snk_written w @ concat (map reply_frames resps) \<rparr>), cx')"
  using assms
proof (induction qs arbitrary: w cx resps shutdown)
  case Nil
  then show ?case
    by (subst serve.simps, cases e) (auto simp: read_eof closing_def)
next
  case (Cons q qs)
  from Cons.prems(4) obtain resp cx1 resps' where
    run: "handle_request argon2 sleep cid (to_bytes (reassembled (fst q))) cx = (Inr resp, cx1)"
    and more: "answer_all argon2 sleep cid (map (\<lambda>q. reassembled (fst q)) qs) cx1 = Some (resps', cx')"
    and resps: "resps = resp # resps'"
    by (auto split: prod.splits sum.splits option.splits)
  let ?w = "w\<lparr> snk_written := snk_written w @ reply_frames resp \<rparr>"
  have rd: "read_transaction (reader_new \<lparr> src_data = concat (map on_the_wire (q # qs)), src_end = e \<rparr>)
      = Inr (reassembled (fst q), reader_new \<lparr> src_data = concat (map on_the_wire qs), src_end = e \<rparr>)"
    using Cons.prems(1) by (simp add: read_request)
  have wr: "write_transaction (writer_new w) resp = Some (Inr (), writer_new ?w)"
    using Cons.prems(2,5) resps by (intro write_reply) simp_all
  have "serve argon2 sleep cid (\<lambda>n. shutdown (Suc n))
      (reader_new \<lparr> src_data = concat (map on_the_wire qs), src_end = e \<rparr>) (writer_new ?w) cx1
    = Some (closing e, writer_new (?w\<lparr> snk_written := snk_written ?w @ concat (map reply_frames resps') \<rparr>), cx')"
    using Cons.prems(1,2,3,5) resps more by (intro Cons.IH) simp_all
  then show ?case
    using Cons.prems(3) by (subst serve.simps) (simp add: rd run wr resps del: list.map concat.simps, simp)
qed

text \<open>What the server says to a first message of the right length.\<close>

definition preamble_code :: "bytes \<Rightarrow> u32" where
  "preamble_code p = (case parse_handshake p of Inr _ \<Rightarrow> HANDSHAKE_OK | Inl err \<Rightarrow> handshake_error_code err)"

lemma perform_handshake_answers:
  assumes "length p = HANDSHAKE_LEN" "sink_ok w"
  shows "perform_handshake \<lparr> src_data = p @ rest, src_end = e \<rparr> w
    = (Inr (), \<lparr> src_data = rest, src_end = e \<rparr>,
       w\<lparr> snk_written := snk_written w @ handshake_reply (preamble_code p) \<rparr>)"
  using assms by (simp add: perform_handshake_def read_timeout_exact_def write_handshake_reply_def
      write_timeout_all_def preamble_code_def split: sum.splits)

text \<open>
  C38: a client that sends any first message of the handshake's length and then requests, each cut
  into frames in any admissible way, gets the reply to its handshake and then exactly the
  replies to its requests, in order, each computed in the state the one before left, starting from
  a fresh session.  This holds for a first message the server rejects as well: the rejection is
  written and the connection is served all the same.
\<close>

theorem legacy_serves_in_order:
  assumes "length p = HANDSHAKE_LEN" "list_all readable qs" "sink_ok w" "\<forall>n. \<not> shutdown n"
    and "answer_all argon2 sleep cid (map (\<lambda>q. reassembled (fst q)) qs) (cx\<lparr> cx_session := session_default \<rparr>)
      = Some (resps, cx')"
    and "list_all writable resps"
  shows "handle_client argon2 sleep cid shutdown
      \<lparr> src_data = p @ concat (map on_the_wire qs), src_end = e \<rparr> w cx
    = Some (closing e, w\<lparr> snk_written := snk_written w @ handshake_reply (preamble_code p)
        @ concat (map reply_frames resps) \<rparr>, cx')"
proof -
  let ?w = "w\<lparr> snk_written := snk_written w @ handshake_reply (preamble_code p) \<rparr>"
  have "serve argon2 sleep cid shutdown (reader_new \<lparr> src_data = concat (map on_the_wire qs), src_end = e \<rparr>)
      (writer_new ?w) (cx\<lparr> cx_session := session_default \<rparr>)
    = Some (closing e, writer_new (?w\<lparr> snk_written := snk_written ?w @ concat (map reply_frames resps) \<rparr>), cx')"
    using assms by (intro serve_conversation) simp_all
  moreover have "tw_writer (writer_new v) = v" for v
    by (simp add: writer_new_def)
  ultimately show ?thesis
    using assms(1,3) by (simp add: handle_client_def perform_handshake_answers)
qed

text \<open>A request for the file list, sent after twelve zero bytes.\<close>

definition list_request :: Transaction where
  "list_request = \<lparr> tx_header = \<lparr> fh_flags = 0, fh_is_reply = 0, fh_ty = 200, fh_id = 5, fh_error = 0,
     fh_total_size = 0, fh_data_size = 0 \<rparr>, tx_payload = [] \<rparr>"

lemma list_request_simps [simp]:
  "reassembled list_request = list_request" "readable (list_request, [[]])"
  by (simp_all add: list_request_def reassembled_def readable_def fragmentation_def validate_payload_def
      validate_payload_parts_iff context_from_header_def)

lemma list_request_parsed:
  "parse_transaction (to_bytes list_request) = Inr list_request"
  "from_transaction list_request = Inr (GetFileNameList (tx_header list_request))"
  by (simp_all add: list_request_def parse_transaction_iff transaction_wf_def validate_payload_def
      validate_payload_parts_iff context_from_header_def from_transaction_def parse_command_def transaction_type_from_u16_def
      Let_def rejects_payload_def)

lemma list_request_denied:
  "\<exists>cx'. handle_request plain_argon2 (\<lambda>_ w. w) 3 (to_bytes list_request) sample_context
     = (Inr (bare_reply (tx_header list_request) 1), cx')"
  by (simp add: handle_request_def list_request_parsed tx_result_def process_def process_with_outbound_def
      process_get_file_name_list_def check_denied st_bind_def st_gets_def st_modify_def st_lift_def st_return_def
      privilege_error_reply_def transport_send_empty zoom_def take_reply_def reply_buffer_new_def)

theorem legacy_serves_in_order_witness:
  "\<exists>cx'. handle_client plain_argon2 (\<lambda>_ w. w) 3 (\<lambda>_. False)
      \<lparr> src_data = replicate 12 0 @ to_bytes list_request, src_end = End_Eof \<rparr>
      \<lparr> snk_written = [], snk_room = None, snk_end = End_Eof, snk_flush_fault = None \<rparr> sample_context
    = Some (Inr (), \<lparr> snk_written = handshake_reply HANDSHAKE_ERR_INVALID
          @ reply_frames (bare_reply (tx_header list_request) 1),
        snk_room = None, snk_end = End_Eof, snk_flush_fault = None \<rparr>, cx')"
proof -
  let ?w = "\<lparr> snk_written = [], snk_room = None, snk_end = End_Eof, snk_flush_fault = None \<rparr>"
  obtain cx' where run: "handle_request plain_argon2 (\<lambda>_ w. w) 3 (to_bytes list_request) sample_context
      = (Inr (bare_reply (tx_header list_request) 1), cx')"
    using list_request_denied by blast
  have same: "sample_context\<lparr> cx_session := session_default \<rparr> = sample_context"
    by (simp add: sample_context_def)
  have wire: "on_the_wire (list_request, [[]]) = to_bytes list_request"
    by (simp add: on_the_wire_def frames_bytes_def frame_bytes_def to_bytes_def list_request_def)
  have ok: "writable (bare_reply (tx_header list_request) 1)"
    by (simp add: writable_def bare_reply_def list_request_def validate_payload_def validate_payload_parts_iff
        context_from_header_def reply_header_def u32_try_from_def)
  have code: "preamble_code (replicate 12 0) = HANDSHAKE_ERR_INVALID"
    by code_simp
  show ?thesis
    using legacy_serves_in_order [of "replicate 12 0" "[(list_request, [[]])]" ?w "\<lambda>_. False" plain_argon2
        "\<lambda>_ w. w" 3 sample_context "[bare_reply (tx_header list_request) 1]" cx' End_Eof] run
    by (simp add: same wire ok code closing_def)
qed

end
