(* ===== verification/Migrations.thy ===== *)
theory Migrations
  imports Mxd_Prelude
begin

text \<open>
  Applying the embedded schema migrations under a watchdog: \<^verbatim>\<open>src/src/db/migrations.rs\<close>, as built
  for SQLite.  Diesel's migration harness is a parameter: what it answers, how it changes the
  database, and how many ticks of the clock a call takes.  The migration loop runs on a blocking
  thread and reads the cancellation token before every migration; the token is a function of the
  clock.
\<close>

section \<open>The migration loop\<close>

datatype 'e MigrationFailure =
    MigrationHarnessError 'e
  | MigrationTimeoutError nat
  | MigrationCancelledError

record ('d, 'e) MigrationHarness =
  mh_has_pending :: "'d \<Rightarrow> ('e, bool) result"
  mh_run_next :: "'d \<Rightarrow> ('e, unit) result \<times> 'd"
  mh_no_migration_run :: "'e \<Rightarrow> bool"
  mh_ticks :: "'d \<Rightarrow> nat"
  mh_check_ticks :: "'d \<Rightarrow> nat"

definition TICKS_PER_SEC :: nat where "TICKS_PER_SEC = 1000000000"

definition DEFAULT_MIGRATION_TIMEOUT :: nat where
  "DEFAULT_MIGRATION_TIMEOUT = 15 * TICKS_PER_SEC"

definition MIGRATION_CANCEL_GRACE_TIMEOUT :: nat where
  "MIGRATION_CANCEL_GRACE_TIMEOUT = 1 * TICKS_PER_SEC"

definition migration_timeout :: "u64 option \<Rightarrow> nat" where
  "migration_timeout timeout_secs =
     (case timeout_secs of
        None \<Rightarrow> DEFAULT_MIGRATION_TIMEOUT
      | Some seconds \<Rightarrow> if 0 < seconds then unat seconds * TICKS_PER_SEC else DEFAULT_MIGRATION_TIMEOUT)"

definition has_pending_migrations :: "('d, 'e) MigrationHarness \<Rightarrow> 'd \<Rightarrow> bool" where
  "has_pending_migrations h d = (case mh_has_pending h d of Inr False \<Rightarrow> False | _ \<Rightarrow> True)"

definition ensure_migrations_not_cancelled ::
  "(nat \<Rightarrow> bool) \<Rightarrow> nat \<Rightarrow> ('e MigrationFailure, unit) result" where
  "ensure_migrations_not_cancelled token now = (if token now then Inl MigrationCancelledError else Inr ())"

partial_function (option) apply_pending_migrations ::
  "('d, 'e) MigrationHarness \<Rightarrow> (nat \<Rightarrow> bool) \<Rightarrow> nat \<Rightarrow> 'd \<Rightarrow>
   (('e MigrationFailure, unit) result \<times> nat \<times> 'd) option" where
  "apply_pending_migrations h token now d =
     (case ensure_migrations_not_cancelled token now of
        Inl e \<Rightarrow> Some (Inl e, now, d)
      | Inr _ \<Rightarrow>
          (case mh_run_next h d of
             (Inr _, d') \<Rightarrow> apply_pending_migrations h token (now + mh_ticks h d) d'
           | (Inl e, d') \<Rightarrow>
               Some (if mh_no_migration_run h e then Inr () else Inl (MigrationHarnessError e),
                     now + mh_ticks h d, d')))"

definition execute_migrations_sync ::
  "('d, 'e) MigrationHarness \<Rightarrow> (nat \<Rightarrow> bool) \<Rightarrow> nat \<Rightarrow> 'd \<Rightarrow>
   (('e MigrationFailure, unit) result \<times> nat \<times> 'd) option" where
  "execute_migrations_sync h token now d =
     (let now' = now + mh_check_ticks h d in
      if \<not> has_pending_migrations h d then Some (Inr (), now', d)
      else apply_pending_migrations h token now' d)"

section \<open>The watchdog\<close>

text \<open>
  A future is its value and the tick at which it is ready, or \<open>None\<close> if it never is.  The race
  prefers the future; when the sleep wins, the caller waits for the grace period at most and
  then reports the timeout whatever the future did.  The second component of the result is the
  tick at which the caller gets its answer.
\<close>

definition cancel_timed_out_migration ::
  "nat \<Rightarrow> ('r \<times> nat) option \<Rightarrow> ('e MigrationFailure, 'r) result \<times> nat" where
  "cancel_timed_out_migration duration pending_migration =
     (Inl (MigrationTimeoutError duration),
      case pending_migration of
        None \<Rightarrow> duration + MIGRATION_CANCEL_GRACE_TIMEOUT
      | Some (_, ready) \<Rightarrow> min ready (duration + MIGRATION_CANCEL_GRACE_TIMEOUT))"

definition run_with_migration_timeout ::
  "nat \<Rightarrow> ('r \<times> nat) option \<Rightarrow> ('e MigrationFailure, 'r) result \<times> nat" where
  "run_with_migration_timeout duration future =
     (case future of
        Some (r, ready) \<Rightarrow>
          if ready \<le> duration then (Inr r, ready) else cancel_timed_out_migration duration future
      | None \<Rightarrow> cancel_timed_out_migration duration future)"

text \<open>The last component is the database once the blocking thread has ended, if it ends.\<close>

definition run_migrations ::
  "('d, 'e) MigrationHarness \<Rightarrow> u64 option \<Rightarrow> 'd \<Rightarrow>
   ('e MigrationFailure, unit) result \<times> nat \<times> 'd option" where
  "run_migrations h timeout_secs d =
     (let timeout = migration_timeout timeout_secs;
          work = execute_migrations_sync h (\<lambda>now. timeout < now) 0 d in
      case run_with_migration_timeout timeout (map_option (\<lambda>(r, ready, _). (r, ready)) work) of
        (r, answered) \<Rightarrow> (rbind r (\<lambda>inner. inner), answered, map_option (\<lambda>(_, _, d'). d') work))"

section \<open>What was applied\<close>

inductive migrated :: "('d, 'e) MigrationHarness \<Rightarrow> nat \<Rightarrow> 'd \<Rightarrow> 'd \<Rightarrow> bool" for h where
  none: "migrated h 0 d d"
| more: "mh_run_next h d = (Inr (), d1) \<Longrightarrow> migrated h n d1 d2 \<Longrightarrow> migrated h (Suc n) d d2"

text \<open>How the loop can stop in a state: cancelled, nothing left to run, or a failed migration.\<close>

definition stops ::
  "('d, 'e) MigrationHarness \<Rightarrow> nat \<Rightarrow> 'd \<Rightarrow> ('e MigrationFailure, unit) result \<times> nat \<times> 'd \<Rightarrow> bool" where
  "stops h deadline d0 out =
     (case out of
        (r, now, d') \<Rightarrow>
          r = Inl MigrationCancelledError \<and> deadline < now \<and> d' = d0
        \<or> (\<exists>e. mh_run_next h d0 = (Inl e, d')
             \<and> r = (if mh_no_migration_run h e then Inr () else Inl (MigrationHarnessError e))))"

lemma apply_pending_total:
  assumes "\<forall>d. 0 < mh_ticks h d"
  shows "\<exists>out d0 n. apply_pending_migrations h (\<lambda>now. deadline < now) now d = Some out
    \<and> migrated h n d d0 \<and> n \<le> Suc deadline - now \<and> stops h deadline d0 out"
proof (induction "Suc deadline - now" arbitrary: now d rule: less_induct)
  case less
  show ?case
  proof (cases "deadline < now")
    case True
    then show ?thesis
      by (intro exI [of _ "(Inl MigrationCancelledError, now, d)"] exI [of _ d] exI [of _ 0])
        (simp add: apply_pending_migrations.simps ensure_migrations_not_cancelled_def stops_def migrated.none)
  next
    case False
    note step = apply_pending_migrations.simps [of h "\<lambda>now. deadline < now" now d]
    show ?thesis
    proof (cases "mh_run_next h d")
      case (Pair r d')
      show ?thesis
      proof (cases r)
        case (Inl e)
        with Pair False show ?thesis
          unfolding step
          by (intro exI [of _ "(if mh_no_migration_run h e then Inr () else Inl (MigrationHarnessError e),
                now + mh_ticks h d, d')"] exI [of _ d] exI [of _ 0])
            (simp add: ensure_migrations_not_cancelled_def stops_def migrated.none)
      next
        case (Inr u)
        let ?now = "now + mh_ticks h d"
        have "0 < mh_ticks h d" using assms by blast
        with False have "Suc deadline - ?now < Suc deadline - now" by linarith
        from less [OF this] obtain out d0 n where
          IH: "apply_pending_migrations h (\<lambda>now. deadline < now) ?now d' = Some out"
            "migrated h n d' d0" "n \<le> Suc deadline - ?now" "stops h deadline d0 out"
          by blast
        have "apply_pending_migrations h (\<lambda>now. deadline < now) now d = Some out"
          unfolding step using Pair Inr False IH(1) by (simp add: ensure_migrations_not_cancelled_def)
        moreover have "migrated h (Suc n) d d0"
          using Pair Inr IH(2) by (simp add: migrated.more)
        moreover have "Suc n \<le> Suc deadline - now"
          using IH(3) False \<open>0 < mh_ticks h d\<close> by linarith
        ultimately show ?thesis using IH(4) by blast
      qed
    qed
  qed
qed

lemma run_migrations_settled:
  assumes "execute_migrations_sync h (\<lambda>now. migration_timeout secs < now) 0 d = Some (r, ready, d')"
  shows "run_migrations h secs d =
    (if ready \<le> migration_timeout secs then (r, ready, Some d')
     else (Inl (MigrationTimeoutError (migration_timeout secs)),
           min ready (migration_timeout secs + MIGRATION_CANCEL_GRACE_TIMEOUT), Some d'))"
  using assms
  by (simp add: run_migrations_def run_with_migration_timeout_def cancel_timed_out_migration_def Let_def)

lemma execute_migrations_total:
  assumes "\<forall>d. 0 < mh_ticks h d"
  obtains s ready d' n d0 where "execute_migrations_sync h (\<lambda>now. deadline < now) 0 d = Some (s, ready, d')"
    "migrated h n d d0" "n \<le> Suc deadline"
    "mh_has_pending h d = Inr False \<and> s = Inr () \<and> d' = d0 \<and> n = 0 \<or> stops h deadline d0 (s, ready, d')"
proof (cases "has_pending_migrations h d")
  case False
  then have "mh_has_pending h d = Inr False"
    by (auto simp: has_pending_migrations_def split: sum.splits bool.splits)
  with False show thesis
    using that [of "Inr ()" "mh_check_ticks h d" d 0 d] migrated.none [of h d]
    by (simp add: execute_migrations_sync_def)
next
  case True
  from apply_pending_total [OF assms, of deadline "mh_check_ticks h d" d]
  obtain s ready d' d0 n where
    "apply_pending_migrations h (\<lambda>now. deadline < now) (mh_check_ticks h d) d = Some (s, ready, d')"
    "migrated h n d d0" "n \<le> Suc deadline - mh_check_ticks h d" "stops h deadline d0 (s, ready, d')"
    by auto
  with True show thesis
    using that [of s ready d' n d0] by (simp add: execute_migrations_sync_def)
qed

text \<open>
  C40: the watchdog settles every migration run.  If each migration takes some time, the loop
  ends; and with \<open>ready\<close> the tick of its end, the caller gets the loop's own result when that is
  within the timeout, and otherwise a timeout error, at the latest after the grace period.  The
  loop ends because nothing was pending, because it saw the cancellation, which happens only
  after the timeout and so is always reported as a timeout, because the harness said that no
  migration was left, which is success, or because a migration failed, which is reported as the
  harness's error.  The database is left after a whole number of successful migrations, at
  most one per tick of the timeout and one more.
\<close>

theorem migrations_settle:
  assumes "\<forall>d. 0 < mh_ticks h d"
    and "run_migrations h secs d = (r, answered, final)"
  shows "\<exists>s ready d' n d0.
      execute_migrations_sync h (\<lambda>now. migration_timeout secs < now) 0 d = Some (s, ready, d')
    \<and> final = Some d' \<and> migrated h n d d0 \<and> n \<le> Suc (migration_timeout secs)
    \<and> r = (if ready \<le> migration_timeout secs then s else Inl (MigrationTimeoutError (migration_timeout secs)))
    \<and> answered = min ready (migration_timeout secs + MIGRATION_CANCEL_GRACE_TIMEOUT)
    \<and> (mh_has_pending h d = Inr False \<and> s = Inr () \<and> d' = d0 \<and> n = 0
       \<or> s = Inl MigrationCancelledError \<and> migration_timeout secs < ready \<and> d' = d0
       \<or> (\<exists>e. mh_run_next h d0 = (Inl e, d')
            \<and> s = (if mh_no_migration_run h e then Inr () else Inl (MigrationHarnessError e))))"
proof -
  let ?limit = "migration_timeout secs"
  obtain s ready d' n d0 where run: "execute_migrations_sync h (\<lambda>now. ?limit < now) 0 d = Some (s, ready, d')"
    and n: "migrated h n d d0" "n \<le> Suc ?limit"
    and stop: "mh_has_pending h d = Inr False \<and> s = Inr () \<and> d' = d0 \<and> n = 0 \<or> stops h ?limit d0 (s, ready, d')"
    by (rule execute_migrations_total [OF assms(1)])
  have "(r, answered, final) = (if ready \<le> ?limit then (s, ready, Some d')
      else (Inl (MigrationTimeoutError ?limit), min ready (?limit + MIGRATION_CANCEL_GRACE_TIMEOUT), Some d'))"
    using run_migrations_settled [OF run] assms(2) by simp
  then have out: "r = (if ready \<le> ?limit then s else Inl (MigrationTimeoutError ?limit))"
    "answered = min ready (?limit + MIGRATION_CANCEL_GRACE_TIMEOUT)" "final = Some d'"
    by (auto split: if_splits)
  from run out(3) n out(1,2) stop [unfolded stops_def prod.case] show ?thesis
    by (intro exI conjI)
qed

text \<open>
  A harness whose database is the list of pending migrations; a migration takes a second and the
  check for pending ones five ticks.
\<close>

definition list_harness :: "(nat list, bool) MigrationHarness" where
  "list_harness =
     \<lparr> mh_has_pending = (\<lambda>d. Inr (d \<noteq> [])),
       mh_run_next = (\<lambda>d. case d of [] \<Rightarrow> (Inl True, []) | _ # d' \<Rightarrow> (Inr (), d')),
       mh_no_migration_run = (\<lambda>e. e), mh_ticks = (\<lambda>_. TICKS_PER_SEC), mh_check_ticks = (\<lambda>_. 5) \<rparr>"

lemma list_harness_ticks: "\<forall>d. 0 < mh_ticks list_harness d"
  by (simp add: list_harness_def TICKS_PER_SEC_def)

lemma list_harness_loop:
  "execute_migrations_sync list_harness (\<lambda>now. migration_timeout (Some 2) < now) 0 [5, 6, 7]
     = Some (Inl MigrationCancelledError, 2000000005, [7])"
  by (simp add: execute_migrations_sync_def has_pending_migrations_def list_harness_def
      apply_pending_migrations.simps ensure_migrations_not_cancelled_def migration_timeout_def TICKS_PER_SEC_def)

text \<open>Two of three migrations fit into two seconds.\<close>

theorem migrations_settle_witness:
  "\<exists>answered. run_migrations list_harness (Some 2) [5, 6, 7]
     = (Inl (MigrationTimeoutError (2 * TICKS_PER_SEC)), answered, Some [7]) \<and> answered = 2000000005"
proof -
  obtain r answered final where run: "run_migrations list_harness (Some 2) [5, 6, 7] = (r, answered, final)"
    by (metis surj_pair)
  show ?thesis
    using migrations_settle [OF list_harness_ticks run] run
    by (simp add: list_harness_loop) (auto simp: migration_timeout_def TICKS_PER_SEC_def MIGRATION_CANCEL_GRACE_TIMEOUT_def)
qed

end
