(* ===== verification/Delivery.thy ===== *)
theory Delivery
  imports Server_Invariant
begin

text \<open>
  Presence notifications to peers that register their push handle late.
\<close>


section \<open>Reaching a peer that is still connecting\<close>

text \<open>
  The wireframe adapter as a messaging interface.  Its world is the push registry and
  the queues; both may change while the caller sleeps.
\<close>

definition wireframe_messaging ::
  "('r, 'h, 'q) WireframePush \<Rightarrow> 'h WireframeOutboundConnection \<Rightarrow>
   (nat \<Rightarrow> 'r WireframeOutboundRegistry \<times> 'q \<Rightarrow> 'r WireframeOutboundRegistry \<times> 'q) \<Rightarrow>
   ('r WireframeOutboundRegistry \<times> 'q) OutboundMessaging" where
  "wireframe_messaging w conn sleep =
     \<lparr> om_push = (\<lambda>target message priority (reg, q).
          case wireframe_push w conn reg target message priority q of (r, q') \<Rightarrow> (r, (reg, q'))),
        om_broadcast = (\<lambda>message priority (reg, q).
          case wireframe_broadcast w reg message priority q of (r, q') \<Rightarrow> (r, (reg, q'))),
        om_sleep = sleep \<rparr>"

lemma push_attempts_wait:
  assumes "\<And>j. j < k \<Longrightarrow> handle_for w cid (fst ((sleep PRESENCE_PUSH_RETRY_DELAY ^^ j) s)) = None" "k < left"
  shows "push_attempts (wireframe_messaging w conn sleep) cid msg left s =
    push_attempts (wireframe_messaging w conn sleep) cid msg (left - k) ((sleep PRESENCE_PUSH_RETRY_DELAY ^^ k) s)"
  using assms
proof (induction k arbitrary: left s)
  case (Suc k)
  obtain l where l: "left = Suc l" "0 < l" using Suc.prems(2) by (cases left) auto
  have here: "handle_for w cid (fst s) = None" using Suc.prems(1) [of 0] by simp
  have "push_attempts (wireframe_messaging w conn sleep) cid msg left s =
      push_attempts (wireframe_messaging w conn sleep) cid msg l (sleep PRESENCE_PUSH_RETRY_DELAY s)"
    using here l by (cases s) (simp add: wireframe_messaging_def wireframe_push_def)
  also have "\<dots> = push_attempts (wireframe_messaging w conn sleep) cid msg (l - k)
      ((sleep PRESENCE_PUSH_RETRY_DELAY ^^ k) (sleep PRESENCE_PUSH_RETRY_DELAY s))"
  proof (rule Suc.IH)
    show "handle_for w cid (fst ((sleep PRESENCE_PUSH_RETRY_DELAY ^^ j) (sleep PRESENCE_PUSH_RETRY_DELAY s))) = None"
      if "j < k" for j
      using Suc.prems(1) [of "Suc j"] that by (simp add: funpow_swap1)
  qed (use Suc.prems l in simp)
  finally show ?case using l by (simp add: funpow_swap1)
qed simp

text \<open>
  C27: a notification waits for a peer that is still connecting.  If the peer's push
  handle appears in the registry during one of the first four pauses, or is there at
  once, the message is pushed to that handle with high priority and the outcome is the
  queue's; if it never appears, the attempt is given up as unavailable after four
  pauses and nothing is pushed.
\<close>

theorem push_reaches_late_peer:
  assumes "\<forall>j<k. handle_for w cid (fst ((sleep PRESENCE_PUSH_RETRY_DELAY ^^ j) s)) = None" "k < 5"
    and "(sleep PRESENCE_PUSH_RETRY_DELAY ^^ k) s = (reg, q)"
  shows "(\<forall>h. handle_for w cid reg = Some h \<longrightarrow>
        push_with_retry (wireframe_messaging w conn sleep) cid msg s =
          (fst (push_bytes w h (to_bytes msg) High q), (reg, snd (push_bytes w h (to_bytes msg) High q))))
    \<and> (k = 4 \<and> handle_for w cid reg = None \<longrightarrow>
        push_with_retry (wireframe_messaging w conn sleep) cid msg s = (Inl TargetUnavailable, (reg, q)))"
proof -
  let ?m = "wireframe_messaging w conn sleep"
  have "5 - k = Suc (4 - k)" using assms(2) by simp
  then have run: "push_with_retry ?m cid msg s = push_attempts ?m cid msg (Suc (4 - k)) (reg, q)"
    using push_attempts_wait [of k w cid sleep s 5 conn msg] assms
    by (simp add: push_with_retry_def del: push_attempts.simps)
  have no: "push_bytes w h bs High q \<noteq> (Inl TargetUnavailable, q')" for h bs q'
  proof -
    have "map_err map_push_error r \<noteq> Inl TargetUnavailable" for r :: "(PushError, unit) result"
      by (cases r) (simp_all add: map_push_error_def split: PushError.split)
    then show ?thesis by (auto simp: push_bytes_def split: prod.split)
  qed
  show ?thesis
    unfolding run using no
    by (auto simp: wireframe_messaging_def wireframe_push_def split: prod.split sum.split)
qed

text \<open>A peer whose handle is registered during the second pause.\<close>

definition arriving :: "nat \<Rightarrow> (u64 \<times> nat) list WireframeOutboundRegistry \<times> (nat \<times> bytes) list \<Rightarrow>
    (u64 \<times> nat) list WireframeOutboundRegistry \<times> (nat \<times> bytes) list" where
  "arriving d = (\<lambda>(reg, q). (reg\<lparr> wr_next_id := wr_next_id reg + 1,
     wr_sessions := (if wr_next_id reg = 8 then (9, 90) # wr_sessions reg else wr_sessions reg) \<rparr>, q))"

definition before_arrival :: "(u64 \<times> nat) list WireframeOutboundRegistry" where
  "before_arrival = \<lparr> wr_next_id = 7, wr_sessions = [] \<rparr>"

theorem push_reaches_late_peer_witness:
  "push_with_retry (wireframe_messaging list_push sample_connection arriving) 9 (bare_reply login_header 0)
     (before_arrival, []) =
   (Inr (), (\<lparr> wr_next_id = 9, wr_sessions = [(9, 90)] \<rparr>, [(90, to_bytes (bare_reply login_header 0))]))"
proof -
  have "\<forall>j<2. handle_for list_push 9 (fst ((arriving PRESENCE_PUSH_RETRY_DELAY ^^ j) (before_arrival, []))) = None"
    by (auto simp: less_2_cases_iff arriving_def before_arrival_def handle_for_def list_push_def)
  then show ?thesis
    using push_reaches_late_peer [where k = 2 and w = list_push and cid = 9 and sleep = arriving
        and s = "(before_arrival, [])" and conn = sample_connection and msg = "bare_reply login_header 0"
        and reg = "\<lparr> wr_next_id = 9, wr_sessions = [(9, 90)] \<rparr>" and q = "[]"]
    by (simp add: arriving_def before_arrival_def handle_for_def list_push_def push_bytes_def eval_nat_numeral)
qed

end
