(* ===== verification/Session_Model.thy ===== *)
theory Session_Model
  imports Access_Control
begin

text \<open>
  The session gating model of \<^verbatim>\<open>src/crates/mxd-verification/src/session_model\<close>: several
  clients log in, log out, queue requests and have them delivered in any order, and the
  model records what came of each.  The repository explores it with a model checker to
  a fixed depth; here its safety properties are proved for every configuration and
  every reachable state, and its gate is related to the server's.  Client numbers and
  queue positions (\<^verbatim>\<open>usize\<close>) are natural numbers.
\<close>

section \<open>Privilege constants\<close>

definition DOWNLOAD_FILE_bit :: u64 where "DOWNLOAD_FILE_bit = push_bit 2 1"
definition READ_CHAT_bit :: u64 where "READ_CHAT_bit = push_bit 9 1"
definition SEND_CHAT_bit :: u64 where "SEND_CHAT_bit = push_bit 10 1"
definition SHOW_IN_LIST_bit :: u64 where "SHOW_IN_LIST_bit = push_bit 13 1"
definition CREATE_USER_bit :: u64 where "CREATE_USER_bit = push_bit 14 1"
definition CHANGE_OWN_PASSWORD_bit :: u64 where "CHANGE_OWN_PASSWORD_bit = push_bit 18 1"
definition SEND_PRIVATE_MESSAGE_bit :: u64 where "SEND_PRIVATE_MESSAGE_bit = push_bit 19 1"
definition NEWS_READ_ARTICLE_bit :: u64 where "NEWS_READ_ARTICLE_bit = push_bit 20 1"
definition NEWS_POST_ARTICLE_bit :: u64 where "NEWS_POST_ARTICLE_bit = push_bit 21 1"
definition DISCONNECT_USER_bit :: u64 where "DISCONNECT_USER_bit = push_bit 22 1"
definition GET_CLIENT_INFO_bit :: u64 where "GET_CLIENT_INFO_bit = push_bit 24 1"

definition DEFAULT_USER_PRIVILEGES :: u64 where
  "DEFAULT_USER_PRIVILEGES =
     DOWNLOAD_FILE_bit OR READ_CHAT_bit OR SEND_CHAT_bit OR SHOW_IN_LIST_bit OR SEND_PRIVATE_MESSAGE_bit
     OR NEWS_READ_ARTICLE_bit OR NEWS_POST_ARTICLE_bit OR GET_CLIENT_INFO_bit OR CHANGE_OWN_PASSWORD_bit"

definition NO_PRIVILEGES :: u64 where [simp]: "NO_PRIVILEGES = 0"

definition ADMIN_PRIVILEGES :: u64 where "ADMIN_PRIVILEGES = push_bit 38 1 - 1"

definition bits_has_privilege :: "u64 \<Rightarrow> u64 \<Rightarrow> bool" where
  "bits_has_privilege privileges required \<longleftrightarrow> privileges AND required = required"

section \<open>State\<close>

record ModelSession =
  ms_user_id :: "u32 option"
  ms_privileges :: u64

definition model_session_default :: ModelSession where
  "model_session_default = \<lparr> ms_user_id = None, ms_privileges = 0 \<rparr>"

definition ms_is_authenticated :: "ModelSession \<Rightarrow> bool" where
  "ms_is_authenticated s \<longleftrightarrow> ms_user_id s \<noteq> None"

definition ms_has_privilege :: "ModelSession \<Rightarrow> u64 \<Rightarrow> bool" where
  "ms_has_privilege s required \<longleftrightarrow> ms_is_authenticated s \<and> ms_privileges s AND required = required"

datatype RequestType =
    RT_Ping
  | RT_GetUserInfo
  | RT_GetFileList
  | RT_GetNewsCategories
  | RT_PostNewsArticle
  | RT_GetClientInfo

fun required_privilege :: "RequestType \<Rightarrow> u64" where
  "required_privilege RT_Ping = NO_PRIVILEGES"
| "required_privilege RT_GetUserInfo = NO_PRIVILEGES"
| "required_privilege RT_GetFileList = DOWNLOAD_FILE_bit"
| "required_privilege RT_GetNewsCategories = NEWS_READ_ARTICLE_bit"
| "required_privilege RT_PostNewsArticle = NEWS_POST_ARTICLE_bit"
| "required_privilege RT_GetClientInfo = GET_CLIENT_INFO_bit"

definition requires_authentication :: "RequestType \<Rightarrow> bool" where
  "requires_authentication r \<longleftrightarrow> r \<noteq> RT_Ping"

definition is_privileged :: "RequestType \<Rightarrow> bool" where
  "is_privileged r \<longleftrightarrow> required_privilege r \<noteq> NO_PRIVILEGES"

definition request_types_all :: "RequestType list" where
  "request_types_all =
     [RT_Ping, RT_GetUserInfo, RT_GetFileList, RT_GetNewsCategories, RT_PostNewsArticle, RT_GetClientInfo]"

record ModelMessage =
  mm_request :: RequestType

datatype Effect =
    Authenticated nat u32
  | LoggedOut nat
  | RejectedUnauthenticated nat RequestType
  | RejectedInsufficientPrivilege nat RequestType u64
  | PrivilegedEffectCompleted nat RequestType u64 u64
  | UnprivilegedEffectCompleted nat RequestType

fun effect_client :: "Effect \<Rightarrow> nat" where
  "effect_client (Authenticated client _) = client"
| "effect_client (LoggedOut client) = client"
| "effect_client (RejectedUnauthenticated client _) = client"
| "effect_client (RejectedInsufficientPrivilege client _ _) = client"
| "effect_client (PrivilegedEffectCompleted client _ _ _) = client"
| "effect_client (UnprivilegedEffectCompleted client _) = client"

fun is_privileged_effect :: "Effect \<Rightarrow> bool" where
  "is_privileged_effect (PrivilegedEffectCompleted _ _ _ _) = True"
| "is_privileged_effect _ = False"

fun is_authentication :: "Effect \<Rightarrow> bool" where
  "is_authentication (Authenticated _ _) = True"
| "is_authentication _ = False"

record SystemState =
  ss_sessions :: "ModelSession list"
  ss_queues :: "ModelMessage list list"
  ss_effects :: "Effect list"

definition system_new :: "nat \<Rightarrow> SystemState" where
  "system_new num_clients =
     \<lparr> ss_sessions = replicate num_clients model_session_default, ss_queues = replicate num_clients [], ss_effects = [] \<rparr>"

definition num_clients :: "SystemState \<Rightarrow> nat" where
  "num_clients s = length (ss_sessions s)"

text \<open>\<^verbatim>\<open>Vec::get\<close>.\<close>

definition vec_get :: "'a list \<Rightarrow> nat \<Rightarrow> 'a option" where
  "vec_get xs i = (if i < length xs then Some (xs ! i) else None)"

definition session_at :: "SystemState \<Rightarrow> nat \<Rightarrow> ModelSession option" where
  "session_at s client = vec_get (ss_sessions s) client"

definition queue_at :: "SystemState \<Rightarrow> nat \<Rightarrow> ModelMessage list option" where
  "queue_at s client = vec_get (ss_queues s) client"

fun authenticates :: "nat \<Rightarrow> Effect \<Rightarrow> bool" where
  "authenticates client (Authenticated c _) \<longleftrightarrow> c = client"
| "authenticates client _ \<longleftrightarrow> False"

definition client_has_authenticated :: "SystemState \<Rightarrow> nat \<Rightarrow> bool" where
  "client_has_authenticated s client = list_ex (authenticates client) (ss_effects s)"

text \<open>\<^verbatim>\<open>Iterator::position\<close>.\<close>

fun position :: "('a \<Rightarrow> bool) \<Rightarrow> 'a list \<Rightarrow> nat option" where
  "position P [] = None"
| "position P (x # xs) = (if P x then Some 0 else map_option Suc (position P xs))"

definition first_auth_index :: "SystemState \<Rightarrow> nat \<Rightarrow> nat option" where
  "first_auth_index s client = position (authenticates client) (ss_effects s)"

section \<open>Actions\<close>

datatype Action =
    A_Login nat u32 u64
  | A_Logout nat
  | A_SendRequest nat RequestType
  | A_DeliverRequest nat nat

fun action_client :: "Action \<Rightarrow> nat" where
  "action_client (A_Login client _ _) = client"
| "action_client (A_Logout client) = client"
| "action_client (A_SendRequest client _) = client"
| "action_client (A_DeliverRequest client _) = client"

definition push_effect :: "Effect \<Rightarrow> SystemState \<Rightarrow> SystemState" where
  "push_effect e s = s\<lparr> ss_effects := ss_effects s @ [e] \<rparr>"

definition apply_login_action :: "SystemState \<Rightarrow> nat \<Rightarrow> u32 \<Rightarrow> u64 \<Rightarrow> SystemState" where
  "apply_login_action s client user_id privileges =
     (case vec_get (ss_sessions s) client of
        None \<Rightarrow> s
      | Some session \<Rightarrow>
          push_effect (Authenticated client user_id)
            (s\<lparr> ss_sessions := (ss_sessions s)[client :=
                 session\<lparr> ms_user_id := Some user_id, ms_privileges := privileges \<rparr>] \<rparr>))"

definition apply_logout :: "SystemState \<Rightarrow> nat \<Rightarrow> SystemState" where
  "apply_logout s client =
     (case vec_get (ss_sessions s) client of
        None \<Rightarrow> s
      | Some session \<Rightarrow>
          push_effect (LoggedOut client)
            (s\<lparr> ss_sessions := (ss_sessions s)[client := session\<lparr> ms_user_id := None, ms_privileges := 0 \<rparr>] \<rparr>))"

definition apply_send_request :: "SystemState \<Rightarrow> nat \<Rightarrow> RequestType \<Rightarrow> SystemState" where
  "apply_send_request s client request =
     (case vec_get (ss_queues s) client of
        None \<Rightarrow> s
      | Some queue \<Rightarrow> s\<lparr> ss_queues := (ss_queues s)[client := queue @ [\<lparr> mm_request = request \<rparr>]] \<rparr>)"

definition apply_deliver_request :: "SystemState \<Rightarrow> nat \<Rightarrow> nat \<Rightarrow> SystemState" where
  "apply_deliver_request s client queue_index =
     (case vec_get (ss_queues s) client of
        None \<Rightarrow> s
      | Some queue \<Rightarrow>
          if \<not> queue_index < length queue then s
          else
            (let request = mm_request (queue ! queue_index);
                 s1 = s\<lparr> ss_queues := (ss_queues s)[client := take queue_index queue @ drop (Suc queue_index) queue] \<rparr>
             in
             case vec_get (ss_sessions s1) client of
               None \<Rightarrow> s1
             | Some session \<Rightarrow>
                 if requires_authentication request \<and> \<not> ms_is_authenticated session
                 then push_effect (RejectedUnauthenticated client request) s1
                 else
                   (let required = required_privilege request in
                    if required \<noteq> 0 \<and> \<not> ms_has_privilege session required
                    then push_effect (RejectedInsufficientPrivilege client request required) s1
                    else if is_privileged request
                    then push_effect (PrivilegedEffectCompleted client request required (ms_privileges session)) s1
                    else push_effect (UnprivilegedEffectCompleted client request) s1)))"

fun apply_action :: "SystemState \<Rightarrow> Action \<Rightarrow> SystemState" where
  "apply_action s (A_Login client user_id privileges) = apply_login_action s client user_id privileges"
| "apply_action s (A_Logout client) = apply_logout s client"
| "apply_action s (A_SendRequest client request) = apply_send_request s client request"
| "apply_action s (A_DeliverRequest client queue_index) = apply_deliver_request s client queue_index"

fun is_valid_action :: "SystemState \<Rightarrow> Action \<Rightarrow> bool" where
  "is_valid_action s (A_Login client _ _) =
     (case vec_get (ss_sessions s) client of Some session \<Rightarrow> \<not> ms_is_authenticated session | None \<Rightarrow> False)"
| "is_valid_action s (A_Logout client) =
     (case vec_get (ss_sessions s) client of Some session \<Rightarrow> ms_is_authenticated session | None \<Rightarrow> False)"
| "is_valid_action s (A_SendRequest client _) = (client < num_clients s)"
| "is_valid_action s (A_DeliverRequest client queue_index) =
     (case vec_get (ss_queues s) client of Some q \<Rightarrow> queue_index < length q | None \<Rightarrow> False)"

section \<open>The model\<close>

record SessionModel =
  sm_num_clients :: nat
  sm_max_queue_depth :: nat
  sm_user_ids :: "u32 list"
  sm_privilege_sets :: "u64 list"

definition MAX_MODEL_CLIENTS :: nat where [simp]: "MAX_MODEL_CLIENTS = 16"

definition session_model_default :: SessionModel where
  "session_model_default =
     \<lparr> sm_num_clients = 2, sm_max_queue_depth = 2, sm_user_ids = [1, 2],
       sm_privilege_sets = [NO_PRIVILEGES, DEFAULT_USER_PRIVILEGES] \<rparr>"

definition with_clients :: "nat \<Rightarrow> SessionModel" where
  "with_clients n =
     (let bounded_clients = min (max n 1) MAX_MODEL_CLIENTS;
          max_user_id = (case u32_try_from bounded_clients of Some w \<Rightarrow> w | None \<Rightarrow> - 1)
      in session_model_default\<lparr> sm_num_clients := bounded_clients,
           sm_user_ids := map of_nat [1..<Suc (unat max_user_id)] \<rparr>)"

definition minimal_model :: SessionModel where
  "minimal_model =
     \<lparr> sm_num_clients = 1, sm_max_queue_depth = 2, sm_user_ids = [1],
       sm_privilege_sets = [NO_PRIVILEGES, DEFAULT_USER_PRIVILEGES] \<rparr>"

text \<open>Each adds to the list of actions it is given.\<close>

definition push_login_actions :: "SessionModel \<Rightarrow> SystemState \<Rightarrow> nat \<Rightarrow> Action list \<Rightarrow> Action list" where
  "push_login_actions m s client acts =
     (case session_at s client of
        None \<Rightarrow> acts
      | Some session \<Rightarrow>
          if ms_is_authenticated session then acts
          else acts @ [A_Login client user_id privileges. user_id \<leftarrow> sm_user_ids m, privileges \<leftarrow> sm_privilege_sets m])"

definition push_logout_action :: "SystemState \<Rightarrow> nat \<Rightarrow> Action list \<Rightarrow> Action list" where
  "push_logout_action s client acts =
     (case session_at s client of
        Some session \<Rightarrow> if ms_is_authenticated session then acts @ [A_Logout client] else acts
      | None \<Rightarrow> acts)"

definition push_send_request_actions :: "SessionModel \<Rightarrow> SystemState \<Rightarrow> nat \<Rightarrow> Action list \<Rightarrow> Action list" where
  "push_send_request_actions m s client acts =
     (case queue_at s client of
        None \<Rightarrow> acts
      | Some queue \<Rightarrow>
          if sm_max_queue_depth m \<le> length queue then acts
          else acts @ map (A_SendRequest client) request_types_all)"

definition push_deliver_actions :: "SystemState \<Rightarrow> nat \<Rightarrow> Action list \<Rightarrow> Action list" where
  "push_deliver_actions s client acts =
     (case queue_at s client of
        None \<Rightarrow> acts
      | Some queue \<Rightarrow> acts @ map (A_DeliverRequest client) [0..<length queue])"

definition init_states :: "SessionModel \<Rightarrow> SystemState list" where
  "init_states m = [system_new (sm_num_clients m)]"

definition model_actions :: "SessionModel \<Rightarrow> SystemState \<Rightarrow> Action list" where
  "model_actions m s =
     fold (\<lambda>client acts.
         push_deliver_actions s client (push_send_request_actions m s client
           (push_logout_action s client (push_login_actions m s client acts))))
       [0..<sm_num_clients m] []"

definition next_state :: "SessionModel \<Rightarrow> SystemState \<Rightarrow> Action \<Rightarrow> SystemState option" where
  "next_state m s action = Some (apply_action s action)"

section \<open>The checked properties\<close>

definition has_prior_authentication :: "SystemState \<Rightarrow> nat \<Rightarrow> nat \<Rightarrow> bool" where
  "has_prior_authentication s client before_index =
     list_ex (authenticates client) (take before_index (ss_effects s))"

fun privileged_by :: "nat \<Rightarrow> Effect \<Rightarrow> bool" where
  "privileged_by client (PrivilegedEffectCompleted c _ _ _) \<longleftrightarrow> c = client"
| "privileged_by client _ \<longleftrightarrow> False"

definition first_privileged_index :: "SystemState \<Rightarrow> nat \<Rightarrow> nat option" where
  "first_privileged_index s client = position (privileged_by client) (ss_effects s)"

definition auth_precedes_first_privileged_effect :: "SystemState \<Rightarrow> nat \<Rightarrow> bool" where
  "auth_precedes_first_privileged_effect s client =
     (case first_privileged_index s client of
        None \<Rightarrow> True
      | Some priv_idx \<Rightarrow>
          (case first_auth_index s client of None \<Rightarrow> False | Some auth_idx \<Rightarrow> auth_idx < priv_idx))"

definition auth_precedes_privileged_effects :: "SystemState \<Rightarrow> bool" where
  "auth_precedes_privileged_effects s =
     list_all (auth_precedes_first_privileged_effect s) [0..<length (ss_sessions s)]"

definition no_privileged_effect_without_auth :: "SystemState \<Rightarrow> bool" where
  "no_privileged_effect_without_auth s =
     list_all (\<lambda>(idx, effect).
         case effect of
           PrivilegedEffectCompleted client _ _ _ \<Rightarrow> has_prior_authentication s client idx
         | _ \<Rightarrow> True)
       (zip [0..<length (ss_effects s)] (ss_effects s))"

definition no_privileged_effect_without_required_privilege :: "SystemState \<Rightarrow> bool" where
  "no_privileged_effect_without_required_privilege s =
     list_all (\<lambda>effect.
         case effect of
           PrivilegedEffectCompleted _ _ privilege session_privileges \<Rightarrow> session_privileges AND privilege = privilege
         | _ \<Rightarrow> True)
       (ss_effects s)"

definition state_has_effect :: "SystemState \<Rightarrow> (Effect \<Rightarrow> bool) \<Rightarrow> bool" where
  "state_has_effect s predicate = list_ex predicate (ss_effects s)"

fun is_rejected_unauthenticated :: "Effect \<Rightarrow> bool" where
  "is_rejected_unauthenticated (RejectedUnauthenticated _ _) = True"
| "is_rejected_unauthenticated _ = False"

fun is_rejected_insufficient_privilege :: "Effect \<Rightarrow> bool" where
  "is_rejected_insufficient_privilege (RejectedInsufficientPrivilege _ _ _) = True"
| "is_rejected_insufficient_privilege _ = False"

definition rejected_unauthenticated_condition :: "SystemState \<Rightarrow> bool" where
  "rejected_unauthenticated_condition s = state_has_effect s is_rejected_unauthenticated"

definition privileged_operation_condition :: "SystemState \<Rightarrow> bool" where
  "privileged_operation_condition s = state_has_effect s is_privileged_effect"

definition rejected_insufficient_privilege_condition :: "SystemState \<Rightarrow> bool" where
  "rejected_insufficient_privilege_condition s = state_has_effect s is_rejected_insufficient_privilege"

definition can_deliver_out_of_order :: "SystemState \<Rightarrow> bool" where
  "can_deliver_out_of_order s = list_ex (\<lambda>q. 1 < length q) (ss_queues s)"

section \<open>Reachable states\<close>

inductive reachable :: "SessionModel \<Rightarrow> SystemState \<Rightarrow> bool" for m where
  init: "s \<in> set (init_states m) \<Longrightarrow> reachable m s"
| step: "reachable m s \<Longrightarrow> a \<in> set (model_actions m s) \<Longrightarrow> next_state m s a = Some s' \<Longrightarrow> reachable m s'"

lemma vec_get_eq [simp]: "vec_get xs i = Some x \<longleftrightarrow> i < length xs \<and> x = xs ! i" "vec_get xs i = None \<longleftrightarrow> \<not> i < length xs"
  by (auto simp: vec_get_def)

lemma push_effect_simps [simp]:
  "ss_sessions (push_effect e s) = ss_sessions s" "ss_queues (push_effect e s) = ss_queues s"
  "ss_effects (push_effect e s) = ss_effects s @ [e]"
  by (simp_all add: push_effect_def)

text \<open>Who is logged in after a history, read off the history alone.\<close>

fun login_after :: "nat \<Rightarrow> Effect \<Rightarrow> u32 option \<Rightarrow> u32 option" where
  "login_after c (Authenticated c' u) v = (if c' = c then Some u else v)"
| "login_after c (LoggedOut c') v = (if c' = c then None else v)"
| "login_after c _ v = v"

definition logged_user :: "nat \<Rightarrow> Effect list \<Rightarrow> u32 option" where
  "logged_user c es = fold (login_after c) es None"

lemma logged_user_simps [simp]:
  "logged_user c [] = None" "logged_user c (es @ [e]) = login_after c e (logged_user c es)"
  by (simp_all add: logged_user_def)

text \<open>What an entry of the history says about the moment it was made.\<close>

fun gated :: "Effect list \<Rightarrow> Effect \<Rightarrow> bool" where
  "gated before (RejectedUnauthenticated c r) \<longleftrightarrow> logged_user c before = None \<and> r \<noteq> RT_Ping"
| "gated before (RejectedInsufficientPrivilege c r p) \<longleftrightarrow> logged_user c before \<noteq> None \<and> p = required_privilege r"
| "gated before (PrivilegedEffectCompleted c r p sp) \<longleftrightarrow>
     logged_user c before \<noteq> None \<and> p = required_privilege r \<and> sp AND p = p"
| "gated before (UnprivilegedEffectCompleted c r) \<longleftrightarrow> r = RT_Ping \<or> logged_user c before \<noteq> None"
| "gated before _ \<longleftrightarrow> True"

definition gated_history :: "Effect list \<Rightarrow> bool" where
  "gated_history es \<longleftrightarrow> (\<forall>i < length es. gated (take i es) (es ! i))"

lemma gated_history_simps [simp]:
  "gated_history []" "gated_history (es @ [e]) \<longleftrightarrow> gated_history es \<and> gated es e"
  by (auto simp: gated_history_def less_Suc_eq nth_append)

definition gating_inv :: "SessionModel \<Rightarrow> SystemState \<Rightarrow> bool" where
  "gating_inv m s \<longleftrightarrow>
     length (ss_sessions s) = sm_num_clients m \<and> length (ss_queues s) = sm_num_clients m
     \<and> (\<forall>c < sm_num_clients m. ms_user_id (ss_sessions s ! c) = logged_user c (ss_effects s))
     \<and> gated_history (ss_effects s)"

lemma request_privilege_facts [simp]:
  "is_privileged r \<longleftrightarrow> required_privilege r \<noteq> 0" "required_privilege r \<noteq> 0 \<Longrightarrow> r \<noteq> RT_Ping"
  by (auto simp: is_privileged_def)

lemma deliver_keeps_inv:
  assumes "gating_inv m s" shows "gating_inv m (apply_deliver_request s c i)"
  using assms
  by (auto simp: gating_inv_def apply_deliver_request_def Let_def ms_is_authenticated_def ms_has_privilege_def
      requires_authentication_def split: option.splits)

lemma apply_action_inv: "gating_inv m s \<Longrightarrow> gating_inv m (apply_action s a)"
  by (cases a)
    (auto simp: deliver_keeps_inv, auto simp: gating_inv_def apply_login_action_def apply_logout_def
      apply_send_request_def nth_list_update split: option.splits)

lemma reachable_inv: "reachable m s \<Longrightarrow> gating_inv m s"
proof (induction rule: reachable.induct)
  case (init s)
  then show ?case
    by (simp add: init_states_def gating_inv_def system_new_def model_session_default_def)
next
  case (step s a s')
  then show ?case by (auto simp: next_state_def intro: apply_action_inv)
qed

section \<open>Safety\<close>

lemma logged_user_authenticated: "logged_user c es \<noteq> None \<Longrightarrow> list_ex (authenticates c) es"
proof (induction es rule: rev_induct)
  case (snoc e es)
  then show ?case by (cases e) (auto split: if_splits)
qed simp

lemma position_Some: "position P xs = Some i \<Longrightarrow> i < length xs \<and> P (xs ! i)"
  by (induction xs arbitrary: i) (auto split: if_splits)

lemma position_before: "list_ex P (take i xs) \<Longrightarrow> \<exists>j < i. position P xs = Some j"
proof (induction xs arbitrary: i)
  case (Cons x xs)
  then show ?case by (cases i) (auto, metis Suc_less_eq option.simps(9))
qed simp

lemma gated_history_nth: "gated_history es \<Longrightarrow> i < length es \<Longrightarrow> gated (take i es) (es ! i)"
  by (simp add: gated_history_def)

lemma gated_prior_auth:
  assumes "gated_history (ss_effects s)" "i < length (ss_effects s)" "privileged_by c (ss_effects s ! i)"
  shows "has_prior_authentication s c i"
proof -
  have "logged_user c (take i (ss_effects s)) \<noteq> None"
    using gated_history_nth [OF assms(1,2)] assms(3) by (cases "ss_effects s ! i") auto
  then show ?thesis
    unfolding has_prior_authentication_def by (rule logged_user_authenticated)
qed

text \<open>
  C34: the gate holds in every reachable state, for any number of clients, any queue
  depth, any accounts and any privilege sets, whatever the interleaving and however
  requests are reordered.  The three safety properties of the model checker hold, and
  so does the sharper one: at the moment a privileged request completed, its client
  was logged in (and had not logged out since), and the privileges the session had
  then included the one the request needs.
\<close>

theorem gating_holds_everywhere:
  assumes "reachable m s"
  shows "no_privileged_effect_without_auth s
    \<and> no_privileged_effect_without_required_privilege s
    \<and> auth_precedes_privileged_effects s
    \<and> (\<forall>i c r p sp. i < length (ss_effects s) \<and> ss_effects s ! i = PrivilegedEffectCompleted c r p sp \<longrightarrow>
         logged_user c (take i (ss_effects s)) \<noteq> None \<and> p = required_privilege r \<and> sp AND p = p)"
proof -
  have hist: "gated_history (ss_effects s)"
    using reachable_inv [OF assms] by (simp add: gating_inv_def)
  note gated_at = gated_history_nth [OF hist] and auth = gated_prior_auth [OF hist]
  have "no_privileged_effect_without_auth s"
    unfolding no_privileged_effect_without_auth_def list_all_iff
    using auth by (force simp: set_zip split: Effect.split)
  moreover have "no_privileged_effect_without_required_privilege s"
    unfolding no_privileged_effect_without_required_privilege_def list_all_length
    using gated_at by (fastforce split: Effect.split)
  moreover have "auth_precedes_first_privileged_effect s c" for c
  proof (cases "first_privileged_index s c")
    case (Some i)
    then have "has_prior_authentication s c i"
      unfolding first_privileged_index_def by (intro auth) (auto dest: position_Some)
    then obtain j where "j < i" "first_auth_index s c = Some j"
      unfolding has_prior_authentication_def first_auth_index_def using position_before by blast
    with Some show ?thesis by (simp add: auth_precedes_first_privileged_effect_def)
  qed (simp add: auth_precedes_first_privileged_effect_def)
  moreover have "logged_user c (take i (ss_effects s)) \<noteq> None \<and> p = required_privilege r \<and> sp AND p = p"
    if "i < length (ss_effects s)" "ss_effects s ! i = PrivilegedEffectCompleted c r p sp" for i c r p sp
    using gated_at [OF that(1)] that(2) by auto
  ultimately show ?thesis
    unfolding auth_precedes_privileged_effects_def list_all_iff by blast
qed

section \<open>Enabled actions\<close>

text \<open>The actions the checker explores, as a condition.\<close>

fun enabled :: "SessionModel \<Rightarrow> SystemState \<Rightarrow> Action \<Rightarrow> bool" where
  "enabled m s (A_Login c u p) \<longleftrightarrow>
     u \<in> set (sm_user_ids m) \<and> p \<in> set (sm_privilege_sets m) \<and> is_valid_action s (A_Login c u p)"
| "enabled m s (A_Logout c) \<longleftrightarrow> is_valid_action s (A_Logout c)"
| "enabled m s (A_SendRequest c r) \<longleftrightarrow>
     (case queue_at s c of Some q \<Rightarrow> length q < sm_max_queue_depth m | None \<Rightarrow> False)"
| "enabled m s (A_DeliverRequest c i) \<longleftrightarrow> is_valid_action s (A_DeliverRequest c i)"

definition client_actions :: "SessionModel \<Rightarrow> SystemState \<Rightarrow> nat \<Rightarrow> Action list" where
  "client_actions m s c = push_login_actions m s c [] @ push_logout_action s c []
     @ push_send_request_actions m s c [] @ push_deliver_actions s c []"

lemma push_actions_append:
  "push_login_actions m s c acts = acts @ push_login_actions m s c []"
  "push_logout_action s c acts = acts @ push_logout_action s c []"
  "push_send_request_actions m s c acts = acts @ push_send_request_actions m s c []"
  "push_deliver_actions s c acts = acts @ push_deliver_actions s c []"
  by (simp_all add: push_login_actions_def push_logout_action_def push_send_request_actions_def
      push_deliver_actions_def split: option.split)

lemma model_actions_concat: "model_actions m s = concat (map (client_actions m s) [0..<sm_num_clients m])"
proof -
  have "push_deliver_actions s c (push_send_request_actions m s c (push_logout_action s c (push_login_actions m s c acts)))
      = acts @ client_actions m s c" for c acts
    unfolding client_actions_def
    by (subst push_actions_append(4), subst push_actions_append(3), subst push_actions_append(2),
        subst push_actions_append(1)) simp
  moreover have "fold (\<lambda>c acts. acts @ client_actions m s c) xs acts = acts @ concat (map (client_actions m s) xs)" for xs acts
    by (induction xs arbitrary: acts) simp_all
  ultimately show ?thesis
    by (simp add: model_actions_def)
qed

lemma request_types_complete: "r \<in> set request_types_all"
  by (cases r) (simp_all add: request_types_all_def)

lemma client_actions_iff: "a \<in> set (client_actions m s c) \<longleftrightarrow> action_client a = c \<and> enabled m s a"
  by (cases a; cases "c < length (ss_sessions s)"; cases "c < length (ss_queues s)")
    (auto simp: client_actions_def push_login_actions_def push_logout_action_def push_send_request_actions_def
      push_deliver_actions_def session_at_def queue_at_def request_types_complete vec_get_def)

lemma model_actions_iff: "a \<in> set (model_actions m s) \<longleftrightarrow> action_client a < sm_num_clients m \<and> enabled m s a"
  by (auto simp: model_actions_concat client_actions_iff)

lemma reachable_action:
  "reachable m s \<Longrightarrow> action_client a < sm_num_clients m \<Longrightarrow> enabled m s a \<Longrightarrow> reachable m (apply_action s a)"
  by (rule reachable.step) (simp_all add: model_actions_iff next_state_def)

section \<open>Bounds\<close>

lemma apply_action_queues:
  assumes "enabled m s a" "\<forall>q\<in>set (ss_queues s). length q \<le> sm_max_queue_depth m"
    and "q \<in> set (ss_queues (apply_action s a))"
  shows "length q \<le> sm_max_queue_depth m"
proof (cases a)
  case (A_DeliverRequest c i)
  then have "q \<in> set (ss_queues s) \<or> (c < length (ss_queues s) \<and> i < length (ss_queues s ! c)
      \<and> q = take i (ss_queues s ! c) @ drop (Suc i) (ss_queues s ! c))"
    using assms(1,3) set_update_subset_insert [of "ss_queues s" c]
    by (auto simp: apply_deliver_request_def Let_def split: option.splits if_splits)
  then show ?thesis
    using assms(2) by (auto dest!: nth_mem)
qed (use assms set_update_subset_insert in \<open>fastforce simp: apply_login_action_def apply_logout_def
      apply_send_request_def queue_at_def split: option.splits\<close>)+

lemma reachable_queues: "reachable m s \<Longrightarrow> \<forall>q\<in>set (ss_queues s). length q \<le> sm_max_queue_depth m"
proof (induction rule: reachable.induct)
  case (init s)
  then show ?case by (simp add: init_states_def system_new_def)
next
  case (step s a s')
  then show ?case
    using apply_action_queues by (auto simp: model_actions_iff next_state_def)
qed

lemma client_actions_length:
  assumes "\<forall>q\<in>set (ss_queues s). length q \<le> sm_max_queue_depth m"
  shows "length (client_actions m s c)
    \<le> length (sm_user_ids m) * length (sm_privilege_sets m) + 7 + sm_max_queue_depth m"
proof -
  have "length [A_Login c u p. u \<leftarrow> us, p \<leftarrow> ps] = length us * length ps" for us ps
    by (induction us) simp_all
  moreover have "c < length (ss_queues s) \<Longrightarrow> length (ss_queues s ! c) \<le> sm_max_queue_depth m"
    using assms by simp
  ultimately show ?thesis
    by (auto simp: client_actions_def push_login_actions_def push_logout_action_def push_send_request_actions_def
        push_deliver_actions_def session_at_def queue_at_def request_types_all_def vec_get_def)
qed

lemma length_concat_bound: "(\<And>c. length (f c) \<le> b) \<Longrightarrow> length (concat (map f [0..<n])) \<le> n * b"
proof (induction n)
  case (Suc n)
  then show ?case using add_le_mono [OF Suc.IH Suc.prems(1) [of n]] by simp
qed simp

text \<open>
  C37: the exploration is bounded at every state.  In every reachable state no queue is
  longer than the configured depth, and the number of actions to explore is at most
  the number of clients times the logins, the six requests, the deliveries of a full
  queue and one logout.
\<close>

theorem model_stays_bounded:
  assumes "reachable m s"
  shows "(\<forall>q\<in>set (ss_queues s). length q \<le> sm_max_queue_depth m)
    \<and> length (model_actions m s) \<le>
        sm_num_clients m * (length (sm_user_ids m) * length (sm_privilege_sets m) + 7 + sm_max_queue_depth m)"
proof
  show queues: "\<forall>q\<in>set (ss_queues s). length q \<le> sm_max_queue_depth m"
    by (rule reachable_queues [OF assms])
  show "length (model_actions m s) \<le>
        sm_num_clients m * (length (sm_user_ids m) * length (sm_privilege_sets m) + 7 + sm_max_queue_depth m)"
    unfolding model_actions_concat by (rule length_concat_bound [OF client_actions_length [OF queues]])
qed

section \<open>Every outcome is reachable\<close>

fun enabled_run :: "SessionModel \<Rightarrow> SystemState \<Rightarrow> Action list \<Rightarrow> bool" where
  "enabled_run m s [] \<longleftrightarrow> True"
| "enabled_run m s (a # as) \<longleftrightarrow>
     action_client a < sm_num_clients m \<and> enabled m s a \<and> enabled_run m (apply_action s a) as"

lemma reachable_run: "reachable m s \<Longrightarrow> enabled_run m s as \<Longrightarrow> reachable m (foldl apply_action s as)"
  by (induction as arbitrary: s) (auto intro: reachable_action)

lemma reachable_from_start:
  "enabled_run m (system_new (sm_num_clients m)) as \<Longrightarrow>
     reachable m (foldl apply_action (system_new (sm_num_clients m)) as)"
  by (rule reachable_run [OF reachable.init]) (simp add: init_states_def)

lemmas outcome_simps = apply_login_action_def apply_send_request_def apply_deliver_request_def push_effect_def
  system_new_def model_session_default_def vec_get_def queue_at_def ms_is_authenticated_def ms_has_privilege_def
  requires_authentication_def state_has_effect_def Let_def

text \<open>
  C36: nothing the checker hopes to see is out of reach.  Take any configuration with a
  client, room for two requests, an account, and privilege sets with and without the
  download bit.  Then each of the four outcomes occurs in some reachable state: a
  request rejected for want of a login, one rejected for want of a privilege, a
  privileged one completed, and two requests queued at once.
\<close>

theorem gating_outcomes_reachable:
  assumes "0 < sm_num_clients m" "2 \<le> sm_max_queue_depth m" "u \<in> set (sm_user_ids m)"
    and "may \<in> set (sm_privilege_sets m)" "may AND DOWNLOAD_FILE_bit = DOWNLOAD_FILE_bit"
    and "maynot \<in> set (sm_privilege_sets m)" "maynot AND DOWNLOAD_FILE_bit \<noteq> DOWNLOAD_FILE_bit"
  shows "(\<exists>s. reachable m s \<and> rejected_unauthenticated_condition s)
    \<and> (\<exists>s. reachable m s \<and> privileged_operation_condition s)
    \<and> (\<exists>s. reachable m s \<and> rejected_insufficient_privilege_condition s)
    \<and> (\<exists>s. reachable m s \<and> can_deliver_out_of_order s)"
proof -
  obtain k where k: "sm_num_clients m = Suc k"
    using assms(1) by (cases "sm_num_clients m") auto
  have bit: "DOWNLOAD_FILE_bit \<noteq> 0"
    by (simp add: DOWNLOAD_FILE_bit_def)
  let ?run = "foldl apply_action (system_new (sm_num_clients m))"
  let ?ask = "[A_SendRequest 0 RT_GetFileList, A_DeliverRequest 0 0]"
  have "rejected_unauthenticated_condition (?run ?ask)"
    by (simp add: k rejected_unauthenticated_condition_def outcome_simps)
  moreover have "enabled_run m (system_new (sm_num_clients m)) ?ask"
    using assms(2) by (simp add: k outcome_simps)
  moreover have "privileged_operation_condition (?run (A_Login 0 u may # ?ask))"
    using assms(5) bit by (simp add: k privileged_operation_condition_def outcome_simps)
  moreover have "enabled_run m (system_new (sm_num_clients m)) (A_Login 0 u may # ?ask)"
    using assms(2-4) by (simp add: k outcome_simps)
  moreover have "rejected_insufficient_privilege_condition (?run (A_Login 0 u maynot # ?ask))"
    using assms(7) bit by (simp add: k rejected_insufficient_privilege_condition_def outcome_simps)
  moreover have "enabled_run m (system_new (sm_num_clients m)) (A_Login 0 u maynot # ?ask)"
    using assms(2,3,6) by (simp add: k outcome_simps)
  moreover have "can_deliver_out_of_order (?run [A_SendRequest 0 RT_Ping, A_SendRequest 0 RT_Ping])"
    by (simp add: k can_deliver_out_of_order_def outcome_simps)
  moreover have "enabled_run m (system_new (sm_num_clients m)) [A_SendRequest 0 RT_Ping, A_SendRequest 0 RT_Ping]"
    using assms(2) by (simp add: k outcome_simps)
  ultimately show ?thesis
    using reachable_from_start by blast
qed

section \<open>The server's gate\<close>

text \<open>The constants are the server's.\<close>

lemma model_privileges [simp]:
  "DOWNLOAD_FILE_bit = DOWNLOAD_FILE" "READ_CHAT_bit = READ_CHAT" "SEND_CHAT_bit = SEND_CHAT"
  "SHOW_IN_LIST_bit = SHOW_IN_LIST" "CREATE_USER_bit = CREATE_USER" "CHANGE_OWN_PASSWORD_bit = CHANGE_OWN_PASSWORD"
  "SEND_PRIVATE_MESSAGE_bit = SEND_PRIVATE_MESSAGE" "NEWS_READ_ARTICLE_bit = NEWS_READ_ARTICLE"
  "NEWS_POST_ARTICLE_bit = NEWS_POST_ARTICLE" "DISCONNECT_USER_bit = DISCONNECT_USER"
  "GET_CLIENT_INFO_bit = GET_CLIENT_INFO"
  by (simp_all add: DOWNLOAD_FILE_bit_def READ_CHAT_bit_def SEND_CHAT_bit_def SHOW_IN_LIST_bit_def CREATE_USER_bit_def
      CHANGE_OWN_PASSWORD_bit_def SEND_PRIVATE_MESSAGE_bit_def NEWS_READ_ARTICLE_bit_def NEWS_POST_ARTICLE_bit_def
      DISCONNECT_USER_bit_def GET_CLIENT_INFO_bit_def privilege_defs)

lemma model_default_user: "DEFAULT_USER_PRIVILEGES = default_user"
  unfolding DEFAULT_USER_PRIVILEGES_def model_privileges default_user_def from_bits_truncate_def privileges_all_eq
    privilege_defs
  by (simp add: mask_eq_exp_minus_1)

lemma model_admin: "ADMIN_PRIVILEGES = admin"
  unfolding ADMIN_PRIVILEGES_def admin_def privileges_all_eq by (simp add: mask_eq_exp_minus_1)

text \<open>The class of requests a command belongs to, by the check that guards it.\<close>

fun request_class :: "Command \<Rightarrow> RequestType option" where
  "request_class (GetFileNameList _) = Some RT_GetFileList"
| "request_class (GetNewsCategoryNameList _ _) = Some RT_GetNewsCategories"
| "request_class (GetNewsArticleNameList _ _) = Some RT_GetNewsCategories"
| "request_class (GetNewsArticleData _ _ _) = Some RT_GetNewsCategories"
| "request_class (PostNewsArticle _ _) = Some RT_PostNewsArticle"
| "request_class (GetClientInfoText _ _) = Some RT_GetClientInfo"
| "request_class (SetClientUserInfo _ _) = Some RT_GetUserInfo"
| "request_class _ = None"

definition server_gate :: "Session \<Rightarrow> RequestType \<Rightarrow> (PrivilegeError, unit) result" where
  "server_gate s r = (if is_privileged r then require_privilege s (required_privilege r) else require_authenticated s)"

definition same_standing :: "ModelSession \<Rightarrow> Session \<Rightarrow> bool" where
  "same_standing ms s \<longleftrightarrow> (ms_is_authenticated ms \<longleftrightarrow> is_authenticated s) \<and> ms_privileges ms = se_privileges s"

lemma deliver_effect:
  assumes "client < length (ss_sessions s)" "client < length (ss_queues s)" "i < length (ss_queues s ! client)"
    and "same_standing (ss_sessions s ! client) session" "r = mm_request (ss_queues s ! client ! i)" "r \<noteq> RT_Ping"
  shows "ss_effects (apply_deliver_request s client i) = ss_effects s @
    [case server_gate session r of
       Inl NotAuthenticated \<Rightarrow> RejectedUnauthenticated client r
     | Inl (InsufficientPrivileges p) \<Rightarrow> RejectedInsufficientPrivilege client r p
     | Inr _ \<Rightarrow> if is_privileged r then PrivilegedEffectCompleted client r (required_privilege r) (se_privileges session)
               else UnprivilegedEffectCompleted client r]"
  using assms
  by (cases "se_user_id session")
    (auto simp: apply_deliver_request_def vec_get_def Let_def server_gate_def require_privilege_def
      require_authenticated_def requires_authentication_def same_standing_def is_authenticated_def
      ms_has_privilege_def contains_def split: bool.split)

lemma denied_command:
  assumes "request_class command = Some r" "server_gate (cx_session cx) r = Inl e" "rb_reply (cx_transport cx) = None"
  shows "process_with_outbound argon2 m cid command cx =
    (Inr (), cx\<lparr> cx_transport := \<lparr> rb_reply = Some (privilege_error_reply (command_header command) e) \<rparr> \<rparr>)"
  using assms
  by (cases command)
    (auto simp: process_with_outbound_def st_bind_gets transport_send_empty server_gate_def is_privileged_def
      privilege_defs process_get_client_info_text_def check_privilege_and_run_def
      process_set_client_user_info_def
      process_get_file_name_list_def process_category_name_list_def process_article_name_list_def
      process_article_data_def process_post_article_def on_news_return st_bind_def [of "on_news _"]
      st_bind_def [of "st_bind _ _"] st_bind_def [of "st_return _"] st_return_def)


section \<open>A run of the default model\<close>

definition sample_state :: SystemState where
  "sample_state = foldl apply_action (system_new 2)
     [A_Login 1 2 DEFAULT_USER_PRIVILEGES, A_SendRequest 1 RT_PostNewsArticle, A_SendRequest 0 RT_PostNewsArticle,
      A_DeliverRequest 1 0]"

lemma sample_state_eq:
  "sample_state =
     \<lparr> ss_sessions = [model_session_default, \<lparr> ms_user_id = Some 2, ms_privileges = default_user \<rparr>],
       ss_queues = [[\<lparr> mm_request = RT_PostNewsArticle \<rparr>], []],
       ss_effects = [Authenticated 1 2,
         PrivilegedEffectCompleted 1 RT_PostNewsArticle NEWS_POST_ARTICLE default_user] \<rparr>"
proof -
  have "default_user AND NEWS_POST_ARTICLE = NEWS_POST_ARTICLE" "NEWS_POST_ARTICLE \<noteq> 0"
    unfolding default_user_def from_bits_truncate_def privileges_all_eq privilege_defs
    by (simp_all add: mask_eq_exp_minus_1)
  then show ?thesis
    by (simp add: sample_state_def outcome_simps numeral_2_eq_2 model_default_user)
qed

lemma sample_state_reachable: "reachable session_model_default sample_state"
proof -
  have "enabled_run session_model_default (system_new (sm_num_clients session_model_default))
      [A_Login 1 2 DEFAULT_USER_PRIVILEGES, A_SendRequest 1 RT_PostNewsArticle, A_SendRequest 0 RT_PostNewsArticle,
       A_DeliverRequest 1 0]"
    by (simp add: session_model_default_def outcome_simps numeral_2_eq_2)
  from reachable_from_start [OF this] show ?thesis
    by (simp add: sample_state_def session_model_default_def)
qed

theorem gating_holds_everywhere_witness:
  "no_privileged_effect_without_auth sample_state \<and> auth_precedes_privileged_effects sample_state
   \<and> logged_user 1 (take 1 (ss_effects sample_state)) \<noteq> None"
proof -
  have "ss_effects sample_state ! 1 = PrivilegedEffectCompleted 1 RT_PostNewsArticle NEWS_POST_ARTICLE default_user"
    "1 < length (ss_effects sample_state)"
    by (simp_all add: sample_state_eq)
  then show ?thesis
    using gating_holds_everywhere [OF sample_state_reachable] by blast
qed

theorem model_stays_bounded_witness:
  "length (model_actions session_model_default sample_state) \<le> 26
   \<and> length (ss_queues sample_state ! 0) = 1 \<and> length (ss_queues sample_state ! 0) \<le> 2"
  using model_stays_bounded [OF sample_state_reachable] by (simp add: session_model_default_def sample_state_eq)

theorem gating_outcomes_reachable_witness:
  "(\<exists>s. reachable session_model_default s \<and> rejected_unauthenticated_condition s)
   \<and> (\<exists>s. reachable session_model_default s \<and> privileged_operation_condition s)
   \<and> (\<exists>s. reachable session_model_default s \<and> rejected_insufficient_privilege_condition s)
   \<and> (\<exists>s. reachable session_model_default s \<and> can_deliver_out_of_order s)"
proof -
  have "default_user AND DOWNLOAD_FILE = DOWNLOAD_FILE" "DOWNLOAD_FILE \<noteq> 0"
    unfolding default_user_def from_bits_truncate_def privileges_all_eq privilege_defs
    by (simp_all add: mask_eq_exp_minus_1)
  then show ?thesis
    by (intro gating_outcomes_reachable [where u = 1 and may = DEFAULT_USER_PRIVILEGES and maynot = NO_PRIVILEGES])
      (simp_all add: session_model_default_def model_default_user)
qed


end
