(* ===== verification/Spec2Isabelle.thy ===== *)
theory Spec2Isabelle
  imports App_Factory Legacy_Server Migrations Delivery Session_Model
begin

text \<open>
  A verification library for mxd, a server for the Hotline protocol.

  \<^bold>\<open>The program.\<close>  A client opens a TCP connection, sends a twelve-byte handshake and then
  transactions: a twenty-byte header and a payload of parameters, cut into frames of at most
  32 KiB.  Two runtimes serve it.  The legacy server reads transactions itself and hands each to
  \<^verbatim>\<open>handle_request\<close>; the wireframe server decodes frames with the codecs of
  \<^verbatim>\<open>src/src/wireframe/codec\<close>, passes them through compatibility hooks and routes them.  Both end in
  \<^verbatim>\<open>Command::process_with_outbound\<close>, which checks privileges, reads and writes the database,
  keeps the presence registry of online users and pushes notifications to other connections.

  \<^bold>\<open>How it is modelled.\<close>  Rust integers are words of their width (\<^verbatim>\<open>i32\<close> keys of the database are
  integers), strings are their UTF-8 bytes, enums are datatypes and structs are records.  A
  fallible function returns a sum whose left side is the source's error.  Stateful code is a
  state-and-error monad over an explicit state: the pool with its tables, the session, the reply
  buffer, the presence registry and the outside world of pushed messages.  A socket is a byte
  source and a byte sink that say how they end; a timeout is one way to end.  The database is
  modelled as the default SQLite build uses it; a violated constraint is one of the failures the
  engine decides on.  The conversion
  in \<^verbatim>\<open>reply_header\<close> that can panic is a result of its own.

  \<^bold>\<open>Which theory models what.\<close>
  \<^item> \<open>Mxd_Prelude\<close>: results, the monad with its weakest-precondition rules, big-endian words, and
    the locale of fixed-width encodings; \<open>Rust_Text\<close>: UTF-8 validity.
  \<^item> \<open>Wire_Ids\<close>: \<^verbatim>\<open>field_id.rs\<close>, \<^verbatim>\<open>transaction_type.rs\<close>; \<open>Frame\<close>, \<open>Params\<close>, \<open>Transactions\<close>,
    \<open>Transaction_Stream\<close>: \<^verbatim>\<open>src/src/transaction/\<close> and \<^verbatim>\<open>header_util.rs\<close>.
  \<^item> \<open>Handshake_Protocol\<close>: \<^verbatim>\<open>protocol.rs\<close>, \<^verbatim>\<open>wireframe/preamble.rs\<close>, \<^verbatim>\<open>wireframe/handshake.rs\<close>, the
    context of \<^verbatim>\<open>wireframe/connection.rs\<close> and the legacy handshake.
  \<^item> \<open>Codec\<close>, \<open>Message_Assembly\<close>: \<^verbatim>\<open>wireframe/codec/\<close>, \<^verbatim>\<open>wireframe/message_assembly.rs\<close>,
    \<^verbatim>\<open>wireframe/route_ids.rs\<close>.
  \<^item> \<open>Sessions\<close>: \<^verbatim>\<open>privileges.rs\<close>, \<^verbatim>\<open>connection_flags.rs\<close> and the session of \<^verbatim>\<open>handler.rs\<close>;
    \<open>Presence\<close>: \<^verbatim>\<open>presence.rs\<close>; \<open>Outbound\<close>: \<^verbatim>\<open>server/outbound.rs\<close>, \<^verbatim>\<open>wireframe/outbound.rs\<close>.
  \<^item> \<open>Db_Tables\<close>, \<open>News_Store\<close>, \<open>File_Store\<close>: \<^verbatim>\<open>models.rs\<close>, \<^verbatim>\<open>schema.rs\<close>, \<^verbatim>\<open>news_path.rs\<close> and the
    repositories of \<^verbatim>\<open>src/src/db/\<close>; \<open>Migrations\<close>: \<^verbatim>\<open>db/migrations.rs\<close>.
  \<^item> \<open>Commands\<close>, \<open>News_Handlers\<close>, \<open>Handlers\<close>: \<^verbatim>\<open>src/src/commands/\<close>, \<^verbatim>\<open>news_handlers/mod.rs\<close>,
    \<^verbatim>\<open>login.rs\<close>, \<^verbatim>\<open>users.rs\<close> and \<^verbatim>\<open>handle_request\<close>.
  \<^item> \<open>Compat\<close>, \<open>Router\<close>: the compatibility modules, \<^verbatim>\<open>wireframe/router.rs\<close>, \<^verbatim>\<open>wireframe/routes/\<close> and
    \<^verbatim>\<open>before_send\<close> of \<^verbatim>\<open>wireframe/protocol.rs\<close>.
  \<^item> \<open>App_Factory\<close>: the context registry of \<^verbatim>\<open>wireframe/connection.rs\<close> and the app factory of
    \<^verbatim>\<open>server/wireframe/mod.rs\<close>; \<open>Legacy_Server\<close>: \<^verbatim>\<open>handle_client\<close> of \<^verbatim>\<open>server/legacy/mod.rs\<close>.
  \<^item> \<open>Session_Model\<close>: the checked state machine of \<^verbatim>\<open>crates/mxd-verification\<close>.

  \<^bold>\<open>What is shown.\<close>
  \<^item> On the wire: the readers accept exactly the fragmentations of valid transactions, what a
    writer emits is read back, the streaming and the buffered paths agree, the encoders put the
    same bytes on the wire, and the frame decoder's series tracker stays consistent.
  \<^item> State: the presence registry, the article chains and the server as a whole keep their
    invariants under every operation; paths, listings and visible files are characterised exactly.
  \<^item> Commands (\<open>Server_Invariant\<close>, \<open>Replies\<close>, \<open>Access_Control\<close>, \<open>Login_Flow\<close>, \<open>Delivery\<close>): each is
    answered once and to its request, an unauthenticated client changes nothing, only the posting
    privilege writes, a login goes through from bytes to registry, and a notification reaches a
    peer that becomes ready within the retries.  \<open>Push_Independence\<close> shows by a two-run argument
    that replies and stored state do not depend on the messaging adapter.
  \<^item> Runtimes: every routed frame is answered, routing refines \<^verbatim>\<open>handle_request\<close> whatever
    adapter it pushes with, inverted text
    makes no difference to the effect, a legacy connection is answered in order, and the app
    factory uses each connection's own context once.
  \<^item> The session model: its conditions hold in every reachable state, its interesting outcomes
    are reachable, and it gates as the server does.
  \<^item> Some theorems describe behaviour that is not intended: one long name blocks the user list,
    an unknown leading bundle is skipped, the Tokio codec rejects large transactions, and the
    legacy server serves a connection whose handshake it rejected.

  \<^bold>\<open>Locales.\<close>  \<open>fixed_width\<close> and \<open>wire_code\<close> are the contracts of the encodings, \<open>presence_registry\<close>
  that of the registry towards its clients, and \<open>path_table\<close> that of the recursive path queries;
  each is interpreted on the definitions of the model.

  \<^bold>\<open>Loops and bounds.\<close>  Loops are recursive functions with a termination proof.  The exceptions are
  the chunk loops of the buffered and the streaming writer, which are shown to return, and the
  migration loop, which is shown to return when migrations take time; they are partial functions,
  for which not returning is the value \<open>None\<close>.  The legacy loop ends because each round consumes bytes of the source.  The clock of
  the watchdog counts nanoseconds; at the exact tick of the deadline the migration wins, and the
  blocking thread sees the cancellation from the next tick on.

  \<^bold>\<open>Parameters.\<close>  Argon2, the push queues and session registry of wireframe, its application
  builder and envelope format, the migration harness, and the decisions of the database engine
  (which statement fails, generated ids, the clock) are arguments; what is relied on is a named
  hypothesis, and each has a concrete instance in a witness.

  \<^bold>\<open>Not modelled.\<close>  The accept loops, signal handling and pool set-up of both servers, the feature
  audit and the PostgreSQL variant of the migrations are calls into Tokio, wireframe and Diesel.
  The command line and its configuration layers are declarations for their libraries.  Logging
  has no effect on results.  The validator, the test utilities, the fuzz driver and the TLA+
  specification are not code of the server.  Interleaving is modelled where state is shared (the
  presence registry, the session model, the context registry); within one connection requests are
  sequential, as in the code.
\<close>

end
